theory Spec2Isabelle
  imports Complex_Main "HOL-Library.Sublist" "HOL-Library.Log_Nat"
begin

section \<open>Trap system: spatial detector\<close>

text \<open>
  A shallow embedding of \<^verbatim>\<open>TrapSystem.js\<close>. Host objects (pages, tokens) are records
  holding the properties the source reads with \<^verbatim>\<open>get\<close>; a \<^verbatim>\<open>null\<close> token is
  \<open>None\<close>.
\<close>

subsection \<open>Numbers\<close>

text \<open>
  JavaScript numbers are IEEE 754 doubles. The model keeps a number as the real it denotes
  and rounds the result of every arithmetic operation of the source to the nearest number
  with a significand of 53 bits, ties to the even significand (\<open>fl\<close>). The comparisons of
  the source (\<^verbatim>\<open>>=\<close>, \<^verbatim>\<open><=\<close>, \<^verbatim>\<open><\<close>) are exact and are the comparisons of the model. The
  exponent is not bounded: overflow to \<^verbatim>\<open>Infinity\<close>, gradual underflow and \<^verbatim>\<open>NaN\<close> are
  outside the model, except for the division by a zero area, which is written out where it
  occurs.

  \<open>rne z\<close> is the integer nearest to \<open>z\<close>, the even one of two equally near; \<open>expo y\<close> is
  the exponent \<open>e\<close> of a positive \<open>y\<close>, with \<open>2 powi e \<le> y < 2 powi (e + 1)\<close>.
\<close>

definition rne :: "real \<Rightarrow> int" where
  "rne z = (let f = \<lfloor>z\<rfloor>; d = z - of_int f
            in if d < 1 / 2 then f else if 1 / 2 < d then f + 1 else if even f then f else f + 1)"

definition expo :: "real \<Rightarrow> int" where
  "expo y = (if 1 \<le> y then bitlen \<lfloor>y\<rfloor> - 1
             else (let k = bitlen \<lfloor>1 / y\<rfloor> in if y * 2 ^ nat (k - 1) = 1 then 1 - k else - k))"

definition fl :: "real \<Rightarrow> real" where
  "fl x = (if x = 0 then 0
           else of_int (rne (x / 2 powi (expo \<bar>x\<bar> - 52))) * 2 powi (expo \<bar>x\<bar> - 52))"

text \<open>
  The operators \<^verbatim>\<open>+\<close>, \<^verbatim>\<open>-\<close>, \<^verbatim>\<open>*\<close>, \<^verbatim>\<open>/\<close> and \<^verbatim>\<open>Math.sqrt\<close> of the source: the exact
  result, rounded. Negation, \<^verbatim>\<open>Math.min\<close>, \<^verbatim>\<open>Math.max\<close>, \<^verbatim>\<open>Math.round\<close> and \<^verbatim>\<open>Math.ceil\<close>
  are exact. A decimal literal of the source is the rounded value of its decimal: \<^verbatim>\<open>0.2\<close>
  is \<open>fl (2 / 10)\<close>, \<^verbatim>\<open>0.05\<close> is \<open>fl (5 / 100)\<close>.
\<close>

definition jadd :: "real \<Rightarrow> real \<Rightarrow> real" where
  "jadd a b = fl (a + b)"

definition jsub :: "real \<Rightarrow> real \<Rightarrow> real" where
  "jsub a b = fl (a - b)"

definition jmul :: "real \<Rightarrow> real \<Rightarrow> real" where
  "jmul a b = fl (a * b)"

definition jdiv :: "real \<Rightarrow> real \<Rightarrow> real" where
  "jdiv a b = fl (a / b)"

definition jsqrt :: "real \<Rightarrow> real" where
  "jsqrt a = fl (sqrt a)"

subsection \<open>Configuration\<close>

definition DEFAULT_GRID_SIZE :: real where
  "DEFAULT_GRID_SIZE = 70"

definition DEFAULT_SCALE :: real where
  "DEFAULT_SCALE = 5"

definition MIN_MOVEMENT_FACTOR :: real where
  "MIN_MOVEMENT_FACTOR = fl (2 / 10)"

definition AURA_SIZE :: real where
  "AURA_SIZE = 2"

datatype aura = ARMED | DISARMED | PAUSED

subsection \<open>Host objects\<close>

record page =
  snapping_increment :: real
  scale_number :: real
  grid_type :: string

record pageSettings =
  gridSize :: real
  scale :: real
  gridType :: string
  valid :: bool

text \<open>
  A graphic of the host: the properties the script reads and writes. \<open>aura1_color\<close> is
  \<open>None\<close> until the script sets one of its three colours; \<open>bar1_value\<close> and
  \<open>bar1_max\<close> are \<open>None\<close> until set.
\<close>

record token =
  pageid :: string
  tleft :: real
  ttop :: real
  twidth :: real
  theight :: real
  layer :: string
  gmnotes :: string
  statusmarkers :: string
  aura1_color :: "aura option"
  bar1_value :: "int option"
  bar1_max :: "int option"

record coords =
  c_x :: int
  c_y :: int
  c_width :: int
  c_height :: int
  c_gridSize :: real
  c_scale :: real
  c_gridType :: string
  pixelX :: real
  pixelY :: real
  tokenWidth :: real
  tokenHeight :: real

record point =
  p_x :: real
  p_y :: real

record box =
  b_left :: real
  b_right :: real
  b_top :: real
  b_bottom :: real

subsection \<open>Page settings and grid coordinates\<close>

text \<open>
  \<^verbatim>\<open>getPageSettings\<close>: a missing page gives the defaults; a grid size that is falsy
  or below 2 is replaced by the default, a falsy scale by the default scale.
\<close>

definition getPageSettings :: "(string \<rightharpoonup> page) \<Rightarrow> string \<Rightarrow> pageSettings" where
  "getPageSettings pages pid =
     (case pages pid of
        None \<Rightarrow> \<lparr>gridSize = DEFAULT_GRID_SIZE, scale = DEFAULT_SCALE,
                 gridType = ''square'', valid = False\<rparr>
      | Some p \<Rightarrow>
          \<lparr>gridSize = (if snapping_increment p = 0 \<or> snapping_increment p < 2
                       then DEFAULT_GRID_SIZE else snapping_increment p),
           scale = (if scale_number p = 0 then DEFAULT_SCALE else scale_number p),
           gridType = grid_type p, valid = True\<rparr>)"

text \<open>
  \<^verbatim>\<open>getTokenGridCoords\<close>. \<^verbatim>\<open>Math.round\<close> rounds halves up, as \<^const>\<open>round\<close> does;
  \<^verbatim>\<open>Math.ceil\<close> is \<^const>\<open>ceiling\<close>.
\<close>

definition getTokenGridCoords :: "(string \<rightharpoonup> page) \<Rightarrow> token option \<Rightarrow> coords option" where
  "getTokenGridCoords pages token =
     (case token of
        None \<Rightarrow> None
      | Some tk \<Rightarrow>
          (let ps = getPageSettings pages (pageid tk);
               g = gridSize ps;
               left = tleft tk;
               top = ttop tk;
               w = twidth tk;
               h = theight tk
           in Some \<lparr>c_x = round (jdiv (jsub left (jdiv w 2)) g),
                    c_y = round (jdiv (jsub top (jdiv h 2)) g),
                    c_width = \<lceil>jdiv w g\<rceil>,
                    c_height = \<lceil>jdiv h g\<rceil>,
                    c_gridSize = g,
                    c_scale = scale ps,
                    c_gridType = gridType ps,
                    pixelX = left,
                    pixelY = top,
                    tokenWidth = w,
                    tokenHeight = h\<rparr>))"

subsection \<open>Overlap test\<close>

definition boundsOf :: "coords \<Rightarrow> box" where
  "boundsOf c =
     \<lparr>b_left = jsub (pixelX c) (jdiv (tokenWidth c) 2),
      b_right = jadd (pixelX c) (jdiv (tokenWidth c) 2),
      b_top = jsub (pixelY c) (jdiv (tokenHeight c) 2),
      b_bottom = jadd (pixelY c) (jdiv (tokenHeight c) 2)\<rparr>"

definition xOverlap :: "box \<Rightarrow> box \<Rightarrow> real" where
  "xOverlap b1 b2 = max 0 (jsub (min (b_right b1) (b_right b2)) (max (b_left b1) (b_left b2)))"

definition yOverlap :: "box \<Rightarrow> box \<Rightarrow> real" where
  "yOverlap b1 b2 = max 0 (jsub (min (b_bottom b1) (b_bottom b2)) (max (b_top b1) (b_top b2)))"

text \<open>
  \<^verbatim>\<open>checkGridOverlap\<close>. Every sum, difference, product and quotient of the source is
  rounded. The source divides by the area of the first token; for a zero
  area JavaScript gives \<^verbatim>\<open>Infinity\<close> (a positive overlap, which compares \<^verbatim>\<open>>= 5\<close>)
  or \<^verbatim>\<open>NaN\<close> (a zero overlap, which compares false), and the model writes the two
  cases out.
\<close>

definition checkGridOverlap :: "(string \<rightharpoonup> page) \<Rightarrow> token option \<Rightarrow> token option \<Rightarrow> bool" where
  "checkGridOverlap pages t1 t2 =
     (case (getTokenGridCoords pages t1, getTokenGridCoords pages t2) of
        (Some c1, Some c2) \<Rightarrow>
          (let b1 = boundsOf c1;
               b2 = boundsOf c2;
               xO = xOverlap b1 b2;
               yO = yOverlap b1 b2;
               overlapArea = jmul xO yO;
               area1 = jmul (tokenWidth c1) (tokenHeight c1)
           in if area1 = 0 then 0 < overlapArea
              else 5 \<le> jmul (jdiv overlapArea area1) 100)
      | _ \<Rightarrow> False)"

text \<open>
  The overlap percentage in the words of the specification: the intersection area of two
  axis-aligned boxes divided by the area of the first box, as a percentage.
\<close>

definition tokenBox :: "token \<Rightarrow> box" where
  "tokenBox tk =
     \<lparr>b_left = tleft tk - twidth tk / 2, b_right = tleft tk + twidth tk / 2,
      b_top = ttop tk - theight tk / 2, b_bottom = ttop tk + theight tk / 2\<rparr>"

definition boxArea :: "box \<Rightarrow> real" where
  "boxArea b = (b_right b - b_left b) * (b_bottom b - b_top b)"

definition intersectionArea :: "box \<Rightarrow> box \<Rightarrow> real" where
  "intersectionArea a b =
     (if b_right a \<le> b_left b \<or> b_right b \<le> b_left a \<or> b_bottom a \<le> b_top b \<or> b_bottom b \<le> b_top a
      then 0
      else (min (b_right a) (b_right b) - max (b_left a) (b_left b)) *
           (min (b_bottom a) (b_bottom b) - max (b_top a) (b_top b)))"

definition overlapPercent :: "box \<Rightarrow> box \<Rightarrow> real" where
  "overlapPercent a b = intersectionArea a b / boxArea a * 100"

text \<open>
  A token placed on whole pixels: position and size are integers of magnitude at most
  \<open>2 ^ 22\<close>. Its box then has half-integer sides (\<open>halfInt\<close>).
\<close>

definition wholePixels :: "token \<Rightarrow> bool" where
  "wholePixels tk =
     (tleft tk \<in> \<int> \<and> ttop tk \<in> \<int> \<and> twidth tk \<in> \<int> \<and> theight tk \<in> \<int> \<and>
      \<bar>tleft tk\<bar> \<le> 2 ^ 22 \<and> \<bar>ttop tk\<bar> \<le> 2 ^ 22 \<and> \<bar>twidth tk\<bar> \<le> 2 ^ 22 \<and> \<bar>theight tk\<bar> \<le> 2 ^ 22)"

definition halfInt :: "int \<Rightarrow> real \<Rightarrow> bool" where
  "halfInt B v = (\<exists>n. v = of_int n / 2 \<and> \<bar>n\<bar> \<le> B)"

subsection \<open>Segment against the expanded box\<close>

text \<open>\<^verbatim>\<open>lineIntersection\<close>: \<^verbatim>\<open>null\<close> is \<open>None\<close>.\<close>

definition lineIntersection :: "real \<Rightarrow> real \<Rightarrow> real \<Rightarrow> real \<Rightarrow> real \<Rightarrow> real \<Rightarrow> real \<Rightarrow> real \<Rightarrow> point option" where
  "lineIntersection x1 y1 x2 y2 x3 y3 x4 y4 =
     (let denom = jsub (jmul (jsub x1 x2) (jsub y3 y4)) (jmul (jsub y1 y2) (jsub x3 x4))
      in if denom = 0 then None
         else (let t = jdiv (jsub (jmul (jsub x1 x3) (jsub y3 y4)) (jmul (jsub y1 y3) (jsub x3 x4))) denom;
                   u = jdiv (- jsub (jmul (jsub x1 x2) (jsub y1 y3)) (jmul (jsub y1 y2) (jsub x1 x3))) denom
               in if 0 \<le> t \<and> t \<le> 1 \<and> 0 \<le> u \<and> u \<le> 1
                  then Some \<lparr>p_x = jadd x1 (jmul t (jsub x2 x1)), p_y = jadd y1 (jmul t (jsub y2 y1))\<rparr>
                  else None))"

definition margin :: "coords \<Rightarrow> real" where
  "margin c = jmul (min (tokenWidth c) (tokenHeight c)) (fl (5 / 100))"


definition isInside :: "coords \<Rightarrow> real \<Rightarrow> real \<Rightarrow> bool" where
  "isInside c x y =
     (jsub (b_left (boundsOf c)) (margin c) \<le> x \<and> x \<le> jadd (b_right (boundsOf c)) (margin c) \<and>
      jsub (b_top (boundsOf c)) (margin c) \<le> y \<and> y \<le> jadd (b_bottom (boundsOf c)) (margin c))"

text \<open>The four edges of the expanded box, in the order of the source: top, right, bottom, left.\<close>

definition edges :: "coords \<Rightarrow> (real \<times> real \<times> real \<times> real) list" where
  "edges c =
     (let l = jsub (b_left (boundsOf c)) (margin c);
          r = jadd (b_right (boundsOf c)) (margin c);
          t = jsub (b_top (boundsOf c)) (margin c);
          b = jadd (b_bottom (boundsOf c)) (margin c)
      in [(l, t, r, t), (r, t, r, b), (r, b, l, b), (l, b, l, t)])"

text \<open>
  The distance of a candidate from the start, \<^verbatim>\<open>Math.sqrt((p.x - startX)**2 + (p.y - startY)**2)\<close>;
  the square \<^verbatim>\<open>d**2\<close> is taken as the rounded product \<^verbatim>\<open>d*d\<close>.
\<close>

definition distFrom :: "real \<Rightarrow> real \<Rightarrow> point \<Rightarrow> real" where
  "distFrom sx sy p =
     jsqrt (jadd (jmul (jsub (p_x p) sx) (jsub (p_x p) sx)) (jmul (jsub (p_y p) sy) (jsub (p_y p) sy)))"

text \<open>The callback of the \<^verbatim>\<open>reduce\<close>: the current point replaces the closest one only when strictly nearer.\<close>

definition closer :: "real \<Rightarrow> real \<Rightarrow> point \<Rightarrow> point \<Rightarrow> point" where
  "closer sx sy closest cur = (if distFrom sx sy cur < distFrom sx sy closest then cur else closest)"

definition intersections :: "coords \<Rightarrow> real \<Rightarrow> real \<Rightarrow> real \<Rightarrow> real \<Rightarrow> point list" where
  "intersections c startX startY endX endY =
     List.map_filter (\<lambda>(x1, y1, x2, y2). lineIntersection startX startY endX endY x1 y1 x2 y2) (edges c)"

text \<open>The length of the path, \<^verbatim>\<open>Math.sqrt(dx*dx + dy*dy)\<close>.\<close>

definition pathLength :: "real \<Rightarrow> real \<Rightarrow> real \<Rightarrow> real \<Rightarrow> real" where
  "pathLength startX startY endX endY =
     (let dx = jsub endX startX;
          dy = jsub endY startY
      in jsqrt (jadd (jmul dx dx) (jmul dy dy)))"

text \<open>\<^verbatim>\<open>checkLineIntersection\<close>: the result \<^verbatim>\<open>false\<close> is \<open>None\<close>.\<close>

definition checkLineIntersection :: "(string \<rightharpoonup> page) \<Rightarrow> real \<Rightarrow> real \<Rightarrow> real \<Rightarrow> real \<Rightarrow> token option \<Rightarrow> point option" where
  "checkLineIntersection pages startX startY endX endY trapToken =
     (case getTokenGridCoords pages trapToken of
        None \<Rightarrow> None
      | Some c \<Rightarrow>
          (let dist = pathLength startX startY endX endY
           in if dist < jmul (c_gridSize c) MIN_MOVEMENT_FACTOR then None
              else if isInside c startX startY then Some \<lparr>p_x = startX, p_y = startY\<rparr>
              else if isInside c endX endY then Some \<lparr>p_x = endX, p_y = endY\<rparr>
              else (case intersections c startX startY endX endY of
                      [] \<Rightarrow> None
                    | i # is \<Rightarrow> Some (foldl (closer startX startY) i (i # is)))))"

section \<open>Trap system: descriptor text\<close>

text \<open>
  The descriptor of a trap is held in the token's \<^verbatim>\<open>gmnotes\<close>. Strings are lists of
  ASCII characters; the regular expressions of the source are written out as matchers
  that return the captured groups and the text left after the match. Every quantifier
  of these expressions is greedy and is followed by a character outside its class, so
  a matcher never has to backtrack. \<^verbatim>\<open>\s\<close> is the ASCII white space, \<^verbatim>\<open>\d\<close> a decimal
  digit, \<^verbatim>\<open>\w\<close> a letter, digit or underscore. Numbers written in the text are
  integers (use counts far below the 53 bits a JavaScript number holds exactly).
\<close>

subsection \<open>Characters and strings\<close>

definition isDigit :: "char \<Rightarrow> bool" where
  "isDigit c = (c \<in> set ''0123456789'')"

definition isSpace :: "char \<Rightarrow> bool" where
  "isSpace c = (c \<in> set [CHR '' '', CHR 0x09, CHR 0x0A, CHR 0x0B, CHR 0x0C, CHR 0x0D])"

definition isLower :: "char \<Rightarrow> bool" where
  "isLower c = (c \<in> set ''abcdefghijklmnopqrstuvwxyz'')"

definition isUpper :: "char \<Rightarrow> bool" where
  "isUpper c = (c \<in> set ''ABCDEFGHIJKLMNOPQRSTUVWXYZ'')"

definition isWord :: "char \<Rightarrow> bool" where
  "isWord c = (isLower c \<or> isUpper c \<or> isDigit c \<or> c = CHR ''_'')"

definition toLower :: "char \<Rightarrow> char" where
  "toLower c =
     (case map_of (zip ''ABCDEFGHIJKLMNOPQRSTUVWXYZ'' ''abcdefghijklmnopqrstuvwxyz'') c of
        Some l \<Rightarrow> l
      | None \<Rightarrow> c)"

definition toLowerCase :: "string \<Rightarrow> string" where
  "toLowerCase s = map toLower s"

text \<open>\<^verbatim>\<open>String.prototype.includes\<close>.\<close>

fun includes_str :: "string \<Rightarrow> string \<Rightarrow> bool" where
  "includes_str [] sub = (sub = [])"
| "includes_str (c # cs) sub = (prefix sub (c # cs) \<or> includes_str cs sub)"

text \<open>\<^verbatim>\<open>String.prototype.trim\<close>.\<close>

definition trim :: "string \<Rightarrow> string" where
  "trim s = rev (dropWhile isSpace (rev (dropWhile isSpace s)))"

text \<open>\<^verbatim>\<open>String.prototype.split\<close> at a single character: always at least one piece.\<close>

fun splitOn :: "char \<Rightarrow> string \<Rightarrow> string list" where
  "splitOn d [] = [[]]"
| "splitOn d (c # cs) =
     (if c = d then [] # splitOn d cs
      else (case splitOn d cs of
              [] \<Rightarrow> [[c]]
            | p # ps \<Rightarrow> (c # p) # ps))"

text \<open>A literal at the start of the text; the second form ignores the case of letters (flag \<^verbatim>\<open>i\<close>), its pattern is given in lower case.\<close>

fun lit :: "string \<Rightarrow> string \<Rightarrow> string option" where
  "lit [] s = Some s"
| "lit (p # ps) [] = None"
| "lit (p # ps) (c # cs) = (if p = c then lit ps cs else None)"

fun litCI :: "string \<Rightarrow> string \<Rightarrow> string option" where
  "litCI [] s = Some s"
| "litCI (p # ps) [] = None"
| "litCI (p # ps) (c # cs) = (if p = toLower c then litCI ps cs else None)"

text \<open>\<^verbatim>\<open>\s*\<close>, and a class repeated at least once (\<^verbatim>\<open>+\<close>): the captured text and the rest.\<close>

definition skipWs :: "string \<Rightarrow> string" where
  "skipWs s = dropWhile isSpace s"

definition many1 :: "(char \<Rightarrow> bool) \<Rightarrow> string \<Rightarrow> (string \<times> string) option" where
  "many1 P s = (if takeWhile P s = [] then None else Some (takeWhile P s, dropWhile P s))"

text \<open>
  The first match of an expression in a text, as \<^verbatim>\<open>match\<close> and \<^verbatim>\<open>replace\<close> find it:
  the matcher is tried at every position from the left. The result is the text before
  the match, the captured groups and the text after the match.
\<close>

fun search :: "(string \<Rightarrow> ('a \<times> string) option) \<Rightarrow> string \<Rightarrow> (string \<times> 'a \<times> string) option" where
  "search m [] = (case m [] of None \<Rightarrow> None | Some (v, r) \<Rightarrow> Some ([], v, r))"
| "search m (c # cs) =
     (case m (c # cs) of
        Some (v, r) \<Rightarrow> Some ([], v, r)
      | None \<Rightarrow> (case search m cs of None \<Rightarrow> None | Some (b, v, r) \<Rightarrow> Some (c # b, v, r)))"

definition firstMatch :: "(string \<Rightarrow> ('a \<times> string) option) \<Rightarrow> string \<Rightarrow> 'a option" where
  "firstMatch m s = (case search m s of None \<Rightarrow> None | Some (b, v, r) \<Rightarrow> Some v)"

text \<open>The matched text itself (element 0 of the result of \<^verbatim>\<open>match\<close>).\<close>

definition matchedText :: "(string \<Rightarrow> ('a \<times> string) option) \<Rightarrow> string \<Rightarrow> string option" where
  "matchedText m s =
     (case search m s of
        None \<Rightarrow> None
      | Some (b, v, r) \<Rightarrow> Some (take (length s - length b - length r) (drop (length b) s)))"

text \<open>\<^verbatim>\<open>replace\<close> with an expression without flag \<^verbatim>\<open>g\<close>: the first match only.\<close>

definition replaceFirst :: "(string \<Rightarrow> ('a \<times> string) option) \<Rightarrow> string \<Rightarrow> string \<Rightarrow> string" where
  "replaceFirst m new s = (case search m s of None \<Rightarrow> s | Some (b, v, r) \<Rightarrow> b @ new @ r)"

text \<open>
  \<^verbatim>\<open>replace\<close> of every occurrence of a literal (flag \<^verbatim>\<open>g\<close>), left to right without
  overlap. The counter is the number of characters of the current match still to skip.
\<close>

fun replaceAllFrom :: "string \<Rightarrow> string \<Rightarrow> nat \<Rightarrow> string \<Rightarrow> string" where
  "replaceAllFrom pat rep k [] = []"
| "replaceAllFrom pat rep (Suc k) (c # cs) = replaceAllFrom pat rep k cs"
| "replaceAllFrom pat rep 0 (c # cs) =
     (if pat \<noteq> [] \<and> prefix pat (c # cs) then rep @ replaceAllFrom pat rep (length pat - 1) cs
      else c # replaceAllFrom pat rep 0 cs)"

definition replaceAll :: "string \<Rightarrow> string \<Rightarrow> string \<Rightarrow> string" where
  "replaceAll pat rep s = replaceAllFrom pat rep 0 s"

text \<open>
  All matches of an expression (\<^verbatim>\<open>match\<close> with flag \<^verbatim>\<open>g\<close>), left to right without
  overlap, each with its captured groups.
\<close>

fun allMatchesFrom :: "(string \<Rightarrow> ('a \<times> string) option) \<Rightarrow> nat \<Rightarrow> string \<Rightarrow> 'a list" where
  "allMatchesFrom m k [] = []"
| "allMatchesFrom m (Suc k) (c # cs) = allMatchesFrom m k cs"
| "allMatchesFrom m 0 (c # cs) =
     (case m (c # cs) of
        Some (v, r) \<Rightarrow> v # allMatchesFrom m (length cs - length r) cs
      | None \<Rightarrow> allMatchesFrom m 0 cs)"

subsection \<open>Numbers in the text\<close>

definition digitValue :: "char \<Rightarrow> nat" where
  "digitValue c = (case map_of (zip ''0123456789'' [0, 1, 2, 3, 4, 5, 6, 7, 8, 9]) c of Some n \<Rightarrow> n | None \<Rightarrow> 0)"

text \<open>The value of a string of decimal digits (\<^verbatim>\<open>parseInt(d, 10)\<close> on a match of \<^verbatim>\<open>\d+\<close>).\<close>

definition digitsValue :: "string \<Rightarrow> nat" where
  "digitsValue ds = foldl (\<lambda>n c. 10 * n + digitValue c) 0 ds"

text \<open>
  \<^verbatim>\<open>parseInt(s, 10)\<close> on any string: leading white space, an optional sign, then the
  longest run of digits; \<open>None\<close> is \<^verbatim>\<open>NaN\<close>.
\<close>

definition parseInt :: "string \<Rightarrow> int option" where
  "parseInt s =
     (let t = skipWs s;
          neg = (case t of c # _ \<Rightarrow> c = CHR ''-'' | [] \<Rightarrow> False);
          u = (case t of c # cs \<Rightarrow> (if c = CHR ''-'' \<or> c = CHR ''+'' then cs else t) | [] \<Rightarrow> [])
      in case many1 isDigit u of
           None \<Rightarrow> None
         | Some (ds, _) \<Rightarrow> Some (if neg then - int (digitsValue ds) else int (digitsValue ds)))"

definition digitChar :: "nat \<Rightarrow> char" where
  "digitChar n = ''0123456789'' ! (n mod 10)"

text \<open>A number in a template literal: its decimal digits, with a minus sign below zero.\<close>

function showNat :: "nat \<Rightarrow> string" where
  "showNat n = (if n < 10 then [digitChar n] else showNat (n div 10) @ [digitChar n])"
  by pat_completeness auto
termination
  by (relation "measure id") auto

declare showNat.simps [simp del]

definition showInt :: "int \<Rightarrow> string" where
  "showInt i = (if i < 0 then CHR ''-'' # showNat (nat (- i)) else showNat (nat i))"

subsection \<open>Decoding\<close>

definition hexValue :: "char \<Rightarrow> nat option" where
  "hexValue c =
     map_of (zip ''0123456789abcdefABCDEF''
                 [0, 1, 2, 3, 4, 5, 6, 7, 8, 9, 10, 11, 12, 13, 14, 15, 10, 11, 12, 13, 14, 15]) c"

text \<open>
  \<^verbatim>\<open>decodeURIComponent\<close>; \<open>None\<close> is the \<^verbatim>\<open>URIError\<close> it throws on a malformed escape.
  The model holds ASCII text only: an escape of a byte from 128 on (part of a multi-byte
  character) is outside it and is treated as malformed. A text without a percent sign
  is returned as it is.
\<close>

fun decodeURIComponent :: "string \<Rightarrow> string option" where
  "decodeURIComponent [] = Some []"
| "decodeURIComponent (c # cs) =
     (if c = CHR ''%'' then
        (case cs of
           h1 # h2 # r \<Rightarrow>
             (case (hexValue h1, hexValue h2) of
                (Some a, Some b) \<Rightarrow>
                  (if 16 * a + b < 128
                   then map_option ((#) (char_of (16 * a + b))) (decodeURIComponent r)
                   else None)
              | _ \<Rightarrow> None)
         | _ \<Rightarrow> None)
      else map_option ((#) c) (decodeURIComponent cs))"

text \<open>\<^verbatim>\<open>try { decoded = decodeURIComponent(notes) } catch (e) { decoded = notes }\<close>.\<close>

definition tryDecode :: "string \<Rightarrow> string" where
  "tryDecode notes = (case decodeURIComponent notes of Some d \<Rightarrow> d | None \<Rightarrow> notes)"

text \<open>The five entity replacements of \<^verbatim>\<open>parseTrapNotes\<close>, in the order of the source.\<close>

definition unescapeEntities :: "string \<Rightarrow> string" where
  "unescapeEntities s =
     replaceAll ''&#39;'' [CHR 0x27]
       (replaceAll ''&quot;'' [CHR 0x22]
         (replaceAll ''&gt;'' ''>''
           (replaceAll ''&lt;'' ''<''
             (replaceAll ''&amp;'' ''&'' s))))"

subsection \<open>The descriptor and its fields\<close>

text \<open>
  A JavaScript value used as a number: a number, \<^verbatim>\<open>NaN\<close>, \<^verbatim>\<open>null\<close> (which counts as 0
  in arithmetic and comparisons) or \<^verbatim>\<open>undefined\<close> (which counts as \<^verbatim>\<open>NaN\<close>).
\<close>

datatype num = Num int | NaN | Null | Undefined

fun toNumber :: "num \<Rightarrow> int option" where
  "toNumber (Num n) = Some n"
| "toNumber NaN = None"
| "toNumber Null = Some 0"
| "toNumber Undefined = None"

definition geq :: "num \<Rightarrow> num \<Rightarrow> bool" where
  "geq a b = (case (toNumber a, toNumber b) of (Some x, Some y) \<Rightarrow> y \<le> x | _ \<Rightarrow> False)"

definition mathMax :: "num \<Rightarrow> num \<Rightarrow> num" where
  "mathMax a b = (case (toNumber a, toNumber b) of (Some x, Some y) \<Rightarrow> Num (max x y) | _ \<Rightarrow> NaN)"

definition mathMin :: "num \<Rightarrow> num \<Rightarrow> num" where
  "mathMin a b = (case (toNumber a, toNumber b) of (Some x, Some y) \<Rightarrow> Num (min x y) | _ \<Rightarrow> NaN)"

datatype position = Center | Cell nat nat

record check =
  ck_type :: string
  ck_dc :: num

record trapData =
  currentUses :: int
  maxUses :: int
  isArmed :: bool
  primary :: "string \<times> string"
  options :: "(string \<times> string) list"
  position :: "position option"
  trapType :: string
  checks :: "check list"
  success :: "string option"
  failure :: "string option"
  movementTriggerEnabled :: bool

text \<open>\<^verbatim>\<open>/uses:\s*(\d+)\/(\d+)/\<close>\<close>

definition matchUses :: "string \<Rightarrow> ((string \<times> string) \<times> string) option" where
  "matchUses s =
     (case lit ''uses:'' s of
        None \<Rightarrow> None
      | Some r \<Rightarrow>
          (case many1 isDigit (skipWs r) of
             None \<Rightarrow> None
           | Some (d1, r1) \<Rightarrow>
               (case lit ''/'' r1 of
                  None \<Rightarrow> None
                | Some r2 \<Rightarrow>
                    (case many1 isDigit r2 of
                       None \<Rightarrow> None
                     | Some (d2, r3) \<Rightarrow> Some ((d1, d2), r3)))))"

text \<open>\<^verbatim>\<open>/armed:\s*(on|off)/i\<close>; the result tells whether the group, in lower case, is \<^verbatim>\<open>on\<close>.\<close>

definition matchArmed :: "string \<Rightarrow> (bool \<times> string) option" where
  "matchArmed s =
     (case litCI ''armed:'' s of
        None \<Rightarrow> None
      | Some r \<Rightarrow>
          (case litCI ''on'' (skipWs r) of
             Some a \<Rightarrow> Some (True, a)
           | None \<Rightarrow>
               (case litCI ''off'' (skipWs r) of
                  Some a \<Rightarrow> Some (False, a)
                | None \<Rightarrow> None)))"

text \<open>\<^verbatim>\<open>Name:\s*"([^"]+)"\s*Macro:\s*(C+)\<close> for a class \<^verbatim>\<open>C\<close> of macro characters.\<close>

definition matchNameMacro :: "(char \<Rightarrow> bool) \<Rightarrow> string \<Rightarrow> ((string \<times> string) \<times> string) option" where
  "matchNameMacro C s =
     (case lit ''Name:'' s of
        None \<Rightarrow> None
      | Some r \<Rightarrow>
          (case lit [CHR 0x22] (skipWs r) of
             None \<Rightarrow> None
           | Some r1 \<Rightarrow>
               (case many1 (\<lambda>c. c \<noteq> CHR 0x22) r1 of
                  None \<Rightarrow> None
                | Some (nm, r2) \<Rightarrow>
                    (case lit [CHR 0x22] r2 of
                       None \<Rightarrow> None
                     | Some r3 \<Rightarrow>
                         (case lit ''Macro:'' (skipWs r3) of
                            None \<Rightarrow> None
                          | Some r4 \<Rightarrow>
                              (case many1 C (skipWs r4) of
                                 None \<Rightarrow> None
                               | Some (mc, r5) \<Rightarrow> Some ((nm, mc), r5)))))))"

text \<open>\<^verbatim>\<open>/primary:\s*Name:\s*"([^"]+)"\s*Macro:\s*([^\s\]]+)/\<close>\<close>

definition matchPrimary :: "string \<Rightarrow> ((string \<times> string) \<times> string) option" where
  "matchPrimary s =
     (case lit ''primary:'' s of
        None \<Rightarrow> None
      | Some r \<Rightarrow> matchNameMacro (\<lambda>c. \<not> isSpace c \<and> c \<noteq> CHR '']'') (skipWs r))"

text \<open>\<^verbatim>\<open>/options:\s*\[([^\]]+)\]/\<close>\<close>

definition matchOptions :: "string \<Rightarrow> (string \<times> string) option" where
  "matchOptions s =
     (case lit ''options:'' s of
        None \<Rightarrow> None
      | Some r \<Rightarrow>
          (case lit ''['' (skipWs r) of
             None \<Rightarrow> None
           | Some r1 \<Rightarrow>
               (case many1 (\<lambda>c. c \<noteq> CHR '']'') r1 of
                  None \<Rightarrow> None
                | Some (body, r2) \<Rightarrow>
                    (case lit '']'' r2 of
                       None \<Rightarrow> None
                     | Some r3 \<Rightarrow> Some (body, r3)))))"

text \<open>
  \<^verbatim>\<open>/Name:\s*"([^"]+)"\s*Macro:\s*([^\s]+)/g\<close> over the body of the options. The source
  matches each found item once more against the same expression without the flag; the
  item starts with the match and its macro runs to the item's end, so the groups are
  those of the first pass.
\<close>

definition parseOptions :: "string \<Rightarrow> (string \<times> string) list" where
  "parseOptions body = allMatchesFrom (matchNameMacro (\<lambda>c. \<not> isSpace c)) 0 body"

text \<open>
  \<^verbatim>\<open>/position:\s*(?:center|\(\s*(\d+)\s*,\s*(\d+)\s*\))/i\<close>: the two digit groups, when
  the second alternative matched.
\<close>

definition matchPosition :: "string \<Rightarrow> ((string \<times> string) option \<times> string) option" where
  "matchPosition s =
     (case litCI ''position:'' s of
        None \<Rightarrow> None
      | Some r \<Rightarrow>
          (case litCI ''center'' (skipWs r) of
             Some a \<Rightarrow> Some (None, a)
           | None \<Rightarrow>
               (case lit ''('' (skipWs r) of
                  None \<Rightarrow> None
                | Some r1 \<Rightarrow>
                    (case many1 isDigit (skipWs r1) of
                       None \<Rightarrow> None
                     | Some (d1, r2) \<Rightarrow>
                         (case lit '','' (skipWs r2) of
                            None \<Rightarrow> None
                          | Some r3 \<Rightarrow>
                              (case many1 isDigit (skipWs r3) of
                                 None \<Rightarrow> None
                               | Some (d2, r4) \<Rightarrow>
                                   (case lit '')'' (skipWs r4) of
                                      None \<Rightarrow> None
                                    | Some r5 \<Rightarrow> Some (Some (d1, d2), r5))))))))"

text \<open>
  The position of the descriptor: \<^verbatim>\<open>posM[0].includes('center')\<close> looks, with the case
  of letters, in the whole matched text; otherwise both digit groups must be there.
\<close>

definition parsePosition :: "string \<Rightarrow> position option" where
  "parsePosition decoded =
     (case firstMatch matchPosition decoded of
        None \<Rightarrow> None
      | Some groups \<Rightarrow>
          (if (case matchedText matchPosition decoded of Some t \<Rightarrow> includes_str t ''center'' | None \<Rightarrow> False)
           then Some Center
           else (case groups of
                   Some (d1, d2) \<Rightarrow> Some (Cell (digitsValue d1) (digitsValue d2))
                 | None \<Rightarrow> None)))"

text \<open>\<^verbatim>\<open>/type:\s*(\w+)/i\<close>, \<^verbatim>\<open>/success:\s*(\w+)/\<close> and \<^verbatim>\<open>/failure:\s*(\w+)/\<close>\<close>

definition matchType :: "string \<Rightarrow> (string \<times> string) option" where
  "matchType s = (case litCI ''type:'' s of None \<Rightarrow> None | Some r \<Rightarrow> many1 isWord (skipWs r))"

definition matchSuccess :: "string \<Rightarrow> (string \<times> string) option" where
  "matchSuccess s = (case lit ''success:'' s of None \<Rightarrow> None | Some r \<Rightarrow> many1 isWord (skipWs r))"

definition matchFailure :: "string \<Rightarrow> (string \<times> string) option" where
  "matchFailure s = (case lit ''failure:'' s of None \<Rightarrow> None | Some r \<Rightarrow> many1 isWord (skipWs r))"

text \<open>\<^verbatim>\<open>/checks:\s*"([^"]+)"/\<close>\<close>

definition matchChecks :: "string \<Rightarrow> (string \<times> string) option" where
  "matchChecks s =
     (case lit ''checks:'' s of
        None \<Rightarrow> None
      | Some r \<Rightarrow>
          (case lit [CHR 0x22] (skipWs r) of
             None \<Rightarrow> None
           | Some r1 \<Rightarrow>
               (case many1 (\<lambda>c. c \<noteq> CHR 0x22) r1 of
                  None \<Rightarrow> None
                | Some (body, r2) \<Rightarrow>
                    (case lit [CHR 0x22] r2 of
                       None \<Rightarrow> None
                     | Some r3 \<Rightarrow> Some (body, r3)))))"

text \<open>
  One entry of the list of checks: \<^verbatim>\<open>let [skill, dc] = ch.split(':').map(s => s.trim())\<close>,
  kept when both are non-empty strings.
\<close>

definition parseCheck :: "string \<Rightarrow> check option" where
  "parseCheck ch =
     (case map trim (splitOn CHR '':'' ch) of
        skill # dc # _ \<Rightarrow>
          (if skill \<noteq> [] \<and> dc \<noteq> []
           then Some \<lparr>ck_type = skill, ck_dc = (case parseInt dc of Some n \<Rightarrow> Num n | None \<Rightarrow> NaN)\<rparr>
           else None)
      | _ \<Rightarrow> None)"

definition parseChecks :: "string \<Rightarrow> check list" where
  "parseChecks body = List.map_filter parseCheck (splitOn CHR '','' (trim body))"

text \<open>
  \<^verbatim>\<open>parseTrapNotes\<close>, the part that reads the text: \<open>None\<close> is \<^verbatim>\<open>null\<close> (empty notes,
  or no trap marker). The aura it sets on a token handed to it is \<open>auraFor\<close> below.
\<close>

definition parseTrapNotes :: "string \<Rightarrow> trapData option" where
  "parseTrapNotes notes =
     (if notes = [] then None
      else (let decoded = unescapeEntities (tryDecode notes)
            in if \<not> includes_str decoded ''!traptrigger'' then None
               else Some
                 \<lparr>currentUses = (case firstMatch matchUses decoded of
                                   Some (d1, d2) \<Rightarrow> int (digitsValue d1) | None \<Rightarrow> 0),
                  maxUses = (case firstMatch matchUses decoded of
                               Some (d1, d2) \<Rightarrow> int (digitsValue d2) | None \<Rightarrow> 0),
                  isArmed = (case firstMatch matchArmed decoded of Some a \<Rightarrow> a | None \<Rightarrow> True),
                  primary = (case firstMatch matchPrimary decoded of
                               Some (nm, mc) \<Rightarrow> (nm, mc) | None \<Rightarrow> (''Primary'', [])),
                  options = (case firstMatch matchOptions decoded of
                               Some body \<Rightarrow> parseOptions body | None \<Rightarrow> []),
                  position = parsePosition decoded,
                  trapType = (case firstMatch matchType decoded of
                                Some t \<Rightarrow> toLowerCase t | None \<Rightarrow> ''standard''),
                  checks = (case firstMatch matchChecks decoded of
                              Some body \<Rightarrow> parseChecks body | None \<Rightarrow> []),
                  success = firstMatch matchSuccess decoded,
                  failure = firstMatch matchFailure decoded,
                  movementTriggerEnabled = (\<not> includes_str decoded ''{noMovementTrigger}'')\<rparr>))"

text \<open>The aura colour for an armed flag and a use count, as the source computes it in several places.\<close>

definition auraFor :: "bool \<Rightarrow> bool \<Rightarrow> int \<Rightarrow> aura" where
  "auraFor enabled armed uses =
     (if armed \<and> 0 < uses then (if enabled then ARMED else PAUSED) else DISARMED)"

text \<open>\<^verbatim>\<open>parseTrapNotes(token.get("gmnotes"), token)\<close>: the token with its aura synchronised.\<close>

definition syncAura :: "bool \<Rightarrow> token \<Rightarrow> token" where
  "syncAura enabled tk =
     (case parseTrapNotes (gmnotes tk) of
        None \<Rightarrow> tk
      | Some d \<Rightarrow> tk\<lparr>aura1_color := Some (auraFor enabled (isArmed d) (currentUses d))\<rparr>)"

subsection \<open>Writing uses and armed state back\<close>

text \<open>\<^verbatim>\<open>updated.replace(/\}$/, ...)\<close>: only a closing brace at the very end of the text matches.\<close>

definition replaceFinalBrace :: "string \<Rightarrow> string \<Rightarrow> string" where
  "replaceFinalBrace new s =
     (if s \<noteq> [] \<and> last s = CHR ''}'' then butlast s @ new else s)"

text \<open>\<^verbatim>\<open>const armedState = newArmed ? 'on' : 'off'\<close>\<close>

definition armedState :: "bool \<Rightarrow> string" where
  "armedState a = (if a then ''on'' else ''off'')"

text \<open>The text \<^verbatim>\<open>updateTrapUses\<close> stores: \<open>newArmed = None\<close> is the default \<^verbatim>\<open>null\<close>.\<close>

definition updatedNotes :: "string \<Rightarrow> int \<Rightarrow> int \<Rightarrow> bool option \<Rightarrow> string" where
  "updatedNotes notes current mx newArmed =
     (let decodedNotes = tryDecode notes;
          updated = replaceFirst matchUses (''uses: '' @ showInt current @ ''/'' @ showInt mx) decodedNotes
      in case newArmed of
           None \<Rightarrow> updated
         | Some a \<Rightarrow>
             (if includes_str updated ''armed:''
              then replaceFirst matchArmed (''armed: '' @ armedState a) updated
              else replaceFinalBrace ('' armed: '' @ armedState a @ ''}'') updated))"

text \<open>
  \<^verbatim>\<open>updateTrapUses\<close> on a token: empty notes leave it as it is; otherwise the notes,
  the bar and the aura are written.
\<close>

definition updateTrapUses :: "bool \<Rightarrow> token \<Rightarrow> int \<Rightarrow> int \<Rightarrow> bool option \<Rightarrow> token" where
  "updateTrapUses enabled tk current mx newArmed =
     (if gmnotes tk = [] then tk
      else (let updated = updatedNotes (gmnotes tk) current mx newArmed;
                armed = (case newArmed of Some a \<Rightarrow> a | None \<Rightarrow> includes_str updated ''armed: on'')
            in tk\<lparr>gmnotes := updated,
                  bar1_value := Some current,
                  bar1_max := Some mx,
                  aura1_color := Some (auraFor enabled armed current)\<rparr>))"

subsection \<open>The descriptors the script writes\<close>

text \<open>
  Both \<^verbatim>\<open>setupTrap\<close> and \<^verbatim>\<open>setupInteractionTrap\<close> start the descriptor with the
  marker, the uses and the armed flag; \<^verbatim>\<open>updateTrapUses\<close> writes the two fields in
  the same form. \<open>descriptorHead c m a\<close> is that head for uses \<open>c/m\<close> and armed flag \<open>a\<close>.
\<close>

definition descriptorHead :: "int \<Rightarrow> int \<Rightarrow> bool \<Rightarrow> string" where
  "descriptorHead c m a =
     ''{!traptrigger uses: '' @ showInt c @ ''/'' @ showInt m @ '' armed: '' @ armedState a"

text \<open>
  In the descriptors the script writes, the head is followed by a space and the next
  field, or by the closing brace.
\<close>

definition plainRest :: "string \<Rightarrow> bool" where
  "plainRest r = (case r of [] \<Rightarrow> True | c # _ \<Rightarrow> c = CHR '' '' \<or> c = CHR ''}'')"


text \<open>
  The text \<^verbatim>\<open>setupTrap\<close> builds (\<^verbatim>\<open>trapConfig\<close>) for a use count, a main macro, two
  optional macros and a movement mode; an absent argument is the empty string.
\<close>

definition given :: "string \<Rightarrow> bool" where
  "given m = (m \<noteq> [] \<and> m \<noteq> ''None'')"

definition nameMacro :: "string \<Rightarrow> string" where
  "nameMacro m = ''Name: '' @ [CHR 0x22] @ m @ [CHR 0x22] @ '' Macro: '' @ m"

definition setupTrapConfig :: "int \<Rightarrow> string \<Rightarrow> string \<Rightarrow> string \<Rightarrow> string \<Rightarrow> string" where
  "setupTrapConfig mx mainMacro optionalMacro2 optionalMacro3 movement =
     ''{!traptrigger uses: '' @ showInt mx @ ''/'' @ showInt mx @ '' armed: on''
     @ '' primary: '' @ nameMacro mainMacro
     @ (if given optionalMacro2 \<or> given optionalMacro3
        then '' options: [''
             @ (if given optionalMacro2 then nameMacro optionalMacro2 else [])
             @ (if given optionalMacro3
                then (if given optionalMacro2 then '' '' else []) @ nameMacro optionalMacro3
                else [])
             @ '']''
        else [])
     @ (if given movement
        then (if movement = ''Center'' then '' position: center''
              else if movement = ''Grid'' then '' position: (0,0)'' else [])
        else [])
     @ ''}''"

text \<open>The text \<^verbatim>\<open>setupInteractionTrap\<close> builds, from the joined checks (empty when there is none).\<close>

definition setupInteractionConfig :: "int \<Rightarrow> string \<Rightarrow> string \<Rightarrow> string list \<Rightarrow> bool \<Rightarrow> string" where
  "setupInteractionConfig mx successMacro failureMacro checksConfig movementTrigger =
     ''{!traptrigger uses: '' @ showInt mx @ ''/'' @ showInt mx @ '' armed: on type: interaction''
     @ '' primary: Name:'' @ [CHR 0x22] @ failureMacro @ [CHR 0x22] @ '' Macro: '' @ failureMacro
     @ '' success: '' @ successMacro
     @ '' failure: '' @ failureMacro
     @ (if checksConfig \<noteq> []
        then '' checks: '' @ [CHR 0x22] @ foldr (\<lambda>c acc. if acc = [] then c else c @ '','' @ acc) checksConfig [] @ [CHR 0x22]
        else [])
     @ (if \<not> movementTrigger then '' {noMovementTrigger}'' else [])
     @ ''}''"

section \<open>Trap system: state and trap control\<close>

subsection \<open>State\<close>

text \<open>
  \<^verbatim>\<open>TrapSystem.state\<close> together with the host's objects the script reads and writes.
  Tokens and macros are found by id or name (\<^verbatim>\<open>getObj\<close>, \<^verbatim>\<open>findObjs\<close>); the
  characters are the list \<^verbatim>\<open>findObjs({_type: "character"})\<close> returns, each with its id.
  \<open>gmPlayers\<close> holds the players for whom \<^verbatim>\<open>playerIsGM\<close> is true. Pending checks
  are objects shared between the two indexes, so the indexes hold references into
  \<open>checkObjects\<close>. What the script sends to the chat is appended to \<open>chatLog\<close>, one
  constructor for each kind of message; what it writes to the console log is not kept.
  \<open>timers\<close> are the callbacks scheduled with \<^verbatim>\<open>setTimeout\<close> that have not run yet.
\<close>

record lockData =
  locked :: bool
  trapToken :: string
  macroTriggered :: bool
  trapData :: trapData

datatype checkIndex = Index nat | Custom

text \<open>
  A pending check: the fields \<^verbatim>\<open>token\<close> (by id), \<^verbatim>\<open>checkIndex\<close>, \<^verbatim>\<open>config\<close>,
  \<^verbatim>\<open>advantage\<close>, \<^verbatim>\<open>firstRoll\<close>, \<^verbatim>\<open>playerid\<close>, \<^verbatim>\<open>characterId\<close> and
  \<^verbatim>\<open>characterName\<close>; \<open>None\<close> is \<^verbatim>\<open>null\<close> or a field the object does not have.
\<close>

record pendingCheck =
  pc_token :: "string option"
  pc_checkIndex :: "checkIndex option"
  pc_config :: "trapData option"
  pc_advantage :: "string option"
  pc_firstRoll :: num
  pc_playerid :: "string option"
  pc_characterId :: "string option"
  pc_characterName :: "string option"

record character =
  controlledby :: string
  characterName :: string

record roll =
  total :: num
  firstRoll :: num
  secondRoll :: num
  isAdvantageRoll :: bool
  rollType :: "string option"
  characterid :: "string option"
  rolledSkillName :: "string option"

record timer =
  tm_token :: string
  tm_left :: real
  tm_top :: real

datatype mismatchReason = ExpectedFlat | ExpectedSkill | DifferentSkill

datatype chatMsg =
    CannotBeTriggered
  | CannotBeTriggeredError
  | ControlPanel string string trapData
  | DepletedNotice
  | MovementAllowedNotice
  | RestoredUseNotice
  | InvalidConfigNotice
  | ToggleNotice bool
  | StatusPanel string trapData
  | InteractionMenu string trapData bool
  | MacroCommand string
  | MacroFailedNotice
  | TrapNotFoundNotice
  | MismatchPrompt string string string string mismatchReason num string bool
  | CriticalMismatchNotice string string
  | WaitingForSecondRoll string num string
  | CheckResult string "num list" num "num option" bool
  | RollPrompt string string string "num option"
  | AcceptNotice
  | MismatchUnresolvedNotice

record state =
  lockedTokens :: "string \<rightharpoonup> lockData"
  safeMoveTokens :: "string set"
  triggersEnabled :: bool
  pendingChecks :: "string \<rightharpoonup> nat"
  pendingChecksByChar :: "string \<rightharpoonup> nat"
  displayDCForCheck :: "string \<rightharpoonup> bool"
  checkObjects :: "nat \<rightharpoonup> pendingCheck"
  nextObject :: nat
  graphics :: "string \<rightharpoonup> token"
  hostPages :: "string \<rightharpoonup> page"
  characters :: "(string \<times> character) list"
  gmPlayers :: "string set"
  macros :: "string \<rightharpoonup> string"
  chatLog :: "chatMsg list"
  timers :: "timer list"

definition say :: "chatMsg \<Rightarrow> state \<Rightarrow> state" where
  "say msg st = st\<lparr>chatLog := chatLog st @ [msg]\<rparr>"

text \<open>A change of one token of the host, when it exists.\<close>

definition onToken :: "string \<Rightarrow> (token \<Rightarrow> token) \<Rightarrow> state \<Rightarrow> state" where
  "onToken tokenId f st =
     (case graphics st tokenId of
        None \<Rightarrow> st
      | Some tk \<Rightarrow> st\<lparr>graphics := (graphics st)(tokenId \<mapsto> f tk)\<rparr>)"

subsection \<open>Macros\<close>

text \<open>
  \<^verbatim>\<open>executeMacro\<close>: the non-blank lines of the macro's action go to the chat, trimmed;
  the result tells whether the macro was found and had an action.
\<close>

definition executeMacro :: "string \<Rightarrow> state \<Rightarrow> bool \<times> state" where
  "executeMacro macroName st =
     (case macros st macroName of
        None \<Rightarrow> (False, st)
      | Some action \<Rightarrow>
          (if action = [] then (False, st)
           else (True, foldl (\<lambda>s cmd. say (MacroCommand (trim cmd)) s) st
                         (filter (\<lambda>l. trim l \<noteq> []) (splitOn CHR 0x0A action)))))"

subsection \<open>Lock marks in the notes of a held token\<close>

text \<open>\<^verbatim>\<open>/\{!traplocked[^}]*\}/\<close>\<close>

definition matchTrapLocked :: "string \<Rightarrow> (unit \<times> string) option" where
  "matchTrapLocked s =
     (case lit ''{!traplocked'' s of
        None \<Rightarrow> None
      | Some r \<Rightarrow> (case lit ''}'' (dropWhile (\<lambda>c. c \<noteq> CHR ''}'') r) of None \<Rightarrow> None | Some a \<Rightarrow> Some ((), a)))"

definition lockedNotes :: "string \<Rightarrow> string \<Rightarrow> bool \<Rightarrow> string" where
  "lockedNotes notes trapId lk =
     (let dec = tryDecode notes
      in if lk then
           (if includes_str dec ''!traplocked''
            then replaceFirst matchTrapLocked (''{!traplocked trap: '' @ trapId @ ''}'') dec
            else dec @ ''{!traplocked trap: '' @ trapId @ ''}'')
         else replaceFirst matchTrapLocked [] dec)"

definition updateTokenLockState :: "string \<Rightarrow> string \<Rightarrow> bool \<Rightarrow> state \<Rightarrow> state" where
  "updateTokenLockState tokenId trapId lk st =
     onToken tokenId (\<lambda>tk. tk\<lparr>gmnotes := lockedNotes (gmnotes tk) trapId lk\<rparr>) st"

subsection \<open>Reading and writing a trap token\<close>

text \<open>
  \<^verbatim>\<open>parseTrapNotes(token.get("gmnotes"), token)\<close> on a token of the host: the parsed
  descriptor, and the state with the token's aura synchronised.
\<close>

definition parseToken :: "string \<Rightarrow> state \<Rightarrow> trapData option \<times> state" where
  "parseToken tokenId st =
     (case graphics st tokenId of
        None \<Rightarrow> (None, st)
      | Some tk \<Rightarrow> (parseTrapNotes (gmnotes tk), onToken tokenId (syncAura (triggersEnabled st)) st))"

definition updateTrapUsesOn :: "string \<Rightarrow> int \<Rightarrow> int \<Rightarrow> bool option \<Rightarrow> state \<Rightarrow> state" where
  "updateTrapUsesOn tokenId current mx newArmed st =
     onToken tokenId (\<lambda>tk. updateTrapUses (triggersEnabled st) tk current mx newArmed) st"

definition setAura :: "string \<Rightarrow> aura \<Rightarrow> state \<Rightarrow> state" where
  "setAura tokenId col st = onToken tokenId (\<lambda>tk. tk\<lparr>aura1_color := Some col\<rparr>) st"

subsection \<open>Trigger, release and toggle\<close>

text \<open>\<^verbatim>\<open>handleTrapTrigger\<close>, for a triggered token and a trap token of the host.\<close>

definition handleTrapTrigger :: "string \<Rightarrow> string \<Rightarrow> state \<Rightarrow> state" where
  "handleTrapTrigger triggeredId trapId st =
     (case parseToken trapId st of
        (None, s1) \<Rightarrow> say CannotBeTriggered s1
      | (Some d, s1) \<Rightarrow>
          (if \<not> isArmed d \<or> currentUses d \<le> 0 then say CannotBeTriggered s1
           else (let s2 = s1\<lparr>lockedTokens := (lockedTokens s1)(triggeredId \<mapsto>
                               \<lparr>locked = True, trapToken = trapId, macroTriggered = False, trapData = d\<rparr>)\<rparr>;
                     s3 = updateTokenLockState triggeredId trapId True s2
                 in say (ControlPanel triggeredId trapId d) s3)))"

text \<open>\<^verbatim>\<open>markTriggered\<close>\<close>

definition markTriggered :: "string \<Rightarrow> state \<Rightarrow> state" where
  "markTriggered tokenId st =
     (case lockedTokens st tokenId of
        None \<Rightarrow> st
      | Some ld \<Rightarrow> st\<lparr>lockedTokens := (lockedTokens st)(tokenId \<mapsto> ld\<lparr>macroTriggered := True\<rparr>)\<rparr>)"

text \<open>\<^verbatim>\<open>allowMovement\<close>\<close>

definition allowMovement :: "string \<Rightarrow> state \<Rightarrow> state" where
  "allowMovement tokenId st =
     (case lockedTokens st tokenId of
        None \<Rightarrow> st
      | Some lockData \<Rightarrow>
          (let trapId = trapToken lockData;
               s1 = (if graphics st tokenId \<noteq> None \<and> graphics st trapId \<noteq> None
                     then (let s2 = updateTokenLockState tokenId trapId False st
                           in if macroTriggered lockData
                              then (let newUses = currentUses (trapData lockData) - 1;
                                        s3 = updateTrapUsesOn trapId newUses (maxUses (trapData lockData)) None s2
                                    in if newUses \<le> 0
                                       then say DepletedNotice
                                              (setAura trapId DISARMED
                                                (updateTrapUsesOn trapId 0 (maxUses (trapData lockData)) (Some False) s3))
                                       else s3)
                              else s2)
                     else st)
           in say MovementAllowedNotice
                (s1\<lparr>lockedTokens := (lockedTokens s1)(tokenId := None),
                    safeMoveTokens := insert tokenId (safeMoveTokens s1)\<rparr>)))"

text \<open>\<^verbatim>\<open>getTrapStatus\<close> and \<^verbatim>\<open>showInteractionMenu\<close>: a message to the chat; the first also synchronises the aura.\<close>

definition getTrapStatus :: "string \<Rightarrow> state \<Rightarrow> state" where
  "getTrapStatus tokenId st =
     (case parseToken tokenId st of
        (None, s1) \<Rightarrow> say InvalidConfigNotice s1
      | (Some d, s1) \<Rightarrow> say (StatusPanel tokenId d) s1)"

definition showInteractionMenu :: "string \<Rightarrow> state \<Rightarrow> state" where
  "showInteractionMenu tokenId st =
     (case graphics st tokenId of
        None \<Rightarrow> st
      | Some tk \<Rightarrow>
          (case parseTrapNotes (gmnotes tk) of
             None \<Rightarrow> st
           | Some d \<Rightarrow> say (InteractionMenu tokenId d (triggersEnabled st)) st))"

text \<open>\<^verbatim>\<open>toggleTrap\<close>, for a token of the host.\<close>

definition toggleTrap :: "string \<Rightarrow> state \<Rightarrow> state" where
  "toggleTrap tokenId st =
     (case parseToken tokenId st of
        (None, s1) \<Rightarrow> say InvalidConfigNotice s1
      | (Some d, s1) \<Rightarrow>
          (let newArmedState = \<not> isArmed d;
               restore = (newArmedState \<and> currentUses d \<le> 0);
               newUses = (if restore then 1 else currentUses d);
               s2 = (if restore then say RestoredUseNotice s1 else s1);
               s3 = updateTrapUsesOn tokenId newUses (maxUses d) (Some newArmedState) s2;
               s4 = setAura tokenId (auraFor (triggersEnabled s3) newArmedState newUses) s3;
               s5 = say (ToggleNotice newArmedState) s4
           in if trapType d = ''interaction'' then showInteractionMenu tokenId s5
              else getTrapStatus tokenId s5))"

text \<open>\<^verbatim>\<open>manualMacroTrigger\<close>\<close>

definition manualMacroTrigger :: "string \<Rightarrow> string \<Rightarrow> state \<Rightarrow> state" where
  "manualMacroTrigger trapId macroName st =
     (if graphics st trapId = None then say TrapNotFoundNotice st
      else (case parseToken trapId st of
              (None, s1) \<Rightarrow> say CannotBeTriggeredError s1
            | (Some d, s1) \<Rightarrow>
                (if \<not> isArmed d \<or> currentUses d \<le> 0 then say CannotBeTriggeredError s1
                 else (case executeMacro macroName s1 of
                         (False, s2) \<Rightarrow> say MacroFailedNotice s2
                       | (True, s2) \<Rightarrow>
                           (let newUses = currentUses d - 1;
                                s3 = updateTrapUsesOn trapId newUses (maxUses d) None s2
                            in if newUses \<le> 0
                               then setAura trapId DISARMED (say DepletedNotice s3)
                               else s3)))))"

text \<open>
  The decrement of \<^verbatim>\<open>executeTrapTrigger\<close>: \<^verbatim>\<open>newUses = Math.max(0, currentUses - 1)\<close>,
  written with the armed flag off at zero and on above.
\<close>

definition decrementUses :: "string \<Rightarrow> trapData \<Rightarrow> state \<Rightarrow> state" where
  "decrementUses trapId d st =
     (let newUses = max 0 (currentUses d - 1)
      in if newUses \<le> 0
         then say DepletedNotice (updateTrapUsesOn trapId 0 (maxUses d) (Some False) st)
         else updateTrapUsesOn trapId newUses (maxUses d) (Some True) st)"

text \<open>\<^verbatim>\<open>executeTrapTrigger\<close>\<close>

definition executeTrapTrigger :: "string \<Rightarrow> string \<Rightarrow> state \<Rightarrow> state" where
  "executeTrapTrigger tokenId trapId st =
     (if graphics st tokenId = None \<or> graphics st trapId = None then st
      else (case parseToken trapId st of
              (None, s1) \<Rightarrow> say CannotBeTriggeredError s1
            | (Some d, s1) \<Rightarrow>
                (if \<not> isArmed d \<or> currentUses d \<le> 0 then say CannotBeTriggeredError s1
                 else (let s2 = (if trapType d = ''interaction''
                                 then (case failure d of
                                         Some f \<Rightarrow> snd (executeMacro f s1)
                                       | None \<Rightarrow> s1)
                                 else (if snd (primary d) \<noteq> [] then snd (executeMacro (snd (primary d)) s1) else s1));
                           newUses = max 0 (currentUses d - 1);
                           s3 = decrementUses trapId d s2;
                           s4 = setAura trapId (if 0 < newUses then (if triggersEnabled s3 then ARMED else PAUSED) else DISARMED) s3
                       in markTriggered tokenId s4))))"

subsection \<open>The delayed second phase of a relocation\<close>

text \<open>
  The lines both trigger branches of \<^verbatim>\<open>checkTrapTrigger\<close> share, for the pair of
  positions \<^verbatim>\<open>calculateTrapPosition\<close> resolved: the moved token is set to the contact
  point, a callback that sets it to the resting point is scheduled, and the trap is
  triggered.
\<close>

definition triggerAt :: "string \<Rightarrow> string \<Rightarrow> point \<Rightarrow> point \<Rightarrow> state \<Rightarrow> state" where
  "triggerAt movedId trapId initial final st =
     (let s1 = onToken movedId (\<lambda>tk. tk\<lparr>tleft := p_x initial, ttop := p_y initial\<rparr>) st;
          s2 = s1\<lparr>timers := timers s1 @ [\<lparr>tm_token = movedId, tm_left = p_x final, tm_top = p_y final\<rparr>]\<rparr>
      in handleTrapTrigger movedId trapId s2)"

text \<open>The callback: \<^verbatim>\<open>movedToken.set({ left: pos.final.x, top: pos.final.y })\<close>.\<close>

definition runTimer :: "timer \<Rightarrow> state \<Rightarrow> state" where
  "runTimer tm st = onToken (tm_token tm) (\<lambda>tk. tk\<lparr>tleft := tm_left tm, ttop := tm_top tm\<rparr>) st"

text \<open>The host runs the oldest callback whose delay has passed.\<close>

definition fireTimer :: "state \<Rightarrow> state" where
  "fireTimer st = (case timers st of [] \<Rightarrow> st | tm # rest \<Rightarrow> runTimer tm (st\<lparr>timers := rest\<rparr>))"

text \<open>Where a token of the host stands.\<close>

definition placeOf :: "state \<Rightarrow> string \<Rightarrow> (real \<times> real) option" where
  "placeOf st tokenId = map_option (\<lambda>tk. (tleft tk, ttop tk)) (graphics st tokenId)"

section \<open>Trap system: resolution of skill checks\<close>

subsection \<open>Finding the pending check of a roll\<close>

text \<open>A value is truthy when it is a non-empty string; the key of an absent value is \<^verbatim>\<open>undefined\<close>.\<close>

definition truthy :: "string option \<Rightarrow> bool" where
  "truthy v = (case v of None \<Rightarrow> False | Some s \<Rightarrow> s \<noteq> [])"

definition keyOf :: "string option \<Rightarrow> string" where
  "keyOf v = (case v of None \<Rightarrow> ''undefined'' | Some s \<Rightarrow> s)"

text \<open>The pending check an index holds under a key, with its reference.\<close>

definition lookupCheck :: "state \<Rightarrow> (string \<rightharpoonup> nat) \<Rightarrow> string \<Rightarrow> (nat \<times> pendingCheck) option" where
  "lookupCheck st index key =
     (case index key of
        None \<Rightarrow> None
      | Some ref \<Rightarrow> (case checkObjects st ref of None \<Rightarrow> None | Some pc \<Rightarrow> Some (ref, pc)))"

text \<open>\<^verbatim>\<open>(character.get("controlledby") || "").split(",")\<close>\<close>

definition controllers :: "character \<Rightarrow> string list" where
  "controllers ch = splitOn CHR '','' (controlledby ch)"

text \<open>\<^verbatim>\<open>playerIsGM\<close> of a player id that may be \<^verbatim>\<open>undefined\<close>.\<close>

definition playerIsGM :: "state \<Rightarrow> string option \<Rightarrow> bool" where
  "playerIsGM st pid = (case pid of None \<Rightarrow> False | Some p \<Rightarrow> p \<in> gmPlayers st)"

text \<open>
  The authorisation of the first strategy: the character exists, and the roller is the
  GM, one of its controllers, or the player of the pending check.
\<close>

definition authorized :: "state \<Rightarrow> string option \<Rightarrow> string \<Rightarrow> pendingCheck \<Rightarrow> bool" where
  "authorized st roller cid pc =
     (case map_of (characters st) cid of
        None \<Rightarrow> False
      | Some ch \<Rightarrow>
          playerIsGM st roller \<or> (case roller of None \<Rightarrow> False | Some p \<Rightarrow> p \<in> set (controllers ch))
          \<or> roller = pc_playerid pc)"

text \<open>
  The second strategy: the characters the roller controls that a player other than the
  GM controls, and among them those whose pending check is for that character.
\<close>

definition charsControlledByRoller :: "state \<Rightarrow> string option \<Rightarrow> (string \<times> character) list" where
  "charsControlledByRoller st roller =
     filter (\<lambda>(cid, ch).
               (case roller of None \<Rightarrow> False | Some p \<Rightarrow> p \<in> set (controllers ch)) \<and>
               list_ex (\<lambda>pId. pId \<noteq> [] \<and> trim pId \<noteq> [] \<and> pId \<notin> gmPlayers st) (controllers ch))
            (characters st)"

definition potentialChecks :: "state \<Rightarrow> string option \<Rightarrow> (nat \<times> pendingCheck) list" where
  "potentialChecks st roller =
     List.map_filter
       (\<lambda>(cid, ch).
          (case lookupCheck st (pendingChecksByChar st) cid of
             None \<Rightarrow> None
           | Some (ref, pc) \<Rightarrow> (if pc_characterId pc = Some cid then Some (ref, pc) else None)))
       (charsControlledByRoller st roller)"

text \<open>
  The three strategies of \<^verbatim>\<open>handleRollResult\<close>: the pending check found, if any, and
  the roll with the character id the source writes into it.
\<close>

definition findPendingCheck :: "state \<Rightarrow> roll \<Rightarrow> string option \<Rightarrow> (nat \<times> pendingCheck) option \<times> roll" where
  "findPendingCheck st roll0 roller =
     (let first =
            (if truthy (characterid roll0)
             then (case lookupCheck st (pendingChecksByChar st) (keyOf (characterid roll0)) of
                     None \<Rightarrow> None
                   | Some (ref, pc) \<Rightarrow>
                       (if authorized st roller (keyOf (characterid roll0)) pc then Some (ref, pc) else None))
             else None);
          second =
            (if first = None \<and> \<not> truthy (characterid roll0)
             then (case potentialChecks st roller of
                     [(ref, pc)] \<Rightarrow> (Some (ref, pc), roll0\<lparr>characterid := pc_characterId pc\<rparr>)
                   | _ \<Rightarrow> (None, roll0))
             else (first, roll0))
      in case second of
           (Some found, roll1) \<Rightarrow> (Some found, roll1)
         | (None, roll1) \<Rightarrow>
             (case lookupCheck st (pendingChecks st) (keyOf roller) of
                None \<Rightarrow> (None, roll1)
              | Some (ref, pc) \<Rightarrow>
                  (Some (ref, pc),
                   if truthy (pc_characterId pc) \<and> \<not> truthy (characterid roll1)
                   then roll1\<lparr>characterid := pc_characterId pc\<rparr> else roll1)))"

subsection \<open>Skill labels\<close>

text \<open>
  \<^verbatim>\<open>normalizeType\<close>: lower case, then \<^verbatim>\<open>replace(/\s*(check|save)$/i, '')\<close>, which
  removes a final \<^verbatim>\<open>check\<close> or \<^verbatim>\<open>save\<close> with the white space before it, then trim.
\<close>

definition stripCheckSave :: "string \<Rightarrow> string" where
  "stripCheckSave s =
     (if suffix ''check'' s then rev (dropWhile isSpace (drop 5 (rev s)))
      else if suffix ''save'' s then rev (dropWhile isSpace (drop 4 (rev s)))
      else s)"

definition normalizeType :: "string option \<Rightarrow> string" where
  "normalizeType str = trim (stripCheckSave (toLowerCase (case str of None \<Rightarrow> [] | Some t \<Rightarrow> t)))"

text \<open>The comparison of the expected skill with the rolled label: the kind of mismatch, if any.\<close>

definition mismatchOf :: "string \<Rightarrow> string option \<Rightarrow> mismatchReason option" where
  "mismatchOf expectedTypeRaw rolled =
     (let expectedType = normalizeType (Some expectedTypeRaw);
          rolledType = normalizeType rolled;
          isFlatRoll = (\<not> truthy rolled);
          expectsFlatRoll = (expectedType = ''flat roll'')
      in if expectsFlatRoll \<and> isFlatRoll then None
         else if expectsFlatRoll \<and> \<not> isFlatRoll then Some ExpectedFlat
         else if \<not> expectsFlatRoll \<and> isFlatRoll then Some ExpectedSkill
         else if expectedType \<noteq> rolledType then Some DifferentSkill
         else None)"

subsection \<open>Resolution\<close>

text \<open>The decrement of \<^verbatim>\<open>handleRollResult\<close>, which also sets the aura at zero.\<close>

definition resolveUses :: "string \<Rightarrow> trapData \<Rightarrow> state \<Rightarrow> state" where
  "resolveUses tokenId config st =
     (let newUses = max 0 (currentUses config - 1)
      in if newUses \<le> 0
         then say DepletedNotice
                (setAura tokenId DISARMED (updateTrapUsesOn tokenId 0 (maxUses config) (Some False) st))
         else updateTrapUsesOn tokenId newUses (maxUses config) (Some True) st)"

text \<open>The removal of a resolved check from both indexes, and of the roller's flag to show the DC.\<close>

definition cleanup :: "nat \<Rightarrow> pendingCheck \<Rightarrow> string option \<Rightarrow> state \<Rightarrow> state" where
  "cleanup ref pc roller st =
     st\<lparr>pendingChecksByChar :=
          (if truthy (pc_characterId pc)
           then (pendingChecksByChar st)(keyOf (pc_characterId pc) := None)
           else pendingChecksByChar st),
        pendingChecks :=
          (if pendingChecks st (keyOf (pc_playerid pc)) = Some ref
           then (pendingChecks st)(keyOf (pc_playerid pc) := None)
           else pendingChecks st),
        displayDCForCheck := (displayDCForCheck st)(keyOf roller \<mapsto> False)\<rparr>"

text \<open>
  The end of a resolution: the result goes to the chat, the success or failure macro
  runs, the uses are decremented and the check is removed.
\<close>

definition finishCheck :: "num list \<Rightarrow> num \<Rightarrow> nat \<Rightarrow> pendingCheck \<Rightarrow> string \<Rightarrow> trapData \<Rightarrow> check \<Rightarrow> string option \<Rightarrow> state \<Rightarrow> state" where
  "finishCheck rolls finalTotal ref pc tokenId config ck roller st =
     (let succeeded = geq finalTotal (ck_dc ck);
          s1 = say (CheckResult (case pc_characterName pc of None \<Rightarrow> ''Player'' | Some n \<Rightarrow> if n = [] then ''Player'' else n)
                      rolls finalTotal
                      (if displayDCForCheck st (keyOf roller) = Some True then Some (ck_dc ck) else None)
                      succeeded) st;
          s2 = (if succeeded
                then (case success config of Some m \<Rightarrow> snd (executeMacro m s1) | None \<Rightarrow> s1)
                else (case failure config of Some m \<Rightarrow> snd (executeMacro m s1) | None \<Rightarrow> s1));
          s3 = resolveUses tokenId config s2
      in cleanup ref pc roller s3)"

text \<open>
  \<^verbatim>\<open>handleRollResult\<close>. A pending check without a token, a configuration or a first
  check makes the source throw inside its \<^verbatim>\<open>try\<close>, and so does one without the field
  \<^verbatim>\<open>advantage\<close> when the result of a manual roll is written
  (\<^verbatim>\<open>advantage.charAt(0)\<close>); nothing has been changed by then.
\<close>

definition handleRollResult :: "roll \<Rightarrow> string option \<Rightarrow> state \<Rightarrow> state" where
  "handleRollResult roll0 roller st =
     (case findPendingCheck st roll0 roller of
        (None, roll1) \<Rightarrow> st
      | (Some (ref, pc), roll1) \<Rightarrow>
          (case (pc_token pc, pc_config pc) of
             (Some tokenId, Some config) \<Rightarrow>
               (case checks config of
                  [] \<Rightarrow> st
                | ck # _ \<Rightarrow>
                    (case mismatchOf (ck_type ck) (rolledSkillName roll1) of
                       Some reason \<Rightarrow>
                         say (MismatchPrompt
                                (if truthy (pc_characterId pc) then keyOf (pc_characterId pc) else keyOf (pc_playerid pc))
                                tokenId (ck_type ck)
                                (if truthy (rolledSkillName roll1) then keyOf (rolledSkillName roll1) else ''Flat Roll'')
                                reason (total roll1)
                                (if truthy (rollType roll1) then keyOf (rollType roll1) else ''normal'')
                                (isAdvantageRoll roll1)) st
                     | None \<Rightarrow>
                         (if truthy (pc_characterId pc) \<and> truthy (characterid roll1)
                             \<and> pc_characterId pc \<noteq> characterid roll1
                          then say (CriticalMismatchNotice (keyOf (characterid roll1)) (keyOf (pc_characterId pc))) st
                          else if isAdvantageRoll roll1
                          then finishCheck [firstRoll roll1, secondRoll roll1] (total roll1) ref pc tokenId config ck roller st
                          else if pc_firstRoll pc = Null
                                  \<and> (pc_advantage pc = Some ''advantage'' \<or> pc_advantage pc = Some ''disadvantage'')
                          then say (WaitingForSecondRoll
                                      (case pc_characterName pc of None \<Rightarrow> ''Player'' | Some n \<Rightarrow> if n = [] then ''Player'' else n)
                                      (total roll1) (keyOf (pc_advantage pc)))
                                 (st\<lparr>checkObjects := (checkObjects st)(ref \<mapsto> pc\<lparr>pc_firstRoll := total roll1\<rparr>),
                                     pendingChecksByChar :=
                                       (if truthy (pc_characterId pc)
                                        then (pendingChecksByChar st)(keyOf (pc_characterId pc) \<mapsto> ref)
                                        else pendingChecksByChar st),
                                     pendingChecks := (pendingChecks st)(keyOf (pc_playerid pc) \<mapsto> ref)\<rparr>)
                          else if pc_advantage pc = None then st
                          else (let finalTotal =
                                      (if pc_advantage pc \<noteq> Some ''normal''
                                       then (if pc_advantage pc = Some ''advantage''
                                             then mathMax (pc_firstRoll pc) (total roll1)
                                             else mathMin (pc_firstRoll pc) (total roll1))
                                       else total roll1)
                                in finishCheck
                                     (if pc_advantage pc \<noteq> Some ''normal'' then [pc_firstRoll pc, total roll1] else [])
                                     finalTotal ref pc tokenId config ck roller st))))
           | _ \<Rightarrow> st))"

subsection \<open>Answering a mismatch\<close>

text \<open>
  \<^verbatim>\<open>handleRollCheck\<close>, which shows the player the prompt to roll and stores a fresh
  pending check for it.
\<close>

definition handleRollCheck :: "string \<Rightarrow> checkIndex \<Rightarrow> string \<Rightarrow> string option \<Rightarrow> state \<Rightarrow> state" where
  "handleRollCheck tokenId checkIdx adv playerid st =
     (case parseToken tokenId st of
        (None, s1) \<Rightarrow> s1
      | (Some config, s1) \<Rightarrow>
          (let existing = lookupCheck s1 (pendingChecks s1) (keyOf playerid);
               chosen =
                 (case checkIdx of
                    Custom \<Rightarrow>
                      (case existing of
                         None \<Rightarrow> None
                       | Some (r, pc) \<Rightarrow>
                           (case pc_config pc of
                              None \<Rightarrow> None
                            | Some c \<Rightarrow> (case checks c of [] \<Rightarrow> None | ck # _ \<Rightarrow> Some ck)))
                  | Index n \<Rightarrow> (if n < length (checks config) then Some (checks config ! n) else None))
           in case chosen of
                None \<Rightarrow> s1
              | Some ck \<Rightarrow>
                  (let cid = (case existing of None \<Rightarrow> None | Some (r, pc) \<Rightarrow> pc_characterId pc);
                       cname = (case existing of None \<Rightarrow> None | Some (r, pc) \<Rightarrow> pc_characterName pc);
                       ref = nextObject s1;
                       pendingCheck =
                         \<lparr>pc_token = Some tokenId, pc_checkIndex = Some checkIdx,
                          pc_config = Some (config\<lparr>checks := [ck]\<rparr>), pc_advantage = Some adv,
                          pc_firstRoll = Null, pc_playerid = playerid,
                          pc_characterId = cid, pc_characterName = cname\<rparr>;
                       s2 = s1\<lparr>checkObjects := (checkObjects s1)(ref \<mapsto> pendingCheck),
                               nextObject := Suc ref,
                               pendingChecks := (pendingChecks s1)(keyOf playerid \<mapsto> ref),
                               pendingChecksByChar :=
                                 (if truthy cid then (pendingChecksByChar s1)(keyOf cid \<mapsto> ref)
                                  else pendingChecksByChar s1)\<rparr>
                   in say (RollPrompt tokenId (ck_type ck) adv
                             (if displayDCForCheck s2 (keyOf playerid) = Some True then Some (ck_dc ck) else None))
                        s2)))"

text \<open>
  The command \<^verbatim>\<open>resolvemismatch\<close>, with its arguments read: the key of the pending
  check, the trap token, the action, the roll value, the roll type and the flag of a
  roll that holds both dice.
\<close>

definition resolveMismatch :: "string \<Rightarrow> string \<Rightarrow> string \<Rightarrow> num \<Rightarrow> string \<Rightarrow> bool \<Rightarrow> state \<Rightarrow> state" where
  "resolveMismatch entityId trapTokenId action rollValue rType isAdv st =
     (let found = (case lookupCheck st (pendingChecksByChar st) entityId of
                     Some x \<Rightarrow> Some x
                   | None \<Rightarrow> lookupCheck st (pendingChecks st) entityId)
      in case found of
           None \<Rightarrow> say MismatchUnresolvedNotice st
         | Some (ref, pc) \<Rightarrow>
             (if graphics st trapTokenId = None then say MismatchUnresolvedNotice st
              else if action = ''accept''
              then (case pc_config pc of
                      None \<Rightarrow> st
                    | Some config \<Rightarrow>
                        (case checks config of
                           [] \<Rightarrow> st
                         | ck # _ \<Rightarrow>
                             handleRollResult
                               \<lparr>total = rollValue, firstRoll = rollValue, secondRoll = Null,
                                isAdvantageRoll = isAdv, rollType = Some rType,
                                characterid = pc_characterId pc,
                                rolledSkillName = Some (ck_type ck)\<rparr>
                               (pc_playerid pc) (say AcceptNotice st)))
              else if action = ''reject''
              then handleRollCheck trapTokenId
                     (case pc_checkIndex pc of None \<Rightarrow> Index 0 | Some ci \<Rightarrow> ci)
                     (if truthy (pc_advantage pc) then keyOf (pc_advantage pc) else ''normal'')
                     (pc_playerid pc) st
              else st))"

subsection \<open>The descriptor stored on a token\<close>

text \<open>The invariant of the specification on a descriptor.\<close>

definition descriptorInvariant :: "trapData \<Rightarrow> bool" where
  "descriptorInvariant d =
     (0 \<le> currentUses d \<and> currentUses d \<le> maxUses d \<and>
      (if currentUses d = 0 then \<not> isArmed d else True))"

text \<open>What parsing reads from the notes a token of the host holds now.\<close>

definition storedNotes :: "state \<Rightarrow> string \<Rightarrow> string option" where
  "storedNotes st tokenId = map_option gmnotes (graphics st tokenId)"

definition storedDescriptor :: "state \<Rightarrow> string \<Rightarrow> trapData option" where
  "storedDescriptor st tokenId =
     (case storedNotes st tokenId of None \<Rightarrow> None | Some notes \<Rightarrow> parseTrapNotes notes)"

definition invariantAt :: "state \<Rightarrow> string \<Rightarrow> bool" where
  "invariantAt st tokenId =
     (case storedDescriptor st tokenId of None \<Rightarrow> False | Some d \<Rightarrow> descriptorInvariant d)"

subsection \<open>Example tokens\<close>

definition mkToken :: "real \<Rightarrow> real \<Rightarrow> real \<Rightarrow> real \<Rightarrow> string \<Rightarrow> token" where
  "mkToken l t w h notes =
     \<lparr>pageid = ''page'', tleft = l, ttop = t, twidth = w, theight = h, layer = ''objects'',
      gmnotes = notes, statusmarkers = [], aura1_color = None, bar1_value = None, bar1_max = None\<rparr>"

definition sampleMover :: token where
  "sampleMover = mkToken 50 50 100 100 []"



subsection \<open>Example states\<close>

definition emptyState :: state where
  "emptyState =
     \<lparr>lockedTokens = Map.empty, safeMoveTokens = {}, triggersEnabled = True,
      pendingChecks = Map.empty, pendingChecksByChar = Map.empty, displayDCForCheck = Map.empty,
      checkObjects = Map.empty, nextObject = 0, graphics = Map.empty, hostPages = Map.empty,
      characters = [], gmPlayers = {}, macros = Map.empty, chatLog = [], timers = []\<rparr>"

definition fireRest :: string where
  "fireRest = '' primary: Name: '' @ [CHR 0x22] @ ''Fire'' @ [CHR 0x22] @ '' Macro: Fire position: center}''"

definition fireTrapNotes :: string where
  "fireTrapNotes = setupTrapConfig 3 ''Fire'' [] [] ''Center''"


definition testTrapNotes :: string where
  "testTrapNotes = ''{!traptrigger uses: 1/1 macro: #TEST_MACRO effects: []}''"

definition fireData :: trapData where
  "fireData = \<lparr>currentUses = 3, maxUses = 3, isArmed = True, primary = (''Fire'', ''Fire''), options = [],
     position = Some Center, trapType = ''standard'', checks = [], success = None, failure = None,
     movementTriggerEnabled = True\<rparr>"

definition sampleState :: state where
  "sampleState =
     emptyState\<lparr>graphics := [''trap'' \<mapsto> mkToken 105 105 70 70 fireTrapNotes,
                              ''hero'' \<mapsto> mkToken 35 105 70 70 []],
                 macros := [''Fire'' \<mapsto> ''/em fire'']\<rparr>"

definition heroLock :: lockData where
  "heroLock = \<lparr>locked = True, trapToken = ''trap'', macroTriggered = True, trapData = fireData\<rparr>"

text \<open>The hero is held by the trap and the effect has been applied.\<close>

definition lockedState :: state where
  "lockedState =
     sampleState\<lparr>lockedTokens := [''hero'' \<mapsto> heroLock],
                  graphics := [''trap'' \<mapsto> mkToken 105 105 70 70 fireTrapNotes,
                               ''hero'' \<mapsto> mkToken 35 105 70 70 ''{!traplocked trap: trap}'']\<rparr>"

text \<open>The same, after two of the three uses were spent while the hero was held.\<close>

definition busyState :: state where
  "busyState =
     lockedState\<lparr>graphics := [''trap'' \<mapsto> mkToken 105 105 70 70 (descriptorHead 1 3 True @ fireRest),
                               ''hero'' \<mapsto> mkToken 35 105 70 70 ''{!traplocked trap: trap}'']\<rparr>"

text \<open>
  A door with two checks, a flat roll against 12 and Perception against 14, set up by
  \<^verbatim>\<open>setupInteractionTrap\<close>; Aria is played by \<^verbatim>\<open>p1\<close>, the golem by the GM
  \<^verbatim>\<open>gm\<close>. In \<open>checkState\<close> the GM has asked Aria for a check; in \<open>golemState\<close> the
  second GM has asked the golem for one.
\<close>

definition flatCheck :: check where
  "flatCheck = \<lparr>ck_type = ''Flat Roll'', ck_dc = Num 12\<rparr>"

definition perceptionCheck :: check where
  "perceptionCheck = \<lparr>ck_type = ''Perception'', ck_dc = Num 14\<rparr>"

definition doorRest :: string where
  "doorRest = '' type: interaction primary: Name:'' @ [CHR 0x22] @ ''Alarm'' @ [CHR 0x22]
     @ '' Macro: Alarm success: Open failure: Alarm checks: '' @ [CHR 0x22]
     @ ''Flat Roll:12,Perception:14'' @ [CHR 0x22] @ ''}''"

definition doorNotes :: string where
  "doorNotes = setupInteractionConfig 3 ''Open'' ''Alarm'' [''Flat Roll:12'', ''Perception:14''] True"

definition doorData :: trapData where
  "doorData = \<lparr>currentUses = 3, maxUses = 3, isArmed = True, primary = (''Alarm'', ''Alarm''), options = [],
     position = None, trapType = ''interaction'', checks = [flatCheck, perceptionCheck],
     success = Some ''Open'', failure = Some ''Alarm'', movementTriggerEnabled = True\<rparr>"

definition ariaCheck :: "check \<Rightarrow> checkIndex \<Rightarrow> string \<Rightarrow> num \<Rightarrow> pendingCheck" where
  "ariaCheck ck idx adv fr =
     \<lparr>pc_token = Some ''door'', pc_checkIndex = Some idx, pc_config = Some (doorData\<lparr>checks := [ck]\<rparr>),
      pc_advantage = Some adv, pc_firstRoll = fr, pc_playerid = Some ''gm'',
      pc_characterId = Some ''c1'', pc_characterName = Some ''Aria''\<rparr>"

definition golemCheck :: pendingCheck where
  "golemCheck =
     \<lparr>pc_token = Some ''door'', pc_checkIndex = Some (Index 0), pc_config = Some (doorData\<lparr>checks := [flatCheck]\<rparr>),
      pc_advantage = Some ''normal'', pc_firstRoll = Null, pc_playerid = Some ''gm2'',
      pc_characterId = Some ''c2'', pc_characterName = Some ''Golem''\<rparr>"

definition tableState :: state where
  "tableState =
     emptyState\<lparr>graphics := [''door'' \<mapsto> mkToken 105 105 70 70 doorNotes],
                 macros := [''Open'' \<mapsto> ''/em opens'', ''Alarm'' \<mapsto> ''/em rings''],
                 characters := [(''c1'', \<lparr>controlledby = ''p1'', characterName = ''Aria''\<rparr>),
                                (''c2'', \<lparr>controlledby = ''gm'', characterName = ''Golem''\<rparr>)],
                 gmPlayers := {''gm'', ''gm2''}\<rparr>"

definition checkState :: "pendingCheck \<Rightarrow> state" where
  "checkState pc =
     tableState\<lparr>checkObjects := [0 \<mapsto> pc], nextObject := 1,
                 pendingChecks := [''gm'' \<mapsto> 0], pendingChecksByChar := [''c1'' \<mapsto> 0]\<rparr>"

definition golemState :: state where
  "golemState =
     tableState\<lparr>checkObjects := [0 \<mapsto> golemCheck], nextObject := 1,
                 pendingChecks := [''gm2'' \<mapsto> 0], pendingChecksByChar := [''c2'' \<mapsto> 0]\<rparr>"

definition flatRoll :: "int \<Rightarrow> roll" where
  "flatRoll n = \<lparr>total = Num n, firstRoll = Undefined, secondRoll = Undefined, isAdvantageRoll = False,
     rollType = None, characterid = None, rolledSkillName = None\<rparr>"

definition sheetRoll :: "string \<Rightarrow> string \<Rightarrow> int \<Rightarrow> roll" where
  "sheetRoll cid skill n = \<lparr>total = Num n, firstRoll = Num n, secondRoll = Undefined, isAdvantageRoll = False,
     rollType = Some ''normal'', characterid = Some cid, rolledSkillName = Some skill\<rparr>"

text \<open>
  The hero has walked into the trap: it stands on the contact point, is held, and the
  callback to the resting point is scheduled.
\<close>

definition walk :: state where
  "walk = triggerAt ''hero'' ''trap'' \<lparr>p_x = 105, p_y = 105\<rparr> \<lparr>p_x = 140, p_y = 140\<rparr> sampleState"

section \<open>Properties of the text functions\<close>

lemma decode_no_percent: "CHR ''%'' \<notin> set s \<Longrightarrow> decodeURIComponent s = Some s"
  by (induction s) auto

lemma tryDecode_no_percent: "CHR ''%'' \<notin> set s \<Longrightarrow> tryDecode s = s"
  by (simp add: tryDecode_def decode_no_percent)

lemma isDigit_digitChar: "isDigit (digitChar n)"
proof -
  have "n mod 10 < length ''0123456789''"
    by simp
  then have "''0123456789'' ! (n mod 10) \<in> set ''0123456789''"
    by (rule nth_mem)
  then show ?thesis
    unfolding isDigit_def digitChar_def .
qed

lemma digit_table: "list_all (\<lambda>k. digitValue (''0123456789'' ! k) = k) [0..<10]"
  by code_simp

lemma digitValue_digitChar: "digitValue (digitChar n) = n mod 10"
proof -
  have "n mod 10 \<in> set [0..<10]"
    by simp
  with digit_table show ?thesis
    unfolding digitChar_def list_all_iff by blast
qed

lemma showNat_digits: "list_all isDigit (showNat n)"
proof (induction n rule: showNat.induct)
  case (1 n)
  then show ?case
    by (subst showNat.simps) (simp add: isDigit_digitChar)
qed

lemma showNat_nonempty: "showNat n \<noteq> []"
  by (subst showNat.simps) simp

lemma digitsValue_snoc: "digitsValue (ds @ [c]) = 10 * digitsValue ds + digitValue c"
  by (simp add: digitsValue_def)

text \<open>Reading back a printed number gives the number.\<close>

lemma digitsValue_showNat: "digitsValue (showNat n) = n"
proof (induction n rule: showNat.induct)
  case (1 n)
  show ?case
  proof (cases "n < 10")
    case True
    then show ?thesis
      by (subst showNat.simps) (simp add: digitsValue_def digitValue_digitChar)
  next
    case False
    with 1 show ?thesis
      by (subst showNat.simps) (simp add: digitsValue_snoc digitValue_digitChar)
  qed
qed

subsection \<open>Searching past the head of a descriptor\<close>

lemma search_skip:
  assumes "\<And>c s. c \<in> set p \<Longrightarrow> m (c # s) = None"
  shows "search m (p @ r) = map_option (\<lambda>(b, v, x). (p @ b, v, x)) (search m r)"
  using assms
proof (induction p)
  case Nil
  show ?case by (cases "search m r") auto
next
  case (Cons c p)
  then show ?case
    by (auto split: option.splits)
qed

lemma digit_not_space: "isDigit c \<Longrightarrow> \<not> isSpace c"
  by (auto simp: isDigit_def isSpace_def)

lemma skipWs_digits: "list_all isDigit ds \<Longrightarrow> ds \<noteq> [] \<Longrightarrow> skipWs (ds @ x) = ds @ x"
  by (cases ds) (auto simp: skipWs_def digit_not_space)

lemma skipWs_space: "skipWs (CHR '' '' # x) = skipWs x"
  by (simp add: skipWs_def isSpace_def)

lemma many1_digits:
  assumes "list_all isDigit ds" "ds \<noteq> []" "\<not> isDigit c"
  shows "many1 isDigit (ds @ c # x) = Some (ds, c # x)"
proof -
  have all: "\<And>d. d \<in> set ds \<Longrightarrow> isDigit d"
    using assms(1) by (simp add: list_all_iff)
  have t: "takeWhile isDigit (ds @ c # x) = ds"
    using all assms(3) by (simp add: takeWhile_append2)
  have d: "dropWhile isDigit (ds @ c # x) = c # x"
    using all assms(3) by (simp add: dropWhile_append2)
  show ?thesis
    unfolding many1_def t d using assms(2) by simp
qed

lemma matchUses_field:
  assumes "list_all isDigit d1" "d1 \<noteq> []" "list_all isDigit d2" "d2 \<noteq> []" "\<not> isDigit c"
  shows "matchUses (''uses: '' @ d1 @ ''/'' @ d2 @ c # x) = Some ((d1, d2), c # x)"
proof -
  have 1: "lit ''uses:'' (''uses: '' @ d1 @ ''/'' @ d2 @ c # x) = Some (CHR '' '' # d1 @ CHR ''/'' # d2 @ c # x)"
    by simp
  have 2: "skipWs (CHR '' '' # d1 @ CHR ''/'' # d2 @ c # x) = d1 @ CHR ''/'' # d2 @ c # x"
    using assms by (simp add: skipWs_space skipWs_digits)
  have 3: "many1 isDigit (d1 @ CHR ''/'' # d2 @ c # x) = Some (d1, CHR ''/'' # d2 @ c # x)"
    using assms by (intro many1_digits) (simp_all add: isDigit_def)
  have 4: "many1 isDigit (d2 @ c # x) = Some (d2, c # x)"
    using assms by (intro many1_digits)
  show ?thesis
    unfolding matchUses_def 1 by (simp add: 2 3 4)
qed

text \<open>Stepping a search over a position where the matcher fails.\<close>

lemma search_step: "m (c # cs) = None \<Longrightarrow>
  search m (c # cs) = map_option (\<lambda>(b, v, r). (c # b, v, r)) (search m cs)"
  by (simp split: option.splits)

lemma search_hit: "m (c # cs) = Some (v, r) \<Longrightarrow> search m (c # cs) = Some ([], v, r)"
  by simp

lemma firstMatch_step: "m (c # cs) = None \<Longrightarrow> firstMatch m (c # cs) = firstMatch m cs"
  by (simp add: firstMatch_def split: option.splits)


lemma search_digits:
  assumes "\<And>c s. isDigit c \<Longrightarrow> m (c # s) = None" "list_all isDigit ds"
  shows "search m (ds @ x) = map_option (\<lambda>(b, v, r). (ds @ b, v, r)) (search m x)"
  using assms(2)
proof (induction ds)
  case Nil
  show ?case by (cases "search m x") auto
next
  case (Cons d ds)
  then have "m (d # ds @ x) = None" using assms(1) by simp
  with Cons show ?case
    by (auto split: option.splits)
qed

lemma firstMatch_digits:
  assumes "\<And>c s. isDigit c \<Longrightarrow> m (c # s) = None" "list_all isDigit ds"
  shows "firstMatch m (ds @ x) = firstMatch m x"
  using search_digits[of m ds x] assms by (auto simp: firstMatch_def split: option.splits)


lemma digit_chars_table:
  "list_all (\<lambda>c. c \<notin> set ''uapotcsf{&'' \<and> toLower c = c \<and> \<not> isSpace c) ''0123456789''"
  by code_simp

lemma digit_not_initial: "isDigit c \<Longrightarrow> c \<notin> set ''uapotcsf{&'' \<and> toLower c = c"
  using digit_chars_table unfolding isDigit_def list_all_iff by blast

lemma matchers_digit:
  assumes "isDigit c"
  shows "matchUses (c # s) = None" "matchArmed (c # s) = None" "matchPrimary (c # s) = None"
    "matchOptions (c # s) = None" "matchPosition (c # s) = None" "matchType (c # s) = None"
    "matchChecks (c # s) = None" "matchSuccess (c # s) = None" "matchFailure (c # s) = None"
  using digit_not_initial[OF assms]
  by (auto simp: matchUses_def matchArmed_def matchPrimary_def matchOptions_def matchPosition_def
      matchType_def matchChecks_def matchSuccess_def matchFailure_def)

lemma replaceFirst_step: "m (c # cs) = None \<Longrightarrow> replaceFirst m new (c # cs) = c # replaceFirst m new cs"
  by (simp add: replaceFirst_def split: option.splits)

lemma replaceFirst_hit: "m (c # cs) = Some (v, r) \<Longrightarrow> replaceFirst m new (c # cs) = new @ r"
  by (simp add: replaceFirst_def)

lemma firstMatch_hit: "m (c # cs) = Some (v, r) \<Longrightarrow> firstMatch m (c # cs) = Some v"
  by (simp add: firstMatch_def)

lemma replaceFirst_digits:
  assumes "\<And>c s. isDigit c \<Longrightarrow> m (c # s) = None" "list_all isDigit ds"
  shows "replaceFirst m new (ds @ x) = ds @ replaceFirst m new x"
  using search_digits[of m ds x] assms by (auto simp: replaceFirst_def split: option.splits)

lemma toLower_table:
  "map toLower ''{!traptrigger uses: /armed: onoff}'' = ''{!traptrigger uses: /armed: onoff}''"
  by code_simp

lemma toLower_simps [simp]:
  "toLower CHR ''{'' = CHR ''{''" "toLower CHR ''!'' = CHR ''!''" "toLower CHR ''t'' = CHR ''t''"
  "toLower CHR ''r'' = CHR ''r''" "toLower CHR ''a'' = CHR ''a''" "toLower CHR ''p'' = CHR ''p''"
  "toLower CHR ''i'' = CHR ''i''" "toLower CHR ''g'' = CHR ''g''" "toLower CHR ''e'' = CHR ''e''"
  "toLower CHR '' '' = CHR '' ''" "toLower CHR ''u'' = CHR ''u''" "toLower CHR ''s'' = CHR ''s''"
  "toLower CHR '':'' = CHR '':''" "toLower CHR ''/'' = CHR ''/''" "toLower CHR ''m'' = CHR ''m''"
  "toLower CHR ''d'' = CHR ''d''" "toLower CHR ''o'' = CHR ''o''" "toLower CHR ''n'' = CHR ''n''"
  "toLower CHR ''f'' = CHR ''f''" "toLower CHR ''}'' = CHR ''}''"
  using toLower_table by simp_all

lemma matchArmed_on: "matchArmed (''armed: on'' @ r) = Some (True, r)"
  by (simp add: matchArmed_def skipWs_def isSpace_def)

lemma matchArmed_off: "matchArmed (''armed: off'' @ r) = Some (False, r)"
  by (simp add: matchArmed_def skipWs_def isSpace_def)

lemma matchArmed_field: "matchArmed (''armed: '' @ armedState a @ r) = Some (a, r)"
  using matchArmed_on[of r] matchArmed_off[of r] by (simp add: armedState_def)

lemma firstMatch_armed_head:
  assumes "list_all isDigit d1" "list_all isDigit d2"
  shows "firstMatch matchArmed (''{!traptrigger uses: '' @ d1 @ ''/'' @ d2 @ '' armed: '' @ armedState a @ r) = Some a"
proof -
  have 1: "firstMatch matchArmed (''{!traptrigger uses: '' @ d1 @ ''/'' @ d2 @ '' armed: '' @ armedState a @ r) =
           firstMatch matchArmed (d1 @ ''/'' @ d2 @ '' armed: '' @ armedState a @ r)"
    by (simp add: firstMatch_step matchArmed_def)
  have 2: "\<dots> = firstMatch matchArmed (''/'' @ d2 @ '' armed: '' @ armedState a @ r)"
    using assms by (intro firstMatch_digits) (simp_all add: matchers_digit)
  have 3: "\<dots> = firstMatch matchArmed (d2 @ '' armed: '' @ armedState a @ r)"
    by (simp add: firstMatch_step matchArmed_def)
  have 4: "\<dots> = firstMatch matchArmed ('' armed: '' @ armedState a @ r)"
    using assms by (intro firstMatch_digits) (simp_all add: matchers_digit)
  have 5: "\<dots> = firstMatch matchArmed (''armed: '' @ armedState a @ r)"
    by (simp add: firstMatch_step matchArmed_def)
  have 6: "\<dots> = Some a"
    using matchArmed_field[of a r] by (simp add: firstMatch_def)
  show ?thesis
    using 1 2 3 4 5 6 by simp
qed














lemma includes_marker_head:
  "includes_str (''{!traptrigger uses: '' @ x) ''!traptrigger''"
  by simp

lemma replaceAllFrom_skip:
  assumes "\<And>c. c \<in> set p \<Longrightarrow> c \<noteq> q"
  shows "replaceAllFrom (q # qs) rep 0 (p @ r) = p @ replaceAllFrom (q # qs) rep 0 r"
  using assms by (induction p) auto

lemma digits_no_amp: "list_all isDigit ds \<Longrightarrow> CHR ''&'' \<notin> set ds \<and> CHR ''%'' \<notin> set ds"
  unfolding list_all_iff isDigit_def by fastforce

lemma head_no_amp:
  assumes "list_all isDigit d1" "list_all isDigit d2"
  shows "CHR ''&'' \<notin> set (''{!traptrigger uses: '' @ d1 @ ''/'' @ d2 @ '' armed: '' @ armedState a)"
    and "CHR ''%'' \<notin> set (''{!traptrigger uses: '' @ d1 @ ''/'' @ d2 @ '' armed: '' @ armedState a)"
  using digits_no_amp[OF assms(1)] digits_no_amp[OF assms(2)]
  by (simp_all add: armedState_def)

lemma replaceAll_head:
  assumes "list_all isDigit d1" "list_all isDigit d2"
  shows "replaceAll (CHR ''&'' # qs) rep ((''{!traptrigger uses: '' @ d1 @ ''/'' @ d2 @ '' armed: '' @ armedState a) @ r) =
         (''{!traptrigger uses: '' @ d1 @ ''/'' @ d2 @ '' armed: '' @ armedState a) @ replaceAll (CHR ''&'' # qs) rep r"
  unfolding replaceAll_def
  by (rule replaceAllFrom_skip) (use head_no_amp(1)[OF assms] in blast)

lemma unescape_head:
  assumes "list_all isDigit d1" "list_all isDigit d2"
  shows "unescapeEntities ((''{!traptrigger uses: '' @ d1 @ ''/'' @ d2 @ '' armed: '' @ armedState a) @ r) =
         (''{!traptrigger uses: '' @ d1 @ ''/'' @ d2 @ '' armed: '' @ armedState a) @ unescapeEntities r"
  unfolding unescapeEntities_def by (simp only: replaceAll_head[OF assms])





lemma tryDecode_head:
  assumes "list_all isDigit d1" "list_all isDigit d2" "CHR ''%'' \<notin> set r"
  shows "tryDecode ((''{!traptrigger uses: '' @ d1 @ ''/'' @ d2 @ '' armed: '' @ armedState a) @ r) =
         (''{!traptrigger uses: '' @ d1 @ ''/'' @ d2 @ '' armed: '' @ armedState a) @ r"
proof (rule tryDecode_no_percent)
  show "CHR ''%'' \<notin> set ((''{!traptrigger uses: '' @ d1 @ ''/'' @ d2 @ '' armed: '' @ armedState a) @ r)"
    using head_no_amp(2)[OF assms(1,2), of a] assms(3) by simp
qed

lemma search_uses_head:
  assumes "list_all isDigit d1" "d1 \<noteq> []" "list_all isDigit d2" "d2 \<noteq> []"
  shows "search matchUses (''{!traptrigger uses: '' @ d1 @ ''/'' @ d2 @ CHR '' '' # x) =
         Some (''{!traptrigger '', (d1, d2), CHR '' '' # x)"
proof -
  have hit: "matchUses (''uses: '' @ d1 @ ''/'' @ d2 @ CHR '' '' # x) = Some ((d1, d2), CHR '' '' # x)"
    using assms by (intro matchUses_field) (simp_all add: isDigit_def)
  have "search matchUses (''{!traptrigger '' @ (''uses: '' @ d1 @ ''/'' @ d2 @ CHR '' '' # x)) =
        map_option (\<lambda>(b, v, r). (''{!traptrigger '' @ b, v, r))
          (search matchUses (''uses: '' @ d1 @ ''/'' @ d2 @ CHR '' '' # x))"
    by (rule search_skip) (auto simp: matchUses_def)
  also have "search matchUses (''uses: '' @ d1 @ ''/'' @ d2 @ CHR '' '' # x) = Some ([], (d1, d2), CHR '' '' # x)"
    using hit by simp
  finally show ?thesis by simp
qed

lemma replaceFirst_uses_head:
  assumes "list_all isDigit d1" "d1 \<noteq> []" "list_all isDigit d2" "d2 \<noteq> []"
  shows "replaceFirst matchUses new (''{!traptrigger uses: '' @ d1 @ ''/'' @ d2 @ CHR '' '' # x) =
         ''{!traptrigger '' @ new @ CHR '' '' # x"
  using search_uses_head[OF assms, of x] by (simp add: replaceFirst_def)

lemma firstMatch_uses_head:
  assumes "list_all isDigit d1" "d1 \<noteq> []" "list_all isDigit d2" "d2 \<noteq> []"
  shows "firstMatch matchUses (''{!traptrigger uses: '' @ d1 @ ''/'' @ d2 @ CHR '' '' # x) = Some (d1, d2)"
  using search_uses_head[OF assms, of x] by (simp add: firstMatch_def)

lemma replaceFirst_armed_head:
  assumes "list_all isDigit d1" "list_all isDigit d2"
  shows "replaceFirst matchArmed new (''{!traptrigger uses: '' @ d1 @ ''/'' @ d2 @ '' armed: '' @ armedState a @ r) =
         ''{!traptrigger uses: '' @ d1 @ ''/'' @ d2 @ '' '' @ new @ r"
proof -
  have 1: "replaceFirst matchArmed new (''/'' @ d2 @ '' armed: '' @ armedState a @ r) =
           ''/'' @ replaceFirst matchArmed new (d2 @ '' armed: '' @ armedState a @ r)"
    by (simp add: replaceFirst_step matchArmed_def)
  have 2: "replaceFirst matchArmed new (d2 @ '' armed: '' @ armedState a @ r) =
           d2 @ replaceFirst matchArmed new ('' armed: '' @ armedState a @ r)"
    using assms by (intro replaceFirst_digits) (simp_all add: matchers_digit)
  have 3: "replaceFirst matchArmed new ('' armed: '' @ armedState a @ r) = '' '' @ new @ r"
    using matchArmed_field[of a r] by (simp add: replaceFirst_step replaceFirst_hit matchArmed_def)
  have 4: "replaceFirst matchArmed new (d1 @ ''/'' @ d2 @ '' armed: '' @ armedState a @ r) =
           d1 @ replaceFirst matchArmed new (''/'' @ d2 @ '' armed: '' @ armedState a @ r)"
    using assms by (intro replaceFirst_digits) (simp_all add: matchers_digit)
  have 5: "replaceFirst matchArmed new (''{!traptrigger uses: '' @ d1 @ ''/'' @ d2 @ '' armed: '' @ armedState a @ r) =
           ''{!traptrigger uses: '' @ replaceFirst matchArmed new (d1 @ ''/'' @ d2 @ '' armed: '' @ armedState a @ r)"
    by (simp add: replaceFirst_step matchArmed_def)
  show ?thesis
    unfolding 5 4 1 2 3 by simp
qed

lemma includes_append: "includes_str x sub \<Longrightarrow> includes_str (p @ x) sub"
  by (induction p) auto

lemma includes_prefix: "includes_str ((c # sub) @ x) (c # sub)"
  by simp

lemma includes_armed_head:
  "includes_str (''{!traptrigger uses: '' @ d1 @ ''/'' @ d2 @ '' armed: '' @ x) ''armed:''"
proof -
  have "includes_str (''armed:'' @ CHR '' '' # x) ''armed:''"
    by (rule includes_prefix)
  then have "includes_str ((''{!traptrigger uses: '' @ d1 @ ''/'' @ d2 @ '' '') @ (''armed:'' @ CHR '' '' # x)) ''armed:''"
    by (rule includes_append)
  then show ?thesis by simp
qed

subsection \<open>Reading and writing the head\<close>

lemma showInt_nonneg: "0 \<le> c \<Longrightarrow> showInt c = showNat (nat c)"
  by (simp add: showInt_def)

lemma head_unfold:
  "0 \<le> c \<Longrightarrow> 0 \<le> m \<Longrightarrow>
   descriptorHead c m a = ''{!traptrigger uses: '' @ showNat (nat c) @ ''/'' @ showNat (nat m) @ '' armed: '' @ armedState a"
  by (simp add: descriptorHead_def showInt_nonneg)

lemma updatedNotes_head:
  assumes "0 \<le> c" "0 \<le> m" "0 \<le> c'" "0 \<le> m'" "CHR ''%'' \<notin> set rest"
  shows "updatedNotes (descriptorHead c m a @ rest) c' m' na =
         descriptorHead c' m' (case na of None \<Rightarrow> a | Some b \<Rightarrow> b) @ rest"
proof -
  let ?d1 = "showNat (nat c)" and ?d2 = "showNat (nat m)"
  let ?e1 = "showNat (nat c')" and ?e2 = "showNat (nat m')"
  have dec: "tryDecode (descriptorHead c m a @ rest) =
             ''{!traptrigger uses: '' @ ?d1 @ ''/'' @ ?d2 @ CHR '' '' # (''armed: '' @ armedState a @ rest)"
    using tryDecode_head[where ?d1.0 = "?d1" and ?d2.0 = "?d2" and r = rest and a = a]
    by (simp add: head_unfold assms showNat_digits)
  have upd: "replaceFirst matchUses (''uses: '' @ showInt c' @ ''/'' @ showInt m')
               (''{!traptrigger uses: '' @ ?d1 @ ''/'' @ ?d2 @ CHR '' '' # (''armed: '' @ armedState a @ rest)) =
             ''{!traptrigger uses: '' @ ?e1 @ ''/'' @ ?e2 @ '' armed: '' @ armedState a @ rest"
    using replaceFirst_uses_head[where ?d1.0 = "?d1" and ?d2.0 = "?d2"
        and new = "''uses: '' @ showInt c' @ ''/'' @ showInt m'" and x = "''armed: '' @ armedState a @ rest"]
    by (simp add: showInt_nonneg assms showNat_digits showNat_nonempty)
  show ?thesis
  proof (cases na)
    case None
    show ?thesis
      unfolding updatedNotes_def dec Let_def upd None
      by (simp add: head_unfold assms)
  next
    case (Some b)
    have inc: "includes_str (''{!traptrigger uses: '' @ ?e1 @ ''/'' @ ?e2 @ '' armed: '' @ armedState a @ rest) ''armed:''"
      by (rule includes_armed_head)
    have rep: "replaceFirst matchArmed (''armed: '' @ armedState b)
                 (''{!traptrigger uses: '' @ ?e1 @ ''/'' @ ?e2 @ '' armed: '' @ armedState a @ rest) =
               ''{!traptrigger uses: '' @ ?e1 @ ''/'' @ ?e2 @ '' '' @ (''armed: '' @ armedState b) @ rest"
      by (rule replaceFirst_armed_head) (rule showNat_digits)+
    show ?thesis
      unfolding updatedNotes_def dec Let_def upd Some
      using inc rep by (simp add: head_unfold assms)
  qed
qed



subsection \<open>Notes that are stored encoded\<close>




subsection \<open>A descriptor without an armed field\<close>









lemma includes_tail: "\<not> includes_str (c # s) p \<Longrightarrow> \<not> includes_str s p"
  by auto












lemma plainRest_brace:
  assumes "plainRest rest"
  obtains c0 x where "rest @ y = c0 # x" "\<not> isDigit c0" | "rest = []"
  using assms by (cases rest) (auto simp: plainRest_def isDigit_def)



section \<open>Properties of the rounding\<close>

text \<open>
  \<^const>\<open>fl\<close> is the identity on the numbers with a significand of 53 bits
  (\<open>fl_exact\<close>), is monotone (\<open>fl_mono_pos\<close>), is odd (\<open>fl_minus\<close>) and has a
  relative error of at most \<open>2 powi (- 53)\<close> (\<open>fl_err_pos\<close>).
\<close>

lemma rne_of_int [simp]: "rne (of_int n) = n"
  by (simp add: rne_def)

lemma rne_cases: "rne z = \<lfloor>z\<rfloor> \<or> rne z = \<lfloor>z\<rfloor> + 1"
  by (simp add: rne_def Let_def)

lemma rne_err: "\<bar>of_int (rne z) - z\<bar> \<le> 1 / 2"
proof -
  have "of_int \<lfloor>z\<rfloor> \<le> z" "z < of_int \<lfloor>z\<rfloor> + 1" by linarith+
  then show ?thesis
    by (auto simp add: rne_def Let_def split: if_splits)
qed

lemma rne_mono: assumes "x \<le> y" shows "rne x \<le> rne y"
proof (cases "\<lfloor>x\<rfloor> = \<lfloor>y\<rfloor>")
  case True
  then show ?thesis using assms by (auto simp add: rne_def Let_def)
next
  case False
  then have "\<lfloor>x\<rfloor> < \<lfloor>y\<rfloor>" using assms floor_mono[of x y] by linarith
  then have "\<lfloor>x\<rfloor> + 1 \<le> \<lfloor>y\<rfloor>" by simp
  moreover have "rne x \<le> \<lfloor>x\<rfloor> + 1" using rne_cases[of x] by auto
  moreover have "\<lfloor>y\<rfloor> \<le> rne y" using rne_cases[of y] by auto
  ultimately show ?thesis by linarith
qed

lemma expo_bounds:
  assumes "0 < y"
  shows "2 powi (expo y) \<le> y \<and> y < 2 powi (expo y + 1)"
proof (cases "1 \<le> y")
  case True
  define n where "n = \<lfloor>y\<rfloor>"
  have n: "0 < n" "of_int n \<le> y" "y < of_int n + 1"
    using True unfolding n_def by linarith+
  define k where "k = bitlen n"
  have k: "2 ^ nat (k - 1) \<le> n" "n < 2 ^ nat k" using bitlen_bounds[OF n(1)] by (auto simp add: k_def)
  have k1: "1 \<le> k" using n(1) bitlen_nonneg[of n] bitlen_eq_zero_iff[of n] unfolding k_def by linarith
  have e: "expo y = k - 1" using True by (simp add: expo_def k_def n_def)
  have a: "(2::real) powi (k - 1) = 2 ^ nat (k - 1)" using k1 by (simp add: power_int_def)
  have b: "(2::real) powi k = 2 ^ nat k" using k1 by (simp add: power_int_def)
  have r1: "(2::real) ^ nat (k - 1) \<le> of_int n"
    using k(1) by (metis of_int_le_iff of_int_numeral of_int_power)
  have r2: "of_int n + 1 \<le> (2::real) ^ nat k"
  proof -
    have "n + 1 \<le> 2 ^ nat k" using k(2) by simp
    then have "(of_int (n + 1)::real) \<le> of_int (2 ^ nat k)" by (simp only: of_int_le_iff)
    then show ?thesis by simp
  qed
  have A: "(2::real) ^ nat (k - 1) \<le> y" using r1 n(2) by linarith
  have B: "y < (2::real) ^ nat k" using r2 n(3) by linarith
  have "expo y + 1 = k" using e by simp
  then show ?thesis unfolding e using A B a b by simp
next
  case False
  define z where "z = 1 / y"
  have z: "1 < z" using False assms by (simp add: z_def)
  define n where "n = \<lfloor>z\<rfloor>"
  have n: "0 < n" "of_int n \<le> z" "z < of_int n + 1"
    using z unfolding n_def by linarith+
  define k where "k = bitlen n"
  have k: "2 ^ nat (k - 1) \<le> n" "n < 2 ^ nat k" using bitlen_bounds[OF n(1)] by (auto simp add: k_def)
  have k1: "1 \<le> k" using n(1) bitlen_nonneg[of n] bitlen_eq_zero_iff[of n] unfolding k_def by linarith
  have lo: "(2::real) ^ nat (k - 1) \<le> z"
  proof -
    have "(2::real) ^ nat (k - 1) \<le> of_int n" using k(1) by (metis of_int_le_iff of_int_numeral of_int_power)
    then show ?thesis using n(2) by linarith
  qed
  have hi: "z < (2::real) ^ nat k"
  proof -
    have "n + 1 \<le> 2 ^ nat k" using k(2) by simp
    then have "(of_int (n + 1)::real) \<le> of_int (2 ^ nat k)" by (simp only: of_int_le_iff)
    then have "of_int n + 1 \<le> (2::real) ^ nat k" by simp
    then show ?thesis using n(3) by linarith
  qed
  have yz: "y = 1 / z" using assms by (simp add: z_def)
  have ylo: "1 / 2 ^ nat k < y" unfolding yz using hi z by (simp add: field_simps)
  have yhi: "y \<le> 1 / 2 ^ nat (k - 1)" unfolding yz using lo z by (simp add: field_simps)
  have pk: "(2::real) powi (- k) = 1 / 2 ^ nat k" using k1 by (simp add: power_int_def field_simps)
  have pk1: "(2::real) powi (1 - k) = 1 / 2 ^ nat (k - 1)"
    using k1 by (simp add: power_int_def field_simps)
  show ?thesis
  proof (cases "y * 2 ^ nat (k - 1) = 1")
    case True
    then have e: "expo y = 1 - k" using False by (simp add: expo_def Let_def z_def n_def k_def)
    have yeq: "y = 2 powi (1 - k)" using True unfolding pk1 by (simp add: field_simps)
    have lt: "(2::real) powi (1 - k) < 2 powi (1 - k + 1)"
      by (rule power_int_strict_increasing) simp_all
    have "2 powi (1 - k) \<le> y \<and> y < 2 powi (1 - k + 1)"
      using lt yeq by simp
    then show ?thesis unfolding e .
  next
    case ne: False
    then have e: "expo y = - k" using False by (simp add: expo_def Let_def z_def n_def k_def)
    have "y \<noteq> 1 / 2 ^ nat (k - 1)" using ne by (simp add: field_simps)
    then have "y < 1 / 2 ^ nat (k - 1)" using yhi by simp
    then show ?thesis unfolding e using ylo pk pk1 by (simp add: algebra_simps)
  qed
qed

lemma expo_unique:
  assumes "0 < y" "2 powi e \<le> y" "y < 2 powi (e + 1)"
  shows "expo y = e"
proof -
  from expo_bounds[OF assms(1)] have b: "2 powi (expo y) \<le> y" "y < 2 powi (expo y + 1)" by auto
  have "(2::real) powi e < 2 powi (expo y + 1)" using assms(2) b(2) by simp
  then have 1: "e < expo y + 1"
    by (metis not_less power_int_increasing one_le_numeral)
  have "(2::real) powi (expo y) < 2 powi (e + 1)" using assms(3) b(1) by simp
  then have 2: "expo y < e + 1"
    by (metis not_less power_int_increasing one_le_numeral)
  from 1 2 show ?thesis by simp
qed

lemma pow2_52: "(2::real) powi e = 2 ^ 52 * 2 powi (e - 52)"
  using power_int_add[of "2::real" 52 "e - 52"] by simp

lemma pow2_53: "(2::real) powi (e + 1) = 2 ^ 53 * 2 powi (e - 52)"
proof -
  have "e + 1 = 53 + (e - 52)" by simp
  then have "(2::real) powi (e + 1) = 2 powi (53 + (e - 52))" by (simp only:)
  also have "\<dots> = 2 powi 53 * 2 powi (e - 52)" by (rule power_int_add) simp
  finally show ?thesis by simp
qed

lemma fl_zero [simp]: "fl 0 = 0"
  by (simp add: fl_def)

lemma fl_pos_form:
  assumes "0 < x"
  defines "s \<equiv> 2 powi (expo x - 52)"
  shows "fl x = of_int (rne (x / s)) * s" "0 < s" "2 ^ 52 \<le> x / s" "x / s < 2 ^ 53"
proof -
  from expo_bounds[OF assms(1)] have b: "2 powi (expo x) \<le> x" "x < 2 powi (expo x + 1)" by auto
  show "fl x = of_int (rne (x / s)) * s" using assms(1) by (simp add: fl_def s_def)
  show s0: "0 < s" by (simp add: s_def)
  have e1: "(2::real) powi (expo x) = 2 ^ 52 * s"
    unfolding s_def by (rule pow2_52)
  have e2: "(2::real) powi (expo x + 1) = 2 ^ 53 * s"
    unfolding s_def by (rule pow2_53)
  show "2 ^ 52 \<le> x / s" using b(1) s0 unfolding e1 by (simp add: field_simps)
  show "x / s < 2 ^ 53" using b(2) s0 unfolding e2 by (simp add: field_simps)
qed

lemma fl_exact:
  assumes "x = of_int m * 2 powi k" "\<bar>m\<bar> < 2 ^ 53"
  shows "fl x = x"
proof (cases "m = 0")
  case True
  then show ?thesis using assms by simp
next
  case False
  then have x0: "x \<noteq> 0" using assms(1) by simp
  then have ax: "0 < \<bar>x\<bar>" by simp
  define e where "e = expo \<bar>x\<bar>"
  from expo_bounds[OF ax] have b: "2 powi e \<le> \<bar>x\<bar>" by (simp add: e_def)
  have "\<bar>x\<bar> = of_int \<bar>m\<bar> * 2 powi k" using assms(1) by (simp add: abs_mult)
  also have "\<dots> < 2 ^ 53 * 2 powi k"
  proof -
    have "(of_int \<bar>m\<bar>::real) < of_int (2 ^ 53)" using assms(2) by (simp only: of_int_less_iff)
    then show ?thesis by simp
  qed
  also have "\<dots> = 2 powi (53 + k)"
    using power_int_add[of "2::real" 53 k] by simp
  finally have "(2::real) powi e < 2 powi (53 + k)" using b by simp
  then have "e < 53 + k" by (metis not_less power_int_increasing one_le_numeral)
  then have j: "0 \<le> k - (e - 52)" by simp
  define j where "j = nat (k - (e - 52))"
  have pk: "(2::real) powi k = 2 ^ j * 2 powi (e - 52)"
  proof -
    have "(2::real) powi k = 2 powi (int j + (e - 52))" using j by (simp add: j_def)
    also have "\<dots> = 2 powi (int j) * 2 powi (e - 52)" by (rule power_int_add) simp
    finally show ?thesis by simp
  qed
  have q: "x / 2 powi (e - 52) = of_int (m * 2 ^ j)"
    unfolding assms(1) pk by simp
  show ?thesis
    using x0 unfolding fl_def e_def[symmetric] q rne_of_int
    by (simp add: assms(1) pk)
qed

lemma fl_mono_pos:
  assumes "0 < x" "x \<le> y"
  shows "fl x \<le> fl y"
proof -
  have y0: "0 < y" using assms by simp
  define sx where "sx = (2::real) powi (expo x - 52)"
  define sy where "sy = (2::real) powi (expo y - 52)"
  note fx = fl_pos_form[OF assms(1), folded sx_def]
  note fy = fl_pos_form[OF y0, folded sy_def]
  from expo_bounds[OF assms(1)] expo_bounds[OF y0]
  have "(2::real) powi (expo x) < 2 powi (expo y + 1)" using assms(2) by linarith
  then have le: "expo x < expo y + 1" by (metis not_less power_int_increasing one_le_numeral)
  show ?thesis
  proof (cases "expo x = expo y")
    case True
    then have s: "sx = sy" by (simp add: sx_def sy_def)
    have "x / sy \<le> y / sy" using assms(2) fy(2) by (simp add: divide_right_mono)
    then have "rne (x / sy) \<le> rne (y / sy)" by (rule rne_mono)
    then have "(of_int (rne (x / sy))::real) \<le> of_int (rne (y / sy))" by simp
    then show ?thesis unfolding fx(1) fy(1) s using fy(2) by (simp add: mult_right_mono)
  next
    case False
    then have lt: "expo x + 1 \<le> expo y" using le by simp
    have "\<lfloor>x / sx\<rfloor> < 2 ^ 53" using fx(4) by (simp add: floor_less_iff)
    then have "rne (x / sx) \<le> 2 ^ 53" using rne_cases[of "x / sx"] by auto
    then have "(of_int (rne (x / sx))::real) \<le> of_int (2 ^ 53)" by (simp only: of_int_le_iff)
    then have "fl x \<le> 2 ^ 53 * sx" unfolding fx(1) using fx(2) by (simp add: mult_right_mono)
    also have "\<dots> = 2 powi (expo x + 1)"
      unfolding sx_def by (rule pow2_53[symmetric])
    also have "\<dots> \<le> 2 powi (expo y)" using lt by (simp add: power_int_increasing)
    also have "\<dots> = 2 ^ 52 * sy"
      unfolding sy_def by (rule pow2_52)
    also have "\<dots> \<le> fl y"
    proof -
      have "(2::int) ^ 52 \<le> \<lfloor>y / sy\<rfloor>" using fy(3) by (simp add: le_floor_iff)
      then have "2 ^ 52 \<le> rne (y / sy)" using rne_cases[of "y / sy"] by auto
      then have "(of_int (2 ^ 52)::real) \<le> of_int (rne (y / sy))" by (simp only: of_int_le_iff)
      then show ?thesis unfolding fy(1) using fy(2) by (simp add: mult_right_mono)
    qed
    finally show ?thesis .
  qed
qed

lemma fl_err_pos:
  assumes "0 < x"
  shows "\<bar>fl x - x\<bar> \<le> x / 2 ^ 53"
proof -
  define s where "s = (2::real) powi (expo x - 52)"
  note f = fl_pos_form[OF assms, folded s_def]
  have "fl x - x = (of_int (rne (x / s)) - x / s) * s"
    unfolding f(1) using f(2) by (simp add: field_simps)
  then have "\<bar>fl x - x\<bar> = \<bar>of_int (rne (x / s)) - x / s\<bar> * s"
    using f(2) by (simp add: abs_mult)
  also have "\<dots> \<le> 1 / 2 * s"
    using rne_err[of "x / s"] f(2) by (simp add: mult_right_mono)
  also have "\<dots> \<le> x / 2 ^ 53"
  proof -
    have "2 ^ 52 * s \<le> x" using f(3) f(2) by (simp add: field_simps)
    then show ?thesis by simp
  qed
  finally show ?thesis .
qed

lemma fl_ge_pow2:
  assumes "0 < x"
  shows "2 powi (expo x) \<le> fl x"
proof -
  define s where "s = (2::real) powi (expo x - 52)"
  note f = fl_pos_form[OF assms, folded s_def]
  have "(2::int) ^ 52 \<le> \<lfloor>x / s\<rfloor>" using f(3) by (simp add: le_floor_iff)
  then have "2 ^ 52 \<le> rne (x / s)" using rne_cases[of "x / s"] by auto
  then have "(of_int (2 ^ 52)::real) \<le> of_int (rne (x / s))" by (simp only: of_int_le_iff)
  then have "2 ^ 52 * s \<le> fl x" unfolding f(1) using f(2) by (simp add: mult_right_mono)
  then show ?thesis unfolding s_def pow2_52[symmetric] .
qed

lemma fl_pos: "0 < x \<Longrightarrow> 0 < fl x"
proof -
  assume "0 < x"
  then have "2 powi (expo x) \<le> fl x" by (rule fl_ge_pow2)
  moreover have "(0::real) < 2 powi (expo x)" by simp
  ultimately show ?thesis by linarith
qed

lemma fl_nonneg: "0 \<le> x \<Longrightarrow> 0 \<le> fl x"
  using fl_pos[of x] by (cases "x = 0") auto

lemma rne_minus: "rne (- z) = - rne z"
proof (cases "z \<in> \<int>")
  case True
  then obtain n where "z = of_int n" by (auto elim!: Ints_cases)
  then have "- z = of_int (- n)" by simp
  then show ?thesis unfolding \<open>z = of_int n\<close> by (simp only: rne_of_int)
next
  case False
  define f where "f = \<lfloor>z\<rfloor>"
  define d where "d = z - of_int f"
  have nz: "z \<noteq> of_int \<lfloor>z\<rfloor>" using False by (metis Ints_of_int)
  have fz: "\<lfloor>- z\<rfloor> = - f - 1"
    using nz unfolding f_def by (simp add: floor_minus ceiling_altdef)
  have d': "- z - of_int (- f - 1) = 1 - d" by (simp add: d_def)
  have r: "rne z = (if d < 1 / 2 then f else if 1 / 2 < d then f + 1 else if even f then f else f + 1)"
    by (simp add: rne_def Let_def f_def d_def)
  have r': "rne (- z) = (if 1 - d < 1 / 2 then - f - 1 else if 1 / 2 < 1 - d then - f - 1 + 1
                         else if even (- f - 1) then - f - 1 else - f - 1 + 1)"
    unfolding rne_def Let_def fz d' by simp
  show ?thesis unfolding r r' by auto
qed

lemma fl_minus: "fl (- x) = - fl x"
  by (simp add: fl_def rne_minus)

lemma fl_numeral: "(numeral n::int) < 2 ^ 53 \<Longrightarrow> fl (numeral n) = numeral n"
  using fl_exact[of "numeral n" "numeral n" 0] by simp

lemma fl_one: "fl 1 = 1"
  using fl_exact[of 1 1 0] by simp

lemma fl_numeral_half: "(numeral n::int) < 2 ^ 53 \<Longrightarrow> fl (numeral n / 2) = numeral n / 2"
  using fl_exact[of "numeral n / 2" "numeral n" "- 1"] by (simp add: power_int_minus field_simps)

lemma fl_numeral_quarter: "(numeral n::int) < 2 ^ 53 \<Longrightarrow> fl (numeral n / 4) = numeral n / 4"
  using fl_exact[of "numeral n / 4" "numeral n" "- 2"] by (simp add: power_int_minus field_simps)

lemma fl_half: "fl (1 / 2) = 1 / 2"
  using fl_exact[of "1 / 2" 1 "- 1"] by (simp add: power_int_minus field_simps)

lemma fl_one_quarter: "fl (1 / 4) = 1 / 4"
  using fl_exact[of "1 / 4" 1 "- 2"] by (simp add: power_int_minus field_simps)

lemmas fl_simps = fl_zero fl_one fl_minus fl_numeral fl_numeral_half fl_numeral_quarter fl_half fl_one_quarter

lemma fl_half_int:
  assumes "\<bar>n\<bar> < 2 ^ 53"
  shows "fl (of_int n / 2) = of_int n / 2"
proof (rule fl_exact[where m = n and k = "-1"])
  have "(2::real) powi (- 1) = 1 / 2" by (simp add: power_int_minus field_simps)
  then show "(of_int n::real) / 2 = of_int n * 2 powi (- 1)" by simp
qed (rule assms)

lemma fl_quarter_int:
  assumes "\<bar>n\<bar> < 2 ^ 53"
  shows "fl (of_int n / 4) = of_int n / 4"
proof (rule fl_exact[where m = n and k = "-2"])
  have "(2::real) powi (- 2) = 1 / 4" by (simp add: power_int_minus field_simps)
  then show "(of_int n::real) / 4 = of_int n * 2 powi (- 2)" by simp
qed (rule assms)

lemma fl_int:
  assumes "\<bar>n\<bar> < 2 ^ 53"
  shows "fl (of_int n) = of_int n"
proof (rule fl_exact[where m = n and k = 0])
  show "(of_int n::real) = of_int n * 2 powi 0" by simp
qed (rule assms)

section \<open>Properties of the spatial detector\<close>

text \<open>
  On whole pixels the sides of the boxes and the overlaps are half-integers, the areas are
  quarter-integers, and none of these operations rounds. The quotient and the percentage
  do round, but not across the threshold: the quotient is compared with \<open>1 / 20\<close>
  through the monotonicity of the rounding (\<open>pct_threshold\<close>).
\<close>

lemma halfInt_min: "halfInt B a \<Longrightarrow> halfInt B b \<Longrightarrow> halfInt B (min a b)"
  by (simp add: min_def)

lemma halfInt_max: "halfInt B a \<Longrightarrow> halfInt B b \<Longrightarrow> halfInt B (max a b)"
  by (simp add: max_def)

lemma halfInt_sub:
  assumes "halfInt B a" "halfInt B b" "2 * B < 2 ^ 53"
  shows "jsub a b = a - b" "halfInt (2 * B) (a - b)"
proof -
  from assms obtain n m where a: "a = of_int n / 2" "\<bar>n\<bar> \<le> B" and b: "b = of_int m / 2" "\<bar>m\<bar> \<le> B"
    by (auto simp add: halfInt_def)
  have d: "a - b = of_int (n - m) / 2" by (simp add: a b diff_divide_distrib)
  have bd: "\<bar>n - m\<bar> \<le> 2 * B" using a(2) b(2) by linarith
  then have "\<bar>n - m\<bar> < 2 ^ 53" using assms(3) by simp
  then show "jsub a b = a - b" unfolding jsub_def d by (rule fl_half_int)
  show "halfInt (2 * B) (a - b)" unfolding halfInt_def using d bd by blast
qed

lemma bounds_whole:
  assumes "l \<in> \<int>" "w \<in> \<int>" "\<bar>l\<bar> \<le> 2 ^ 22" "\<bar>w\<bar> \<le> 2 ^ 22"
  shows "jsub l (jdiv w 2) = l - w / 2" "jadd l (jdiv w 2) = l + w / 2"
    "halfInt (3 * 2 ^ 22) (l - w / 2)" "halfInt (3 * 2 ^ 22) (l + w / 2)"
proof -
  from assms obtain a b where l: "l = of_int a" and w: "w = of_int b" by (auto elim!: Ints_cases)
  have ab: "\<bar>a\<bar> \<le> 2 ^ 22" "\<bar>b\<bar> \<le> 2 ^ 22"
    using assms(3,4) unfolding l w by (metis of_int_abs of_int_le_iff of_int_numeral of_int_power)+
  have b53: "\<bar>b\<bar> < 2 ^ 53" using ab(2) by simp
  have h: "jdiv w 2 = w / 2" unfolding jdiv_def w using b53 by (rule fl_half_int)
  have m: "l - w / 2 = of_int (2 * a - b) / 2" by (simp add: l w diff_divide_distrib)
  have p: "l + w / 2 = of_int (2 * a + b) / 2" by (simp add: l w add_divide_distrib)
  have bm: "\<bar>2 * a - b\<bar> \<le> 3 * 2 ^ 22" using ab by simp
  have bp: "\<bar>2 * a + b\<bar> \<le> 3 * 2 ^ 22" using ab by simp
  have bm53: "\<bar>2 * a - b\<bar> < 2 ^ 53" using bm by simp
  have bp53: "\<bar>2 * a + b\<bar> < 2 ^ 53" using bp by simp
  show "jsub l (jdiv w 2) = l - w / 2" unfolding h jsub_def m using bm53 by (rule fl_half_int)
  show "jadd l (jdiv w 2) = l + w / 2" unfolding h jadd_def p using bp53 by (rule fl_half_int)
  show "halfInt (3 * 2 ^ 22) (l - w / 2)" unfolding halfInt_def using m bm by blast
  show "halfInt (3 * 2 ^ 22) (l + w / 2)" unfolding halfInt_def using p bp by blast
qed

lemma overlap_whole:
  assumes "halfInt (3 * 2 ^ 22) r1" "halfInt (3 * 2 ^ 22) r2" "halfInt (3 * 2 ^ 22) l1" "halfInt (3 * 2 ^ 22) l2"
  shows "max 0 (jsub (min r1 r2) (max l1 l2)) = max 0 (min r1 r2 - max l1 l2)"
    "\<exists>n. max 0 (min r1 r2 - max l1 l2) = of_int n / 2 \<and> 0 \<le> n \<and> n \<le> 6 * 2 ^ 22"
proof -
  note s = halfInt_sub[OF halfInt_min[OF assms(1,2)] halfInt_max[OF assms(3,4)]]
  show "max 0 (jsub (min r1 r2) (max l1 l2)) = max 0 (min r1 r2 - max l1 l2)"
    using s(1) by simp
  from s(2) obtain n where n: "min r1 r2 - max l1 l2 = of_int n / 2" "\<bar>n\<bar> \<le> 2 * (3 * 2 ^ 22)"
    by (auto simp add: halfInt_def)
  show "\<exists>n. max 0 (min r1 r2 - max l1 l2) = of_int n / 2 \<and> 0 \<le> n \<and> n \<le> 6 * 2 ^ 22"
  proof (cases "0 \<le> n")
    case True
    then have "max 0 (min r1 r2 - max l1 l2) = of_int n / 2" unfolding n(1) by simp
    then show ?thesis using True n(2) by (intro exI[of _ n]) simp
  next
    case False
    then have "max 0 (min r1 r2 - max l1 l2) = of_int 0 / 2" unfolding n(1) by simp
    then show ?thesis by (intro exI[of _ 0]) simp
  qed
qed

lemma fl_one_twentieth: "fl (1 / 20) = 3602879701896397 / 2 ^ 56"
  by code_simp

lemma fl_upper:
  assumes "0 < x"
  shows "fl x \<le> x * (1 + 1 / 2 ^ 53)"
proof -
  have "fl x - x \<le> \<bar>fl x - x\<bar>" by simp
  also have "\<dots> \<le> x / 2 ^ 53" by (rule fl_err_pos[OF assms])
  finally have "fl x \<le> x + x / 2 ^ 53" by linarith
  then show ?thesis by (simp add: algebra_simps)
qed

lemma pct_threshold:
  assumes A: "A = of_int n / 4" "0 \<le> n" and B: "B = of_int b" "0 < b" "b \<le> 2 ^ 44"
  shows "(5 \<le> jmul (jdiv A B) 100) = (5 \<le> A / B * 100)"
proof (cases "5 \<le> A / B * 100")
  case True
  have B0: "0 < B" using B by simp
  have "5 / 100 \<le> A / B * 100 / 100" using True by (rule divide_right_mono) simp
  then have x: "1 / 20 \<le> A / B" by simp
  have "fl (1 / 20) \<le> fl (A / B)" by (rule fl_mono_pos[OF _ x]) simp
  then have q: "3602879701896397 / 2 ^ 56 \<le> jdiv A B" unfolding fl_one_twentieth jdiv_def .
  have "(5::real) \<le> 3602879701896397 / 2 ^ 56 * 100" by simp
  also have "\<dots> \<le> jdiv A B * 100" using q by simp
  finally have y: "5 \<le> jdiv A B * 100" .
  have "fl 5 \<le> fl (jdiv A B * 100)" by (rule fl_mono_pos[OF _ y]) simp
  moreover have "fl 5 = 5" using fl_int[of 5] by simp
  ultimately show ?thesis using True by (simp add: jmul_def)
next
  case False
  show ?thesis
  proof (cases "n = 0")
    case True
    then show ?thesis using False by (simp add: A jdiv_def jmul_def)
  next
    case n0: False
    then have n1: "0 < n" using A(2) by simp
    have B0: "0 < B" using B by simp
    have A0: "0 < A" using n1 A(1) by simp
    define x where "x = A / B"
    have x0: "0 < x" using A0 B0 by (simp add: x_def)
    have "A * 100 < 5 * B" using False B0 by (simp add: field_simps)
    then have "of_int (5 * n) < (of_int b::real)" unfolding A(1) B(1) by simp
    then have "5 * n < b" by (simp only: of_int_less_iff)
    then have "5 * n + 1 \<le> b" by simp
    then have "(of_int (5 * n + 1)::real) \<le> of_int b" by (simp only: of_int_le_iff)
    then have le: "5 * of_int n + 1 \<le> B" unfolding B(1) by simp
    have xb: "x \<le> 1 / 20 - 1 / (20 * B)"
      unfolding x_def A(1) using le B0 by (simp add: field_simps)
    have Bb: "B \<le> 2 ^ 44"
    proof -
      have "(of_int b::real) \<le> of_int (2 ^ 44)" using B(3) by (simp only: of_int_le_iff)
      then show ?thesis unfolding B(1) by simp
    qed
    have "1 / (20 * 2 ^ 44) \<le> 1 / (20 * B)" using Bb B0 by (simp add: field_simps)
    then have xu: "x \<le> 1 / 20 - 1 / (20 * 2 ^ 44)" using xb by linarith
    define q where "q = fl x"
    have q0: "0 < q" unfolding q_def by (rule fl_pos[OF x0])
    have qu: "q \<le> x * (1 + 1 / 2 ^ 53)" unfolding q_def by (rule fl_upper[OF x0])
    have y0: "0 < q * 100" using q0 by simp
    have "fl (q * 100) \<le> q * 100 * (1 + 1 / 2 ^ 53)" by (rule fl_upper[OF y0])
    also have "\<dots> \<le> x * (1 + 1 / 2 ^ 53) * 100 * (1 + 1 / 2 ^ 53)"
      using qu by (simp add: mult_right_mono)
    also have "\<dots> \<le> (1 / 20 - 1 / (20 * 2 ^ 44)) * (1 + 1 / 2 ^ 53) * 100 * (1 + 1 / 2 ^ 53)"
      using xu by (simp add: mult_right_mono)
    also have "\<dots> < 5" by simp
    finally have "fl (q * 100) < 5" .
    then show ?thesis using False by (simp add: jmul_def jdiv_def q_def x_def)
  qed
qed

lemma overlap_product:
  assumes "0 < twidth t1" "0 < theight t1" "0 \<le> twidth t2" "0 \<le> theight t2"
  shows "max 0 (min (b_right (tokenBox t1)) (b_right (tokenBox t2)) - max (b_left (tokenBox t1)) (b_left (tokenBox t2))) *
         max 0 (min (b_bottom (tokenBox t1)) (b_bottom (tokenBox t2)) - max (b_top (tokenBox t1)) (b_top (tokenBox t2))) =
         intersectionArea (tokenBox t1) (tokenBox t2)"
  using assms
  by (auto simp: intersectionArea_def tokenBox_def max_def min_def)

lemmas jops = jadd_def jsub_def jmul_def jdiv_def

lemma rounding_values:
  "fl (4095460911140045 / 70368744177664) = 4095460911140045 / 70368744177664 \<and>
   fl (9021273003576525 / 70368744177664) = 2255318250894131 / 17592186044416 \<and>
   fl (4925812092436479 / 70368744177664) = 4925812092436479 / 70368744177664 \<and>
   fl (34480684647055353 / 140737488355328) = 4310085580881919 / 17592186044416 \<and>
   fl (4310085580881919 / 86201711617638400) = 900719925474099 / 18014398509481984 \<and>
   fl (22517998136852475 / 4503599627370496) = 5629499534213119 / 1125899906842624 \<and>
   fl (4595078994801459 / 70368744177664) = 4595078994801459 / 70368744177664 \<and>
   fl (9520891087237939 / 70368744177664) = 2380222771809485 / 17592186044416 \<and>
   fl (2318650120654029 / 17592186044416) = 2318650120654029 / 17592186044416 \<and>
   fl (3550103143763149 / 17592186044416) = 3550103143763149 / 17592186044416 \<and>
   fl (1 / 20) = 3602879701896397 / 72057594037927936 \<and>
   fl (90071992547409925 / 18014398509481984) = 5"
  by code_simp

text \<open>
  C8 as stated fails on the code, in both directions, once a position is not a whole pixel.
  Two tokens 70 by 70 at the same height 93.2 (the double nearest to it), the second 66.5 to
  the right: the boxes overlap in exactly 5 percent of the first, but the height of the
  overlap is computed as 69.99999999999999, the percentage as 4.999999999999999, and the
  test does not fire. Two tokens 70 by 70 at height 105, at 100.3 and 166.8 (the doubles
  nearest to them): the overlap is below 5 percent, the width of the overlap is computed as
  3.5, the percentage as 5, and the test fires.
\<close>

theorem checkGridOverlap_rounding:
  "overlapPercent (tokenBox (mkToken 100 (6558366957358285 / 70368744177664) 70 70 []))
                  (tokenBox (mkToken (333 / 2) (6558366957358285 / 70368744177664) 70 70 [])) = 5 \<and>
   \<not> checkGridOverlap Map.empty (Some (mkToken 100 (6558366957358285 / 70368744177664) 70 70 []))
                                (Some (mkToken (333 / 2) (6558366957358285 / 70368744177664) 70 70 [])) \<and>
   overlapPercent (tokenBox (mkToken (7057985041019699 / 70368744177664) 105 70 70 []))
                  (tokenBox (mkToken (2934376632208589 / 17592186044416) 105 70 70 [])) < 5 \<and>
   checkGridOverlap Map.empty (Some (mkToken (7057985041019699 / 70368744177664) 105 70 70 []))
                              (Some (mkToken (2934376632208589 / 17592186044416) 105 70 70 []))"
proof -
  have v: "fl (4095460911140045 / 70368744177664) = 4095460911140045 / 70368744177664"
   "fl (9021273003576525 / 70368744177664) = 2255318250894131 / 17592186044416"
   "fl (4925812092436479 / 70368744177664) = 4925812092436479 / 70368744177664"
   "fl (34480684647055353 / 140737488355328) = 4310085580881919 / 17592186044416"
   "fl (4310085580881919 / 86201711617638400) = 900719925474099 / 18014398509481984"
   "fl (22517998136852475 / 4503599627370496) = 5629499534213119 / 1125899906842624"
   "fl (4595078994801459 / 70368744177664) = 4595078994801459 / 70368744177664"
   "fl (9520891087237939 / 70368744177664) = 2380222771809485 / 17592186044416"
   "fl (2318650120654029 / 17592186044416) = 2318650120654029 / 17592186044416"
   "fl (3550103143763149 / 17592186044416) = 3550103143763149 / 17592186044416"
   "fl (1 / 20) = 3602879701896397 / 72057594037927936"
   "fl (90071992547409925 / 18014398509481984) = 5"
    using rounding_values by blast+
  have 1: "overlapPercent (tokenBox (mkToken 100 (6558366957358285 / 70368744177664) 70 70 []))
                  (tokenBox (mkToken (333 / 2) (6558366957358285 / 70368744177664) 70 70 [])) = 5"
    by (simp add: overlapPercent_def intersectionArea_def boxArea_def tokenBox_def mkToken_def)
  have 2: "\<not> checkGridOverlap Map.empty (Some (mkToken 100 (6558366957358285 / 70368744177664) 70 70 []))
                                (Some (mkToken (333 / 2) (6558366957358285 / 70368744177664) 70 70 []))"
    by (simp add: checkGridOverlap_def getTokenGridCoords_def boundsOf_def xOverlap_def yOverlap_def
        mkToken_def Let_def jops fl_simps v)
  have 3: "overlapPercent (tokenBox (mkToken (7057985041019699 / 70368744177664) 105 70 70 []))
                  (tokenBox (mkToken (2934376632208589 / 17592186044416) 105 70 70 [])) < 5"
    by (simp add: overlapPercent_def intersectionArea_def boxArea_def tokenBox_def mkToken_def)
  have 4: "checkGridOverlap Map.empty (Some (mkToken (7057985041019699 / 70368744177664) 105 70 70 []))
                              (Some (mkToken (2934376632208589 / 17592186044416) 105 70 70 []))"
    by (simp add: checkGridOverlap_def getTokenGridCoords_def boundsOf_def xOverlap_def yOverlap_def
        mkToken_def Let_def jops fl_simps v)
  from 1 2 3 4 show ?thesis by blast
qed

text \<open>
  C8, amended: for tokens placed on whole pixels (position and size integers of magnitude
  at most \<open>2 ^ 22\<close>), the first of positive size, \<^verbatim>\<open>checkGridOverlap\<close> fires exactly
  when the intersection area of the two bounding boxes, divided by the area of the moved
  token's own box and taken as a percentage, is at least 5. The right-hand side is the
  exact percentage; the left-hand side is the source, with its rounding.
\<close>

theorem checkGridOverlap_threshold:
  assumes "wholePixels t1" "wholePixels t2"
    and "0 < twidth t1" "0 < theight t1" "0 \<le> twidth t2" "0 \<le> theight t2"
  shows "checkGridOverlap pages (Some t1) (Some t2) \<longleftrightarrow>
         5 \<le> overlapPercent (tokenBox t1) (tokenBox t2)"
proof -
  have w1: "tleft t1 \<in> \<int>" "ttop t1 \<in> \<int>" "twidth t1 \<in> \<int>" "theight t1 \<in> \<int>"
    "\<bar>tleft t1\<bar> \<le> 2 ^ 22" "\<bar>ttop t1\<bar> \<le> 2 ^ 22" "\<bar>twidth t1\<bar> \<le> 2 ^ 22" "\<bar>theight t1\<bar> \<le> 2 ^ 22"
    using assms(1) by (simp_all add: wholePixels_def)
  have w2: "tleft t2 \<in> \<int>" "ttop t2 \<in> \<int>" "twidth t2 \<in> \<int>" "theight t2 \<in> \<int>"
    "\<bar>tleft t2\<bar> \<le> 2 ^ 22" "\<bar>ttop t2\<bar> \<le> 2 ^ 22" "\<bar>twidth t2\<bar> \<le> 2 ^ 22" "\<bar>theight t2\<bar> \<le> 2 ^ 22"
    using assms(2) by (simp_all add: wholePixels_def)
  note x1 = bounds_whole[OF w1(1) w1(3) w1(5) w1(7)]
  note y1 = bounds_whole[OF w1(2) w1(4) w1(6) w1(8)]
  note x2 = bounds_whole[OF w2(1) w2(3) w2(5) w2(7)]
  note y2 = bounds_whole[OF w2(2) w2(4) w2(6) w2(8)]
  define c1 where "c1 = the (getTokenGridCoords pages (Some t1))"
  define c2 where "c2 = the (getTokenGridCoords pages (Some t2))"
  have g1: "getTokenGridCoords pages (Some t1) = Some c1"
    by (simp add: c1_def getTokenGridCoords_def Let_def)
  have g2: "getTokenGridCoords pages (Some t2) = Some c2"
    by (simp add: c2_def getTokenGridCoords_def Let_def)
  have f1: "pixelX c1 = tleft t1" "pixelY c1 = ttop t1" "tokenWidth c1 = twidth t1" "tokenHeight c1 = theight t1"
    by (simp_all add: c1_def getTokenGridCoords_def Let_def)
  have f2: "pixelX c2 = tleft t2" "pixelY c2 = ttop t2" "tokenWidth c2 = twidth t2" "tokenHeight c2 = theight t2"
    by (simp_all add: c2_def getTokenGridCoords_def Let_def)
  have b1: "boundsOf c1 = tokenBox t1"
    by (simp add: boundsOf_def tokenBox_def f1 x1 y1)
  have b2: "boundsOf c2 = tokenBox t2"
    by (simp add: boundsOf_def tokenBox_def f2 x2 y2)
  have hx: "halfInt (3 * 2 ^ 22) (b_right (tokenBox t1))" "halfInt (3 * 2 ^ 22) (b_right (tokenBox t2))"
    "halfInt (3 * 2 ^ 22) (b_left (tokenBox t1))" "halfInt (3 * 2 ^ 22) (b_left (tokenBox t2))"
    using x1(3,4) x2(3,4) by (simp_all add: tokenBox_def)
  have hy: "halfInt (3 * 2 ^ 22) (b_bottom (tokenBox t1))" "halfInt (3 * 2 ^ 22) (b_bottom (tokenBox t2))"
    "halfInt (3 * 2 ^ 22) (b_top (tokenBox t1))" "halfInt (3 * 2 ^ 22) (b_top (tokenBox t2))"
    using y1(3,4) y2(3,4) by (simp_all add: tokenBox_def)
  note ox = overlap_whole[OF hx]
  note oy = overlap_whole[OF hy]
  define X where "X = max 0 (min (b_right (tokenBox t1)) (b_right (tokenBox t2)) - max (b_left (tokenBox t1)) (b_left (tokenBox t2)))"
  define Y where "Y = max 0 (min (b_bottom (tokenBox t1)) (b_bottom (tokenBox t2)) - max (b_top (tokenBox t1)) (b_top (tokenBox t2)))"
  have xo: "xOverlap (tokenBox t1) (tokenBox t2) = X" unfolding xOverlap_def X_def by (rule ox(1))
  have yo: "yOverlap (tokenBox t1) (tokenBox t2) = Y" unfolding yOverlap_def Y_def by (rule oy(1))
  from ox(2) obtain n where n: "X = of_int n / 2" "0 \<le> n" "n \<le> 6 * 2 ^ 22" unfolding X_def by blast
  from oy(2) obtain m where m: "Y = of_int m / 2" "0 \<le> m" "m \<le> 6 * 2 ^ 22" unfolding Y_def by blast
  have XY: "X * Y = of_int (n * m) / 4" by (simp add: n m)
  have nm0: "0 \<le> n * m" using n(2) m(2) by simp
  have "n * m \<le> (6 * 2 ^ 22) * (6 * 2 ^ 22)" using n(2,3) m(2,3) by (intro mult_mono) simp_all
  then have nm53: "\<bar>n * m\<bar> < 2 ^ 53" using nm0 by simp
  have area: "jmul X Y = X * Y" unfolding jmul_def XY using nm53 by (rule fl_quarter_int)
  have inter: "X * Y = intersectionArea (tokenBox t1) (tokenBox t2)"
    unfolding X_def Y_def by (rule overlap_product[OF assms(3-6)])
  obtain a b where ab: "twidth t1 = of_int a" "theight t1 = of_int b"
    using w1(3,4) by (auto elim!: Ints_cases)
  have ab0: "0 < a" "0 < b" using assms(3,4) unfolding ab by simp_all
  have abb: "a \<le> 2 ^ 22" "b \<le> 2 ^ 22"
    using w1(7,8) ab0 unfolding ab by (metis abs_of_pos of_int_0_less_iff of_int_le_iff of_int_numeral of_int_power)+
  have wh: "twidth t1 * theight t1 = of_int (a * b)" by (simp add: ab)
  have a0: "0 < a * b" using ab0 by simp
  have "a * b \<le> 2 ^ 22 * 2 ^ 22" using ab0 abb by (intro mult_mono) simp_all
  then have ab44: "a * b \<le> 2 ^ 44" by simp
  then have "\<bar>a * b\<bar> < 2 ^ 53" using a0 by simp
  then have area1: "jmul (twidth t1) (theight t1) = twidth t1 * theight t1"
    unfolding jmul_def wh by (rule fl_int)
  have ne: "twidth t1 * theight t1 \<noteq> 0" using assms(3,4) by simp
  have box: "boxArea (tokenBox t1) = twidth t1 * theight t1"
    by (simp add: boxArea_def tokenBox_def)
  have "checkGridOverlap pages (Some t1) (Some t2) = (5 \<le> jmul (jdiv (X * Y) (twidth t1 * theight t1)) 100)"
    using ne by (simp add: checkGridOverlap_def g1 g2 Let_def b1 b2 xo yo area f1 area1)
  also have "\<dots> = (5 \<le> X * Y / (twidth t1 * theight t1) * 100)"
    by (rule pct_threshold[OF XY nm0 wh a0 ab44])
  also have "\<dots> = (5 \<le> overlapPercent (tokenBox t1) (tokenBox t2))"
    by (simp add: overlapPercent_def inter box)
  finally show ?thesis .
qed

text \<open>
  The theorem of C8 at a 100 by 100 token and a trap covering a strip 5 wide of it: the overlap
  is exactly 5 percent, and the test fires; and at a 10000 by 100 token and a trap covering
  a strip 499 wide of it: the overlap is 4.99 percent, and the test does not fire.
\<close>

theorem checkGridOverlap_threshold_witness:
  "overlapPercent (tokenBox (mkToken 50 50 100 100 [])) (tokenBox (mkToken (- 45) 50 100 100 [])) = 5 \<and>
   checkGridOverlap Map.empty (Some (mkToken 50 50 100 100 [])) (Some (mkToken (- 45) 50 100 100 [])) \<and>
   overlapPercent (tokenBox (mkToken 5000 50 10000 100 [])) (tokenBox (mkToken (- 4501) 50 10000 100 [])) = 499 / 100 \<and>
   \<not> checkGridOverlap Map.empty (Some (mkToken 5000 50 10000 100 [])) (Some (mkToken (- 4501) 50 10000 100 []))"
proof -
  have w: "wholePixels (mkToken 50 50 100 100 [])" "wholePixels (mkToken (- 45) 50 100 100 [])"
    "wholePixels (mkToken 5000 50 10000 100 [])" "wholePixels (mkToken (- 4501) 50 10000 100 [])"
    by (simp_all add: wholePixels_def mkToken_def)
  have p1: "overlapPercent (tokenBox (mkToken 50 50 100 100 [])) (tokenBox (mkToken (- 45) 50 100 100 [])) = 5"
    by (simp add: overlapPercent_def intersectionArea_def boxArea_def tokenBox_def mkToken_def)
  have p2: "overlapPercent (tokenBox (mkToken 5000 50 10000 100 [])) (tokenBox (mkToken (- 4501) 50 10000 100 [])) = 499 / 100"
    by (simp add: overlapPercent_def intersectionArea_def boxArea_def tokenBox_def mkToken_def)
  have c1: "checkGridOverlap Map.empty (Some (mkToken 50 50 100 100 [])) (Some (mkToken (- 45) 50 100 100 []))"
    using checkGridOverlap_threshold[OF w(1,2), of Map.empty] p1 by (simp add: mkToken_def)
  have c2: "\<not> checkGridOverlap Map.empty (Some (mkToken 5000 50 10000 100 [])) (Some (mkToken (- 4501) 50 10000 100 []))"
    using checkGridOverlap_threshold[OF w(3,4), of Map.empty] p2 by (simp add: mkToken_def)
  from p1 p2 c1 c2 show ?thesis by blast
qed



lemma jsqrt_square: "0 \<le> r \<Longrightarrow> jsqrt (r * r) = fl r"
  by (simp add: jsqrt_def)


lemma jsqrt_ge:
  assumes "0 < a" "a * a \<le> S"
  shows "fl a \<le> jsqrt S"
proof -
  have "sqrt (a * a) \<le> sqrt S" using assms(2) by (simp only: real_sqrt_le_iff)
  then have "a \<le> sqrt S" using assms(1) by simp
  then show ?thesis unfolding jsqrt_def by (rule fl_mono_pos[OF assms(1)])
qed

lemma sample_values:
  "fl (1 / 5) = 3602879701896397 / 18014398509481984 \<and>
   fl (1 / 20) = 3602879701896397 / 72057594037927936 \<and>
   fl (126100789566373895 / 36028797018963968) = 7 / 2 \<and>
   fl (126100789566373895 / 9007199254740992) = 14"
  by code_simp

lemma sample_fl:
  "fl (1 / 5) = 3602879701896397 / 18014398509481984"
  "fl (1 / 20) = 3602879701896397 / 72057594037927936"
  "fl (126100789566373895 / 36028797018963968) = 7 / 2"
  "fl (126100789566373895 / 9007199254740992) = 14"
  using sample_values by blast+
















text \<open>
  Two paths decided by the rounding. From (0.7, 105) to (14.7, 105) past a trap at
  (35, 105): the difference of the two doubles is below 14, the source computes 14, the
  guard lets the path through and the start, inside the box, is returned. From (131.8, 105)
  to (181.8, 105) past a trap at (93.3, 105): the right expanded edge \<open>93.3 + 35 + 3.5\<close> is
  computed as the double 131.8, which is above the exact sum, and the start, on it, counts as inside.
\<close>

lemma boundary_values:
  "fl (63050394783186941 / 4503599627370496) = 14 \<and>
   fl (4102497785557811 / 70368744177664) = 4102497785557811 / 70368744177664 \<and>
   fl (3856207180935987 / 70368744177664) = 3856207180935987 / 70368744177664 \<and>
   fl (9028309877994291 / 70368744177664) = 2257077469498573 / 17592186044416 \<and>
   fl (2318650120654029 / 17592186044416) = 2318650120654029 / 17592186044416"
  by code_simp

lemma checkLineIntersection_rounded_boundaries:
  "checkLineIntersection Map.empty (3152519739159347 / 4503599627370496) 105
       (4137682157646643 / 281474976710656) 105 (Some (mkToken 35 105 70 70 [])) =
     Some \<lparr>p_x = 3152519739159347 / 4503599627370496, p_y = 105\<rparr>"
  "checkLineIntersection Map.empty (2318650120654029 / 17592186044416) 105
       (3198259422874829 / 17592186044416) 105
       (Some (mkToken (6565403831776051 / 70368744177664) 105 70 70 [])) =
     Some \<lparr>p_x = 2318650120654029 / 17592186044416, p_y = 105\<rparr>"
proof -
  have v: "fl (63050394783186941 / 4503599627370496) = 14"
   "fl (4102497785557811 / 70368744177664) = 4102497785557811 / 70368744177664"
   "fl (3856207180935987 / 70368744177664) = 3856207180935987 / 70368744177664"
   "fl (9028309877994291 / 70368744177664) = 2257077469498573 / 17592186044416"
   "fl (2318650120654029 / 17592186044416) = 2318650120654029 / 17592186044416"
    using boundary_values by blast+
  have s: "sqrt 196 = 14" "sqrt 2500 = 50"
    using real_sqrt_abs2[of 14] real_sqrt_abs2[of 50] by simp_all
  show "checkLineIntersection Map.empty (3152519739159347 / 4503599627370496) 105
       (4137682157646643 / 281474976710656) 105 (Some (mkToken 35 105 70 70 [])) =
     Some \<lparr>p_x = 3152519739159347 / 4503599627370496, p_y = 105\<rparr>"
    by (simp add: checkLineIntersection_def getTokenGridCoords_def getPageSettings_def mkToken_def
        DEFAULT_GRID_SIZE_def DEFAULT_SCALE_def MIN_MOVEMENT_FACTOR_def pathLength_def isInside_def
        boundsOf_def margin_def jsqrt_def Let_def jops fl_simps sample_fl v s)
  show "checkLineIntersection Map.empty (2318650120654029 / 17592186044416) 105
       (3198259422874829 / 17592186044416) 105
       (Some (mkToken (6565403831776051 / 70368744177664) 105 70 70 [])) =
     Some \<lparr>p_x = 2318650120654029 / 17592186044416, p_y = 105\<rparr>"
    by (simp add: checkLineIntersection_def getTokenGridCoords_def getPageSettings_def mkToken_def
        DEFAULT_GRID_SIZE_def DEFAULT_SCALE_def MIN_MOVEMENT_FACTOR_def pathLength_def isInside_def
        boundsOf_def margin_def jsqrt_def Let_def jops fl_simps sample_fl v s)
qed

section \<open>Properties of trap control\<close>

lemma say_fields [simp]:
  "lockedTokens (say msg st) = lockedTokens st"
  "safeMoveTokens (say msg st) = safeMoveTokens st"
  "triggersEnabled (say msg st) = triggersEnabled st"
  "pendingChecks (say msg st) = pendingChecks st"
  "pendingChecksByChar (say msg st) = pendingChecksByChar st"
  "displayDCForCheck (say msg st) = displayDCForCheck st"
  "checkObjects (say msg st) = checkObjects st"
  "graphics (say msg st) = graphics st"
  "nextObject (say msg st) = nextObject st"
  "hostPages (say msg st) = hostPages st"
  "characters (say msg st) = characters st"
  "gmPlayers (say msg st) = gmPlayers st"
  "macros (say msg st) = macros st"
  "timers (say msg st) = timers st"
  "chatLog (say msg st) = chatLog st @ [msg]"
  by (simp_all add: say_def)

lemma onToken_fields [simp]:
  "lockedTokens (onToken i f st) = lockedTokens st"
  "safeMoveTokens (onToken i f st) = safeMoveTokens st"
  "triggersEnabled (onToken i f st) = triggersEnabled st"
  "pendingChecks (onToken i f st) = pendingChecks st"
  "pendingChecksByChar (onToken i f st) = pendingChecksByChar st"
  "displayDCForCheck (onToken i f st) = displayDCForCheck st"
  "checkObjects (onToken i f st) = checkObjects st"
  "nextObject (onToken i f st) = nextObject st"
  "hostPages (onToken i f st) = hostPages st"
  "characters (onToken i f st) = characters st"
  "gmPlayers (onToken i f st) = gmPlayers st"
  "macros (onToken i f st) = macros st"
  "timers (onToken i f st) = timers st"
  "chatLog (onToken i f st) = chatLog st"
  by (simp_all add: onToken_def split: option.splits)

lemma onToken_graphics [simp]:
  "graphics (onToken i f st) j = (if i = j then map_option f (graphics st j) else graphics st j)"
  by (simp add: onToken_def split: option.splits)

lemma syncAura_notes [simp]: "gmnotes (syncAura e tk) = gmnotes tk"
  by (simp add: syncAura_def split: option.splits)

lemma parseToken_Some:
  "graphics st i = Some tk \<Longrightarrow>
   parseToken i st = (parseTrapNotes (gmnotes tk), onToken i (syncAura (triggersEnabled st)) st)"
  by (simp add: parseToken_def)

lemma updateTrapUses_notes:
  "gmnotes tk \<noteq> [] \<Longrightarrow> gmnotes (updateTrapUses e tk cur mx na) = updatedNotes (gmnotes tk) cur mx na"
  by (simp add: updateTrapUses_def Let_def)

text \<open>
  C3. Releasing an entity that holds no lock changes nothing, the chat included; after a
  release the entity holds no lock, so a second release of the same entity is that
  no-op: no further decrement of the trap's uses and no other change.
\<close>

theorem allowMovement_released_is_noop:
  "(lockedTokens st tokenId = None \<longrightarrow> allowMovement tokenId st = st) \<and>
   lockedTokens (allowMovement tokenId st) tokenId = None \<and>
   allowMovement tokenId (allowMovement tokenId st) = allowMovement tokenId st"
proof -
  have 1: "allowMovement tokenId s = s" if "lockedTokens s tokenId = None" for s
    using that by (simp add: allowMovement_def)
  have 2: "lockedTokens (allowMovement tokenId st) tokenId = None"
    by (cases "lockedTokens st tokenId") (simp_all add: allowMovement_def Let_def)
  show ?thesis
    using 1[of st] 1[OF 2] 2 by simp
qed

lemma parse_head_uses:
  assumes "0 \<le> c" "0 \<le> m" "CHR ''%'' \<notin> set rest"
  shows "map_option (\<lambda>d. (currentUses d, maxUses d, isArmed d)) (parseTrapNotes (descriptorHead c m a @ rest)) =
         Some (c, m, a)"
proof -
  let ?d1 = "showNat (nat c)" and ?d2 = "showNat (nat m)"
  let ?r = "unescapeEntities rest"
  let ?H = "''{!traptrigger uses: '' @ ?d1 @ ''/'' @ ?d2 @ '' armed: '' @ armedState a"
  have dg: "list_all isDigit ?d1" "list_all isDigit ?d2"
    by (rule showNat_digits)+
  have ne: "?d1 \<noteq> []" "?d2 \<noteq> []"
    by (rule showNat_nonempty)+
  have H: "descriptorHead c m a = ?H"
    using assms by (simp add: head_unfold)
  have nonempty: "descriptorHead c m a @ rest \<noteq> []"
    by (simp add: descriptorHead_def)
  have dec: "unescapeEntities (tryDecode (descriptorHead c m a @ rest)) = ?H @ ?r"
    unfolding H using tryDecode_head[OF dg assms(3), of a] unescape_head[OF dg, of a rest] by simp
  have marker: "includes_str (?H @ ?r) ''!traptrigger''"
    using includes_marker_head[of "?d1 @ ''/'' @ ?d2 @ '' armed: '' @ armedState a @ ?r"] by simp
  have f_uses: "firstMatch matchUses (?H @ ?r) = Some (?d1, ?d2)"
    using firstMatch_uses_head[OF dg(1) ne(1) dg(2) ne(2), of "''armed: '' @ armedState a @ ?r"] by simp
  have f_armed: "firstMatch matchArmed (?H @ ?r) = Some a"
    using firstMatch_armed_head[OF dg, of a ?r] by simp
  show ?thesis
    unfolding parseTrapNotes_def Let_def dec
    using nonempty marker
    by (simp only: f_uses f_armed if_True if_False not_True_eq_False option.case prod.case
        digitsValue_showNat option.map trapData.simps)
       (simp add: assms)
qed

lemma head_nonempty [simp]: "descriptorHead c m a \<noteq> []"
  by (simp add: descriptorHead_def)

lemma storedDescriptor_head:
  assumes "storedNotes st i = Some (descriptorHead c m a @ rest)"
    "0 \<le> c" "0 \<le> m" "CHR ''%'' \<notin> set rest"
  shows "map_option (\<lambda>d. (currentUses d, maxUses d, isArmed d)) (storedDescriptor st i) = Some (c, m, a)"
  using parse_head_uses[OF assms(2-4), of a] assms(1) by (simp add: storedDescriptor_def)

lemma invariantAt_head:
  assumes "storedNotes st i = Some (descriptorHead c m a @ rest)"
    "0 \<le> c" "c \<le> m" "c = 0 \<Longrightarrow> \<not> a" "CHR ''%'' \<notin> set rest"
  shows "invariantAt st i"
proof -
  have "0 \<le> m" using assms by simp
  from storedDescriptor_head[OF assms(1,2) this assms(5)]
  obtain d where "storedDescriptor st i = Some d" "currentUses d = c" "maxUses d = m" "isArmed d = a"
    by auto
  then show ?thesis
    using assms by (auto simp: invariantAt_def descriptorInvariant_def)
qed

lemma storedNotes_simps [simp]:
  "storedNotes (say msg st) i = storedNotes st i"
  "storedNotes (setAura j col st) i = storedNotes st i"
  "storedNotes (onToken j (syncAura e) st) i = storedNotes st i"
  "storedNotes (st\<lparr>lockedTokens := lt\<rparr>) i = storedNotes st i"
  "storedNotes (st\<lparr>safeMoveTokens := sm\<rparr>) i = storedNotes st i"
  "storedNotes (st\<lparr>chatLog := cl\<rparr>) i = storedNotes st i"
  by (simp_all add: storedNotes_def setAura_def option.map_comp o_def)

lemma storedNotes_lock [simp]:
  "i \<noteq> j \<Longrightarrow> storedNotes (updateTokenLockState j t l st) i = storedNotes st i"
  by (simp add: storedNotes_def updateTokenLockState_def)

lemma storedNotes_parseToken [simp]: "storedNotes (snd (parseToken j st)) i = storedNotes st i"
  by (simp add: parseToken_def split: option.splits)

lemma fst_parseToken: "fst (parseToken j st) = storedDescriptor st j"
  by (simp add: parseToken_def storedDescriptor_def storedNotes_def split: option.splits)

lemma storedNotes_getTrapStatus [simp]: "storedNotes (getTrapStatus j st) i = storedNotes st i"
proof -
  obtain x s1 where p: "parseToken j st = (x, s1)"
    by (cases "parseToken j st") auto
  have "storedNotes s1 i = storedNotes st i"
    using storedNotes_parseToken[of j st i] p by simp
  then show ?thesis
    by (cases x) (simp_all add: getTrapStatus_def p)
qed

lemma storedNotes_showInteractionMenu [simp]: "storedNotes (showInteractionMenu j st) i = storedNotes st i"
  by (simp add: showInteractionMenu_def split: option.splits)

text \<open>What \<^verbatim>\<open>updateTrapUses\<close> leaves on a token whose notes start with the head.\<close>

lemma updateTrapUsesOn_head:
  assumes "storedNotes st i = Some (descriptorHead c m a @ rest)"
    "0 \<le> c" "0 \<le> m" "0 \<le> c'" "0 \<le> m'" "CHR ''%'' \<notin> set rest"
  shows "storedNotes (updateTrapUsesOn i c' m' na st) i =
           Some (descriptorHead c' m' (case na of None \<Rightarrow> a | Some b \<Rightarrow> b) @ rest)"
    and "map_option bar1_value (graphics (updateTrapUsesOn i c' m' na st) i) = Some (Some c')"
proof -
  obtain tk where tk: "graphics st i = Some tk" "gmnotes tk = descriptorHead c m a @ rest"
    using assms(1) by (auto simp: storedNotes_def)
  have g: "graphics (updateTrapUsesOn i c' m' na st) i = Some (updateTrapUses (triggersEnabled st) tk c' m' na)"
    using tk(1) by (simp add: updateTrapUsesOn_def)
  have ne: "gmnotes tk \<noteq> []"
    using tk(2) by simp
  show "storedNotes (updateTrapUsesOn i c' m' na st) i =
           Some (descriptorHead c' m' (case na of None \<Rightarrow> a | Some b \<Rightarrow> b) @ rest)"
    using updatedNotes_head[OF assms(2-6), of a na] ne tk(2)
    by (simp add: storedNotes_def g updateTrapUses_def Let_def)
  show "map_option bar1_value (graphics (updateTrapUsesOn i c' m' na st) i) = Some (Some c')"
    using ne by (simp add: g updateTrapUses_def Let_def)
qed

lemma updateTrapUsesOn_other [simp]:
  "lockedTokens (updateTrapUsesOn i c m na st) = lockedTokens st"
  "triggersEnabled (updateTrapUsesOn i c m na st) = triggersEnabled st"
  by (simp_all add: updateTrapUsesOn_def)

lemma decrementUses_head:
  assumes "storedNotes st i = Some (descriptorHead c m a @ rest)"
    "0 \<le> c" "0 \<le> m" "CHR ''%'' \<notin> set rest" "0 \<le> maxUses d"
  shows "storedNotes (decrementUses i d st) i =
           Some (descriptorHead (max 0 (currentUses d - 1)) (maxUses d) (0 < max 0 (currentUses d - 1)) @ rest)"
proof (cases "max 0 (currentUses d - 1) \<le> 0")
  case True
  then have z: "max 0 (currentUses d - 1) = 0" by simp
  show ?thesis
    using updateTrapUsesOn_head(1)[OF assms(1-3) _ assms(5,4), of 0 "Some False"]
    by (simp add: decrementUses_def Let_def z)
next
  case False
  then show ?thesis
    using updateTrapUsesOn_head(1)[OF assms(1-3) _ assms(5,4), of "max 0 (currentUses d - 1)" "Some True"]
    by (simp add: decrementUses_def Let_def)
qed

lemma toggleTrap_head:
  assumes "storedNotes st i = Some (descriptorHead c m a @ rest)"
    "0 \<le> c" "0 \<le> m" "CHR ''%'' \<notin> set rest"
  shows "storedNotes (toggleTrap i st) i =
           Some (descriptorHead (if \<not> a \<and> c \<le> 0 then 1 else c) m (\<not> a) @ rest)"
proof -
  from storedDescriptor_head[OF assms]
  obtain d where d: "storedDescriptor st i = Some d" "currentUses d = c" "maxUses d = m" "isArmed d = a"
    by auto
  obtain s1 where s1: "parseToken i st = (Some d, s1)"
    using d(1) fst_parseToken[of i st] by (cases "parseToken i st") auto
  have n1: "storedNotes s1 i = Some (descriptorHead c m a @ rest)"
    using storedNotes_parseToken[of i st i] s1 assms(1) by simp
  define nu where "nu = (if \<not> a \<and> c \<le> 0 then 1 else c)"
  define s2 where "s2 = (if \<not> a \<and> c \<le> 0 then say RestoredUseNotice s1 else s1)"
  have n2: "storedNotes s2 i = Some (descriptorHead c m a @ rest)"
    using n1 by (simp add: s2_def)
  have nu: "0 \<le> nu" using assms(2) by (simp add: nu_def)
  have n3: "storedNotes (updateTrapUsesOn i nu m (Some (\<not> a)) s2) i = Some (descriptorHead nu m (\<not> a) @ rest)"
    using updateTrapUsesOn_head(1)[OF n2 assms(2,3) nu assms(3,4), of "Some (\<not> a)"] by simp
  have "storedNotes (toggleTrap i st) i = storedNotes (updateTrapUsesOn i nu m (Some (\<not> a)) s2) i"
    unfolding toggleTrap_def s1 using d(2-4)
    by (simp add: Let_def nu_def s2_def)
  with n3 show ?thesis
    by (simp add: nu_def)
qed

lemma allowMovement_head:
  assumes lock: "lockedTokens st tokenId = Some ld" "trapToken ld = trapId" "tokenId \<noteq> trapId"
    and nts: "storedNotes st trapId = Some (descriptorHead c m a @ rest)"
      "0 \<le> c" "0 \<le> m" "CHR ''%'' \<notin> set rest"
    and snap: "1 \<le> currentUses (trapData ld)" "0 \<le> maxUses (trapData ld)"
  shows "storedNotes (allowMovement tokenId st) trapId =
           (if macroTriggered ld \<and> graphics st tokenId \<noteq> None
            then Some (descriptorHead (currentUses (trapData ld) - 1) (maxUses (trapData ld))
                         (if currentUses (trapData ld) - 1 \<le> 0 then False else a) @ rest)
            else Some (descriptorHead c m a @ rest))"
proof -
  define nu where "nu = currentUses (trapData ld) - 1"
  define mx where "mx = maxUses (trapData ld)"
  define s2 where "s2 = updateTokenLockState tokenId trapId False st"
  define s3 where "s3 = updateTrapUsesOn trapId nu mx None s2"
  define s4 where "s4 = updateTrapUsesOn trapId 0 mx (Some False) s3"
  have nu0: "0 \<le> nu" using snap(1) by (simp add: nu_def)
  have mx0: "0 \<le> mx" using snap(2) by (simp add: mx_def)
  have trapThere: "graphics st trapId \<noteq> None"
    using nts(1) by (auto simp: storedNotes_def)
  have n2: "storedNotes s2 trapId = Some (descriptorHead c m a @ rest)"
    using nts(1) lock(3) by (simp add: s2_def)
  have n3: "storedNotes s3 trapId = Some (descriptorHead nu mx a @ rest)"
    unfolding s3_def using updateTrapUsesOn_head(1)[OF n2 nts(2,3) nu0 mx0 nts(4), of None] by simp
  have n4: "storedNotes s4 trapId = Some (descriptorHead 0 mx False @ rest)"
    unfolding s4_def using updateTrapUsesOn_head(1)[OF n3 nu0 mx0 _ mx0 nts(4), of 0 "Some False"] by simp
  show ?thesis
  proof (cases "macroTriggered ld \<and> graphics st tokenId \<noteq> None")
    case False
    then show ?thesis
      using lock trapThere n2 nts(1)
      by (auto simp: allowMovement_def Let_def s2_def)
  next
    case True
    show ?thesis
    proof (cases "nu \<le> 0")
      case z: True
      have "storedNotes (allowMovement tokenId st) trapId = storedNotes s4 trapId"
        using lock True trapThere z
        by (simp add: allowMovement_def Let_def s2_def s3_def s4_def nu_def mx_def)
      moreover have "nu = 0"
        using z nu0 by simp
      ultimately show ?thesis
        using n4 True by (simp add: nu_def mx_def)
    next
      case nz: False
      have "storedNotes (allowMovement tokenId st) trapId = storedNotes s3 trapId"
        using lock True trapThere nz
        by (simp add: allowMovement_def Let_def s2_def s3_def nu_def mx_def)
      then show ?thesis
        using n3 True nz by (simp add: nu_def mx_def)
    qed
  qed
qed

text \<open>
  C10. When a release applies the deferred decrement (the effect was marked as applied,
  both tokens exist), the uses written to the trap are those of the snapshot taken at
  lock time minus one, with the snapshot's maximum, whatever uses \<open>c/m\<close> the trap's
  notes hold at the time of the release.
\<close>

theorem allowMovement_writes_snapshot_uses:
  assumes "lockedTokens st tokenId = Some ld" "trapToken ld = trapId" "macroTriggered ld"
    and "graphics st tokenId \<noteq> None" "tokenId \<noteq> trapId"
    and "storedNotes st trapId = Some (descriptorHead c m a @ rest)"
    and "0 \<le> c" "0 \<le> m" "CHR ''%'' \<notin> set rest"
    and "1 \<le> currentUses (trapData ld)" "0 \<le> maxUses (trapData ld)"
  shows "map_option (\<lambda>d. (currentUses d, maxUses d)) (storedDescriptor (allowMovement tokenId st) trapId) =
           Some (currentUses (trapData ld) - 1, maxUses (trapData ld))"
proof -
  let ?nu = "currentUses (trapData ld) - 1"
  let ?a = "if ?nu \<le> 0 then False else a"
  have n: "storedNotes (allowMovement tokenId st) trapId =
           Some (descriptorHead ?nu (maxUses (trapData ld)) ?a @ rest)"
    using allowMovement_head[OF assms(1,2,5,6,7,8,9,10,11)] assms(3,4) by simp
  have "0 \<le> ?nu" using assms(10) by simp
  from storedDescriptor_head[OF n this assms(11,9)] show ?thesis
    by (auto simp: option.map_comp o_def)
qed

text \<open>
  C1, amended. For a trap whose notes start with the head the script writes and hold a
  descriptor satisfying the invariant with at least one use at most, the descriptor
  stored after a toggle, after the decrement applied on resolution (from a descriptor
  that satisfies the invariant) and after a release (from a snapshot with
  \<open>1 \<le> currentUses \<le> maxUses\<close>) satisfies the invariant again.
\<close>

theorem mutations_keep_invariant:
  assumes "storedNotes st trapId = Some (descriptorHead c m a @ rest)"
    and "CHR ''%'' \<notin> set rest"
    and "0 \<le> c" "c \<le> m" "1 \<le> m" "c = 0 \<longrightarrow> \<not> a"
  shows "invariantAt st trapId \<and>
         invariantAt (toggleTrap trapId st) trapId \<and>
         (descriptorInvariant d \<longrightarrow> invariantAt (decrementUses trapId d st) trapId) \<and>
         (lockedTokens st tokenId = Some ld \<and> trapToken ld = trapId \<and> tokenId \<noteq> trapId \<and>
          1 \<le> currentUses (trapData ld) \<and> currentUses (trapData ld) \<le> maxUses (trapData ld)
          \<longrightarrow> invariantAt (allowMovement tokenId st) trapId)"
proof -
  have m0: "0 \<le> m" using assms by simp
  have 0: "invariantAt st trapId"
    using invariantAt_head[OF assms(1,3,4) _ assms(2)] assms(6) by simp
  have 1: "invariantAt (toggleTrap trapId st) trapId"
  proof -
    have n: "storedNotes (toggleTrap trapId st) trapId =
             Some (descriptorHead (if \<not> a \<and> c \<le> 0 then 1 else c) m (\<not> a) @ rest)"
      by (rule toggleTrap_head[OF assms(1,3) m0 assms(2)])
    show ?thesis
      by (rule invariantAt_head[OF n _ _ _ assms(2)]) (use assms in \<open>auto split: if_splits\<close>)
  qed
  have 2: "invariantAt (decrementUses trapId d st) trapId" if inv: "descriptorInvariant d"
  proof -
    have d0: "0 \<le> maxUses d" "currentUses d \<le> maxUses d" "0 \<le> currentUses d"
      using inv by (auto simp: descriptorInvariant_def)
    have n: "storedNotes (decrementUses trapId d st) trapId =
             Some (descriptorHead (max 0 (currentUses d - 1)) (maxUses d) (0 < max 0 (currentUses d - 1)) @ rest)"
      by (rule decrementUses_head[OF assms(1,3) m0 assms(2) d0(1)])
    show ?thesis
      by (rule invariantAt_head[OF n _ _ _ assms(2)]) (use d0 in auto)
  qed
  have 3: "invariantAt (allowMovement tokenId st) trapId"
    if l: "lockedTokens st tokenId = Some ld" "trapToken ld = trapId" "tokenId \<noteq> trapId"
      "1 \<le> currentUses (trapData ld)" "currentUses (trapData ld) \<le> maxUses (trapData ld)"
  proof -
    have mx0: "0 \<le> maxUses (trapData ld)" using l by simp
    note n = allowMovement_head[OF l(1,2,3) assms(1,3) m0 assms(2) l(4) mx0]
    show ?thesis
    proof (cases "macroTriggered ld \<and> graphics st tokenId \<noteq> None")
      case True
      from n have n': "storedNotes (allowMovement tokenId st) trapId =
          Some (descriptorHead (currentUses (trapData ld) - 1) (maxUses (trapData ld))
                  (if currentUses (trapData ld) - 1 \<le> 0 then False else a) @ rest)"
        by (simp only: if_P[OF True])
      show ?thesis
        by (rule invariantAt_head[OF n' _ _ _ assms(2)]) (use l in auto)
    next
      case False
      from n have n': "storedNotes (allowMovement tokenId st) trapId = Some (descriptorHead c m a @ rest)"
        by (simp only: if_not_P[OF False])
      show ?thesis
        by (rule invariantAt_head[OF n' assms(3,4) _ assms(2)]) (use assms(6) in simp)
    qed
  qed
  show ?thesis
    using 0 1 2 3 by blast
qed


section \<open>Properties of the delayed relocation\<close>

lemma timers_updateTokenLockState [simp]: "timers (updateTokenLockState i t b st) = timers st"
  by (simp add: updateTokenLockState_def)

lemma timers_updateTrapUsesOn [simp]: "timers (updateTrapUsesOn i c m a st) = timers st"
  by (simp add: updateTrapUsesOn_def)

lemma timers_setAura [simp]: "timers (setAura i c st) = timers st"
  by (simp add: setAura_def)

lemma timers_parseToken [simp]: "timers (snd (parseToken i st)) = timers st"
  by (simp add: parseToken_def split: option.splits)

lemma timers_handleTrapTrigger [simp]: "timers (handleTrapTrigger i t st) = timers st"
proof -
  obtain d s1 where p: "parseToken t st = (d, s1)" by (cases "parseToken t st")
  then have "timers s1 = timers st" using timers_parseToken[of t st] by simp
  then show ?thesis using p
    by (simp add: handleTrapTrigger_def Let_def split: option.splits)
qed

lemma timers_allowMovement: "timers (allowMovement i st) = timers st"
  by (simp add: allowMovement_def Let_def split: option.splits)

lemma lockedTokens_allowMovement: "lockedTokens (allowMovement i st) i = None"
  by (cases "lockedTokens st i") (simp_all add: allowMovement_def Let_def)

lemma placeOf_onToken_notes [simp]:
  "placeOf (onToken i (\<lambda>tk. tk\<lparr>gmnotes := f tk\<rparr>) st) j = placeOf st j"
  by (cases "graphics st j") (simp_all add: placeOf_def)

lemma placeOf_say [simp]: "placeOf (say m st) j = placeOf st j"
  by (simp add: placeOf_def)

lemma place_syncAura [simp]: "tleft (syncAura e tk) = tleft tk" "ttop (syncAura e tk) = ttop tk"
  by (simp_all add: syncAura_def Let_def split: option.splits)

lemma place_updateTrapUses [simp]:
  "tleft (updateTrapUses e tk c m a) = tleft tk" "ttop (updateTrapUses e tk c m a) = ttop tk"
  by (simp_all add: updateTrapUses_def Let_def)

lemma placeOf_onToken_place:
  "(\<And>tk. tleft (f tk) = tleft tk \<and> ttop (f tk) = ttop tk) \<Longrightarrow> placeOf (onToken i f st) j = placeOf st j"
  by (cases "graphics st j") (simp_all add: placeOf_def)

lemma placeOf_updateTrapUsesOn [simp]: "placeOf (updateTrapUsesOn i c m a st) j = placeOf st j"
  by (simp add: updateTrapUsesOn_def placeOf_onToken_place)

lemma placeOf_setAura [simp]: "placeOf (setAura i c st) j = placeOf st j"
  by (simp add: setAura_def placeOf_onToken_place)

lemma placeOf_updateTokenLockState [simp]: "placeOf (updateTokenLockState i t b st) j = placeOf st j"
  by (simp add: updateTokenLockState_def)

lemma placeOf_fields [simp]:
  "placeOf (st\<lparr>lockedTokens := l\<rparr>) j = placeOf st j"
  "placeOf (st\<lparr>safeMoveTokens := s\<rparr>) j = placeOf st j"
  "placeOf (st\<lparr>timers := t\<rparr>) j = placeOf st j"
  by (simp_all add: placeOf_def)

lemma placeOf_allowMovement: "placeOf (allowMovement i st) j = placeOf st j"
  by (simp add: allowMovement_def Let_def split: option.splits)

lemma placeOf_parseToken [simp]: "placeOf (snd (parseToken i st)) j = placeOf st j"
  by (simp add: parseToken_def placeOf_onToken_place split: option.splits)

lemma placeOf_handleTrapTrigger: "placeOf (handleTrapTrigger i t st) j = placeOf st j"
proof -
  obtain d s1 where p: "parseToken t st = (d, s1)" by (cases "parseToken t st")
  then have "placeOf s1 j = placeOf st j" using placeOf_parseToken[of t st j] by simp
  then show ?thesis using p
    by (simp add: handleTrapTrigger_def Let_def split: option.splits)
qed

text \<open>
  C4, as the code has it. A trigger schedules the callback, a release leaves every
  scheduled callback in place, and the callback reads no lock: whenever its token
  exists it puts the token on the resting point. The code holds no handle of the timer
  and never cancels one.
\<close>

theorem relocation_callback_ignores_locks:
  "timers (triggerAt movedId trapId initial final st) =
     timers st @ [\<lparr>tm_token = movedId, tm_left = p_x final, tm_top = p_y final\<rparr>] \<and>
   timers (allowMovement tokenId st) = timers st \<and>
   placeOf (runTimer tm st) (tm_token tm) =
     (if graphics st (tm_token tm) = None then None else Some (tm_left tm, tm_top tm))"
  by (auto simp add: triggerAt_def Let_def timers_allowMovement placeOf_def runTimer_def)

section \<open>Properties of the resolution of skill checks\<close>

subsection \<open>The three strategies\<close>

lemma authorized_iff:
  "authorized st roller c pc =
     (\<exists>ch. map_of (characters st) c = Some ch \<and>
           (playerIsGM st roller \<or> (\<exists>p. roller = Some p \<and> p \<in> set (controllers ch)) \<or> roller = pc_playerid pc))"
  by (auto simp add: authorized_def split: option.splits)

lemma set_map_filter_iff: "(y \<in> set (List.map_filter f xs)) = (\<exists>x \<in> set xs. f x = Some y)"
  by (induction xs) (auto simp add: List.map_filter_def)

lemma potentialChecks_iff:
  "((r, p) \<in> set (potentialChecks st roller)) =
     (\<exists>c ch. (c, ch) \<in> set (characters st) \<and>
        (\<exists>q. roller = Some q \<and> q \<in> set (controllers ch)) \<and>
        (\<exists>q \<in> set (controllers ch). q \<noteq> [] \<and> trim q \<noteq> [] \<and> q \<notin> gmPlayers st) \<and>
        pendingChecksByChar st c = Some r \<and> checkObjects st r = Some p \<and> pc_characterId p = Some c)"
proof -
  have f: "((case lookupCheck st (pendingChecksByChar st) c of
              None \<Rightarrow> None
            | Some (ref, pc) \<Rightarrow> (if pc_characterId pc = Some c then Some (ref, pc) else None)) = Some (r, p)) =
           (pendingChecksByChar st c = Some r \<and> checkObjects st r = Some p \<and> pc_characterId p = Some c)" for c
    by (auto simp add: lookupCheck_def split: option.splits)
  have g: "((c, ch) \<in> set (charsControlledByRoller st roller)) =
           ((c, ch) \<in> set (characters st) \<and> (\<exists>q. roller = Some q \<and> q \<in> set (controllers ch)) \<and>
            (\<exists>q \<in> set (controllers ch). q \<noteq> [] \<and> trim q \<noteq> [] \<and> q \<notin> gmPlayers st))" for c ch
    by (auto simp add: charsControlledByRoller_def list_ex_iff split: option.splits)
  show ?thesis
    unfolding potentialChecks_def set_map_filter_iff
    by (simp add: f g Bex_def)
qed

lemma find_by_character:
  "truthy (characterid roll) \<Longrightarrow>
   lookupCheck st (pendingChecksByChar st) (keyOf (characterid roll)) = Some (ref, pc) \<Longrightarrow>
   authorized st roller (keyOf (characterid roll)) pc \<Longrightarrow>
   findPendingCheck st roll roller = (Some (ref, pc), roll)"
  by (simp add: findPendingCheck_def Let_def)

lemma find_by_controller:
  "\<not> truthy (characterid roll) \<Longrightarrow> potentialChecks st roller = [(ref, pc)] \<Longrightarrow>
   findPendingCheck st roll roller = (Some (ref, pc), roll\<lparr>characterid := pc_characterId pc\<rparr>)"
  by (simp add: findPendingCheck_def Let_def)

lemma find_by_player:
  "(if truthy (characterid roll)
    then \<forall>ref pc. lookupCheck st (pendingChecksByChar st) (keyOf (characterid roll)) = Some (ref, pc)
                   \<longrightarrow> \<not> authorized st roller (keyOf (characterid roll)) pc
    else \<forall>x. potentialChecks st roller \<noteq> [x]) \<Longrightarrow>
   findPendingCheck st roll roller =
     (case lookupCheck st (pendingChecks st) (keyOf roller) of
        None \<Rightarrow> (None, roll)
      | Some (ref, pc) \<Rightarrow>
          (Some (ref, pc),
           if truthy (pc_characterId pc) \<and> \<not> truthy (characterid roll)
           then roll\<lparr>characterid := pc_characterId pc\<rparr> else roll))"
  by (auto simp add: findPendingCheck_def Let_def split: option.splits list.splits if_splits prod.splits)

lemma unmatched_is_dropped:
  "fst (findPendingCheck st roll roller) = None \<Longrightarrow> handleRollResult roll roller st = st"
  by (cases "findPendingCheck st roll roller") (simp add: handleRollResult_def)

text \<open>
  C5, with the candidates of the second strategy as the code has them. A roll that
  carries a character id takes the pending check the per-character index holds for it,
  when the character exists and the roller is the GM, one of its controllers or the
  player the check was asked of. A roll without a character id takes the pending check
  of the only candidate: a candidate is a character that lists the roller among its
  controllers, has a controller who is not the GM, and whose entry in the
  per-character index is a check for that character. In every other case the pending
  check the per-player index holds for the roller is used, the character id of that
  check filling the one the roll lacks. A roll no strategy matches changes nothing.
\<close>

theorem roll_matching_priority:
  "(truthy (characterid roll) \<and>
    lookupCheck st (pendingChecksByChar st) (keyOf (characterid roll)) = Some (ref, pc) \<and>
    authorized st roller (keyOf (characterid roll)) pc \<longrightarrow>
      findPendingCheck st roll roller = (Some (ref, pc), roll)) \<and>
   authorized st roller c pc =
     (\<exists>ch. map_of (characters st) c = Some ch \<and>
           (playerIsGM st roller \<or> (\<exists>p. roller = Some p \<and> p \<in> set (controllers ch)) \<or> roller = pc_playerid pc)) \<and>
   (\<not> truthy (characterid roll) \<and> potentialChecks st roller = [(ref, pc)] \<longrightarrow>
      findPendingCheck st roll roller = (Some (ref, pc), roll\<lparr>characterid := pc_characterId pc\<rparr>)) \<and>
   ((r, p) \<in> set (potentialChecks st roller)) =
     (\<exists>c ch. (c, ch) \<in> set (characters st) \<and>
        (\<exists>q. roller = Some q \<and> q \<in> set (controllers ch)) \<and>
        (\<exists>q \<in> set (controllers ch). q \<noteq> [] \<and> trim q \<noteq> [] \<and> q \<notin> gmPlayers st) \<and>
        pendingChecksByChar st c = Some r \<and> checkObjects st r = Some p \<and> pc_characterId p = Some c) \<and>
   ((if truthy (characterid roll)
     then \<forall>ref pc. lookupCheck st (pendingChecksByChar st) (keyOf (characterid roll)) = Some (ref, pc)
                    \<longrightarrow> \<not> authorized st roller (keyOf (characterid roll)) pc
     else \<forall>x. potentialChecks st roller \<noteq> [x]) \<longrightarrow>
      findPendingCheck st roll roller =
        (case lookupCheck st (pendingChecks st) (keyOf roller) of
           None \<Rightarrow> (None, roll)
         | Some (ref, pc) \<Rightarrow>
             (Some (ref, pc),
              if truthy (pc_characterId pc) \<and> \<not> truthy (characterid roll)
              then roll\<lparr>characterid := pc_characterId pc\<rparr> else roll))) \<and>
   (fst (findPendingCheck st roll roller) = None \<longrightarrow> handleRollResult roll roller st = st)"
  using find_by_character[of roll st ref pc roller] authorized_iff[of st roller c pc]
    find_by_controller[of roll st roller ref pc] potentialChecks_iff[of r p st roller]
    find_by_player[of roll st roller] unmatched_is_dropped[of st roll roller]
  by blast

subsection \<open>Results, mismatches and their answers\<close>

lemma handleRollResult_found:
  assumes "findPendingCheck st roll roller = (Some (ref, pc), roll1)"
    "pc_token pc = Some tokenId" "pc_config pc = Some config" "checks config = ck # cks"
  shows "handleRollResult roll roller st =
    (case mismatchOf (ck_type ck) (rolledSkillName roll1) of
       Some reason \<Rightarrow>
         say (MismatchPrompt
                (if truthy (pc_characterId pc) then keyOf (pc_characterId pc) else keyOf (pc_playerid pc))
                tokenId (ck_type ck)
                (if truthy (rolledSkillName roll1) then keyOf (rolledSkillName roll1) else ''Flat Roll'')
                reason (total roll1)
                (if truthy (rollType roll1) then keyOf (rollType roll1) else ''normal'')
                (isAdvantageRoll roll1)) st
     | None \<Rightarrow>
         (if truthy (pc_characterId pc) \<and> truthy (characterid roll1)
             \<and> pc_characterId pc \<noteq> characterid roll1
          then say (CriticalMismatchNotice (keyOf (characterid roll1)) (keyOf (pc_characterId pc))) st
          else if isAdvantageRoll roll1
          then finishCheck [firstRoll roll1, secondRoll roll1] (total roll1) ref pc tokenId config ck roller st
          else if pc_firstRoll pc = Null
                  \<and> (pc_advantage pc = Some ''advantage'' \<or> pc_advantage pc = Some ''disadvantage'')
          then say (WaitingForSecondRoll
                      (case pc_characterName pc of None \<Rightarrow> ''Player'' | Some n \<Rightarrow> if n = [] then ''Player'' else n)
                      (total roll1) (keyOf (pc_advantage pc)))
                 (st\<lparr>checkObjects := (checkObjects st)(ref \<mapsto> pc\<lparr>pc_firstRoll := total roll1\<rparr>),
                     pendingChecksByChar :=
                       (if truthy (pc_characterId pc)
                        then (pendingChecksByChar st)(keyOf (pc_characterId pc) \<mapsto> ref)
                        else pendingChecksByChar st),
                     pendingChecks := (pendingChecks st)(keyOf (pc_playerid pc) \<mapsto> ref)\<rparr>)
          else if pc_advantage pc = None then st
          else (let finalTotal =
                      (if pc_advantage pc \<noteq> Some ''normal''
                       then (if pc_advantage pc = Some ''advantage''
                             then mathMax (pc_firstRoll pc) (total roll1)
                             else mathMin (pc_firstRoll pc) (total roll1))
                       else total roll1)
                in finishCheck
                     (if pc_advantage pc \<noteq> Some ''normal'' then [pc_firstRoll pc, total roll1] else [])
                     finalTotal ref pc tokenId config ck roller st)))"
  using assms by (simp add: handleRollResult_def)


lemma trim_Nil [simp]: "trim [] = []"
  by code_simp


lemma chatLog_updateTrapUsesOn [simp]: "chatLog (updateTrapUsesOn i c m a st) = chatLog st"
  by (simp add: updateTrapUsesOn_def)

lemma chatLog_setAura [simp]: "chatLog (setAura i c st) = chatLog st"
  by (simp add: setAura_def)


lemma chatLog_cleanup [simp]: "chatLog (cleanup ref pc roller st) = chatLog st"
  by (simp add: cleanup_def)





lemma mismatchOf_iff:
  "(mismatchOf expected rolled \<noteq> None) =
     (if normalizeType (Some expected) = ''flat roll'' then truthy rolled
      else (\<not> truthy rolled \<or> normalizeType (Some expected) \<noteq> normalizeType rolled))"
  by (simp add: mismatchOf_def Let_def)

lemma resolveMismatch_accept:
  assumes "lookupCheck st (pendingChecksByChar st) key = Some (ref, pc) \<or>
           lookupCheck st (pendingChecksByChar st) key = None \<and> lookupCheck st (pendingChecks st) key = Some (ref, pc)"
    "graphics st trapId \<noteq> None" "pc_config pc = Some config" "checks config = ck # cks"
  shows "resolveMismatch key trapId ''accept'' v rt adv st =
           handleRollResult \<lparr>total = v, firstRoll = v, secondRoll = Null, isAdvantageRoll = adv,
                              rollType = Some rt, characterid = pc_characterId pc,
                              rolledSkillName = Some (ck_type ck)\<rparr>
             (pc_playerid pc) (say AcceptNotice st)"
  using assms by (auto simp add: resolveMismatch_def Let_def)

lemma resolveMismatch_reject:
  assumes "lookupCheck st (pendingChecksByChar st) key = Some (ref, pc) \<or>
           lookupCheck st (pendingChecksByChar st) key = None \<and> lookupCheck st (pendingChecks st) key = Some (ref, pc)"
    "graphics st trapId \<noteq> None"
  shows "resolveMismatch key trapId ''reject'' v rt adv st =
           handleRollCheck trapId (case pc_checkIndex pc of None \<Rightarrow> Index 0 | Some ci \<Rightarrow> ci)
             (if truthy (pc_advantage pc) then keyOf (pc_advantage pc) else ''normal'') (pc_playerid pc) st"
  using assms by (auto simp add: resolveMismatch_def Let_def)

lemma storedNotes_fields [simp]:
  "storedNotes (st\<lparr>checkObjects := a\<rparr>) j = storedNotes st j"
  "storedNotes (st\<lparr>nextObject := b\<rparr>) j = storedNotes st j"
  "storedNotes (st\<lparr>pendingChecks := c\<rparr>) j = storedNotes st j"
  "storedNotes (st\<lparr>pendingChecksByChar := d\<rparr>) j = storedNotes st j"
  "storedNotes (st\<lparr>displayDCForCheck := e\<rparr>) j = storedNotes st j"
  by (simp_all add: storedNotes_def)

lemma storedNotes_handleRollCheck: "storedNotes (handleRollCheck t i a p st) j = storedNotes st j"
proof -
  obtain d s1 where q: "parseToken t st = (d, s1)" by (cases "parseToken t st")
  then have "map_option gmnotes (graphics s1 j) = map_option gmnotes (graphics st j)"
    by (auto simp add: parseToken_def option.map_comp o_def split: option.splits)
  then show ?thesis using q
    by (simp add: handleRollCheck_def Let_def storedNotes_def split: option.splits)
qed

lemma handleRollCheck_prompt:
  assumes "graphics st t = Some tk" "parseTrapNotes (gmnotes tk) = Some config" "n < length (checks config)"
  shows "chatLog (handleRollCheck t (Index n) a p st) =
           chatLog st @ [RollPrompt t (ck_type (checks config ! n)) a
                           (if displayDCForCheck st (keyOf p) = Some True then Some (ck_dc (checks config ! n)) else None)]"
    and "lookupCheck (handleRollCheck t (Index n) a p st) (pendingChecks (handleRollCheck t (Index n) a p st)) (keyOf p) =
           Some (nextObject st,
                 \<lparr>pc_token = Some t, pc_checkIndex = Some (Index n),
                  pc_config = Some (config\<lparr>checks := [checks config ! n]\<rparr>), pc_advantage = Some a,
                  pc_firstRoll = Null, pc_playerid = p,
                  pc_characterId = (case lookupCheck st (pendingChecks st) (keyOf p) of None \<Rightarrow> None | Some (r, pc) \<Rightarrow> pc_characterId pc),
                  pc_characterName = (case lookupCheck st (pendingChecks st) (keyOf p) of None \<Rightarrow> None | Some (r, pc) \<Rightarrow> pc_characterName pc)\<rparr>)"
  using assms
  by (simp_all add: handleRollCheck_def parseToken_def Let_def lookupCheck_def split: option.splits)

lemma lookupCheck_say [simp]: "lookupCheck (say m st) idx k = lookupCheck st idx k"
  by (simp add: lookupCheck_def cong: option.case_cong)

lemma authorized_say [simp]: "authorized (say m st) roller c pc = authorized st roller c pc"
  by (simp add: authorized_def playerIsGM_def cong: option.case_cong)

lemma potentialChecks_say [simp]: "potentialChecks (say m st) roller = potentialChecks st roller"
  by (simp add: potentialChecks_def charsControlledByRoller_def)

lemma findPendingCheck_say [simp]: "findPendingCheck (say m st) roll roller = findPendingCheck st roll roller"
  by (simp add: findPendingCheck_def cong: option.case_cong list.case_cong prod.case_cong if_cong)

lemma byChar_finishCheck:
  "truthy (pc_characterId pc) \<Longrightarrow>
   pendingChecksByChar (finishCheck rolls final ref pc tokenId config ck roller st) (keyOf (pc_characterId pc)) = None"
  by (simp add: finishCheck_def Let_def cleanup_def)

text \<open>
  C6. The rolled label and the expected skill are incompatible exactly when a flat roll
  is expected and a label was rolled, or a skill is expected and the roll has no label
  or a label that differs after normalisation. A roll that is incompatible with its
  pending check only sends the prompt to the GM: the pending check, the indexes and the
  trap stay as they were. Accepting replays the value through \<^verbatim>\<open>handleRollResult\<close>
  with the expected skill as the label, for the player the check was asked of; a
  non-empty label is compatible with itself unless it names the flat roll. Rejecting
  calls \<^verbatim>\<open>handleRollCheck\<close> again, which leaves the notes of every token as they are
  and sends the prompt to roll.
\<close>

theorem mismatch_waits_for_the_gm:
  "((mismatchOf expected rolled \<noteq> None) =
      (if normalizeType (Some expected) = ''flat roll'' then truthy rolled
       else (\<not> truthy rolled \<or> normalizeType (Some expected) \<noteq> normalizeType rolled))) \<and>
   (findPendingCheck st roll roller = (Some (ref, pc), roll1) \<and> pc_token pc = Some tokenId \<and>
    pc_config pc = Some config \<and> checks config = ck # cks \<and>
    mismatchOf (ck_type ck) (rolledSkillName roll1) = Some reason \<longrightarrow>
      handleRollResult roll roller st =
        say (MismatchPrompt
               (if truthy (pc_characterId pc) then keyOf (pc_characterId pc) else keyOf (pc_playerid pc))
               tokenId (ck_type ck)
               (if truthy (rolledSkillName roll1) then keyOf (rolledSkillName roll1) else ''Flat Roll'')
               reason (total roll1)
               (if truthy (rollType roll1) then keyOf (rollType roll1) else ''normal'')
               (isAdvantageRoll roll1)) st) \<and>
   ((lookupCheck st (pendingChecksByChar st) key = Some (ref, pc) \<or>
     lookupCheck st (pendingChecksByChar st) key = None \<and> lookupCheck st (pendingChecks st) key = Some (ref, pc)) \<and>
    graphics st trapId \<noteq> None \<longrightarrow>
      (pc_config pc = Some config \<and> checks config = ck # cks \<longrightarrow>
         resolveMismatch key trapId ''accept'' v rt adv st =
           handleRollResult \<lparr>total = v, firstRoll = v, secondRoll = Null, isAdvantageRoll = adv,
                              rollType = Some rt, characterid = pc_characterId pc,
                              rolledSkillName = Some (ck_type ck)\<rparr>
             (pc_playerid pc) (say AcceptNotice st)) \<and>
      resolveMismatch key trapId ''reject'' v rt adv st =
        handleRollCheck trapId (case pc_checkIndex pc of None \<Rightarrow> Index 0 | Some ci \<Rightarrow> ci)
          (if truthy (pc_advantage pc) then keyOf (pc_advantage pc) else ''normal'') (pc_playerid pc) st) \<and>
   (ck_type ck \<noteq> [] \<and> normalizeType (Some (ck_type ck)) \<noteq> ''flat roll'' \<longrightarrow>
      mismatchOf (ck_type ck) (Some (ck_type ck)) = None) \<and>
   storedNotes (handleRollCheck t i a p st) j = storedNotes st j \<and>
   (graphics st t = Some tk \<and> parseTrapNotes (gmnotes tk) = Some cfg \<and> n < length (checks cfg) \<longrightarrow>
      chatLog (handleRollCheck t (Index n) a p st) =
        chatLog st @ [RollPrompt t (ck_type (checks cfg ! n)) a
                        (if displayDCForCheck st (keyOf p) = Some True then Some (ck_dc (checks cfg ! n)) else None)])"
proof -
  have 1: "(mismatchOf expected rolled \<noteq> None) =
      (if normalizeType (Some expected) = ''flat roll'' then truthy rolled
       else (\<not> truthy rolled \<or> normalizeType (Some expected) \<noteq> normalizeType rolled))"
    by (rule mismatchOf_iff)
  have 2: "handleRollResult roll roller st =
        say (MismatchPrompt
               (if truthy (pc_characterId pc) then keyOf (pc_characterId pc) else keyOf (pc_playerid pc))
               tokenId (ck_type ck)
               (if truthy (rolledSkillName roll1) then keyOf (rolledSkillName roll1) else ''Flat Roll'')
               reason (total roll1)
               (if truthy (rollType roll1) then keyOf (rollType roll1) else ''normal'')
               (isAdvantageRoll roll1)) st"
    if "findPendingCheck st roll roller = (Some (ref, pc), roll1)" "pc_token pc = Some tokenId"
      "pc_config pc = Some config" "checks config = ck # cks"
      "mismatchOf (ck_type ck) (rolledSkillName roll1) = Some reason"
    using handleRollResult_found[OF that(1-4)] that(5) by simp
  have 3: "mismatchOf (ck_type ck) (Some (ck_type ck)) = None"
    if "ck_type ck \<noteq> []" "normalizeType (Some (ck_type ck)) \<noteq> ''flat roll''"
    using that by (simp add: mismatchOf_def truthy_def)
  show ?thesis
    using 1 2 3 resolveMismatch_accept[of st key ref pc trapId config ck cks v rt adv]
      resolveMismatch_reject[of st key ref pc trapId v rt adv]
      storedNotes_handleRollCheck[of t i a p st j] handleRollCheck_prompt(1)[of st t tk cfg n a p]
    by blast
qed


subsection \<open>The claims at example states\<close>

lemma fireTrapNotes_head: "fireTrapNotes = descriptorHead 3 3 True @ fireRest"
  by code_simp

lemma fire_parse: "parseTrapNotes fireTrapNotes = Some fireData"
  by code_simp

lemma fireRest_plain: "CHR ''%'' \<notin> set fireRest \<and> plainRest fireRest"
  by (simp add: fireRest_def plainRest_def)

lemma locked_lock: "lockedTokens lockedState ''hero'' = Some heroLock"
  by (simp add: lockedState_def)

lemma locked_notes: "storedNotes lockedState ''trap'' = Some (descriptorHead 3 3 True @ fireRest)"
  by (simp add: lockedState_def storedNotes_def mkToken_def fireTrapNotes_head)

lemma busy_notes: "storedNotes busyState ''trap'' = Some (descriptorHead 1 3 True @ fireRest)"
  by (simp add: busyState_def storedNotes_def mkToken_def)

lemma busy_lock: "lockedTokens busyState ''hero'' = Some heroLock"
  by (simp add: busyState_def lockedState_def)

text \<open>The held state is what a trigger and the mark of its effect leave.\<close>

lemma trigger_gives_lockedState:
  "lockedTokens (markTriggered ''hero'' (handleTrapTrigger ''hero'' ''trap'' sampleState)) ''hero'' = Some heroLock \<and>
   storedNotes (markTriggered ''hero'' (handleTrapTrigger ''hero'' ''trap'' sampleState)) ''trap'' = Some fireTrapNotes \<and>
   storedNotes (markTriggered ''hero'' (handleTrapTrigger ''hero'' ''trap'' sampleState)) ''hero'' =
     Some ''{!traplocked trap: trap}''"
  by code_simp

text \<open>
  C1 as stated fails on the code: parsing reports the numbers as they are written and
  defaults the armed flag to on. Stored notes with uses 5/3 parse to more current uses
  than the maximum, and notes with uses 0/2 and no armed field parse to an armed trap
  without uses.
\<close>

theorem parse_does_not_enforce_invariant:
  "map_option descriptorInvariant (parseTrapNotes ''{!traptrigger uses: 5/3}'') = Some False \<and>
   map_option descriptorInvariant (parseTrapNotes ''{!traptrigger uses: 0/2}'') = Some False"
  by code_simp

text \<open>The theorem of C1 at the held state: a trap of three uses, set up by the script.\<close>

theorem mutations_keep_invariant_witness:
  "invariantAt lockedState ''trap'' \<and>
   invariantAt (toggleTrap ''trap'' lockedState) ''trap'' \<and>
   invariantAt (decrementUses ''trap'' fireData lockedState) ''trap'' \<and>
   invariantAt (allowMovement ''hero'' lockedState) ''trap''"
proof -
  have inv: "descriptorInvariant fireData"
    by (simp add: fireData_def descriptorInvariant_def)
  have snap: "currentUses (trapData heroLock) = 3" "maxUses (trapData heroLock) = 3" "trapToken heroLock = ''trap''"
    by (simp_all add: fireData_def heroLock_def)
  from mutations_keep_invariant[where st = lockedState and trapId = "''trap''" and c = 3 and m = 3
      and a = True and rest = fireRest and d = fireData and tokenId = "''hero''" and ld = heroLock]
  show ?thesis
    using locked_notes locked_lock fireRest_plain inv snap by simp
qed





lemma testTrap_parses:
  "parseTrapNotes ''{!traptrigger uses: 0/1 macro: #TEST_MACRO effects: [] armed: off}'' =
     map_option (\<lambda>d. d\<lparr>currentUses := 0, maxUses := 1, isArmed := False\<rparr>) (parseTrapNotes testTrapNotes)"
  by code_simp



text \<open>
  The two tests for an armed field disagree about the case of letters: \<^verbatim>\<open>includes('armed:')\<close>
  looks for lower case, the expression that reads and rewrites the field ignores case. A
  field written \<^verbatim>\<open>Armed: ON\<close> is not found, a second field is appended, and the parse reads
  the first one.
\<close>

lemma updateTrapUses_capital_armed:
  "gmnotes (updateTrapUses True (mkToken 105 105 70 70 ''{!traptrigger uses: 1/1 Armed: ON}'') 1 1 (Some False)) =
     ''{!traptrigger uses: 1/1 Armed: ON armed: off}'' \<and>
   map_option isArmed (parseTrapNotes (gmnotes
     (updateTrapUses True (mkToken 105 105 70 70 ''{!traptrigger uses: 1/1 Armed: ON}'') 1 1 (Some False)))) = Some True"
  by code_simp

text \<open>
  The theorem of C3 at the held state: the first release writes uses 2/3, the second
  release changes nothing.
\<close>

theorem allowMovement_released_is_noop_witness:
  "lockedTokens (allowMovement ''hero'' lockedState) ''hero'' = None \<and>
   allowMovement ''hero'' (allowMovement ''hero'' lockedState) = allowMovement ''hero'' lockedState \<and>
   map_option currentUses (storedDescriptor lockedState ''trap'') = Some 3 \<and>
   map_option currentUses (storedDescriptor (allowMovement ''hero'' (allowMovement ''hero'' lockedState)) ''trap'') = Some 2"
proof -
  have a: "lockedTokens (allowMovement ''hero'' lockedState) ''hero'' = None"
    using allowMovement_released_is_noop[of lockedState "''hero''"] by simp
  have b: "allowMovement ''hero'' (allowMovement ''hero'' lockedState) = allowMovement ''hero'' lockedState"
    using allowMovement_released_is_noop[of "allowMovement ''hero'' lockedState" "''hero''"] a by simp
  have c: "map_option currentUses (storedDescriptor lockedState ''trap'') = Some 3"
    by code_simp
  have d: "map_option currentUses (storedDescriptor (allowMovement ''hero'' lockedState) ''trap'') = Some 2"
    by code_simp
  show ?thesis
    using a b c d by simp
qed

text \<open>
  The theorem of C10 where the trap holds uses 1/3 at the time of the release and the
  snapshot of the lock holds 3/3: the release writes 2/3.
\<close>

theorem allowMovement_writes_snapshot_uses_witness:
  "map_option (\<lambda>d. (currentUses d, maxUses d)) (storedDescriptor busyState ''trap'') = Some (1, 3) \<and>
   map_option (\<lambda>d. (currentUses d, maxUses d)) (storedDescriptor (allowMovement ''hero'' busyState) ''trap'') = Some (2, 3)"
proof -
  have g: "graphics busyState ''hero'' \<noteq> None"
    by (simp add: busyState_def)
  have before: "map_option (\<lambda>d. (currentUses d, maxUses d)) (storedDescriptor busyState ''trap'') = Some (1, 3)"
    using storedDescriptor_head[OF busy_notes] fireRest_plain by auto
  from allowMovement_writes_snapshot_uses[where st = busyState and tokenId = "''hero''" and trapId = "''trap''"
      and ld = heroLock and c = 1 and m = 3 and a = True and rest = fireRest]
  have "map_option (\<lambda>d. (currentUses d, maxUses d)) (storedDescriptor (allowMovement ''hero'' busyState) ''trap'') = Some (2, 3)"
    using busy_lock busy_notes g fireRest_plain by (simp add: fireData_def heroLock_def)
  with before show ?thesis by simp
qed

text \<open>The manual trigger of a standard trap writes the last use without the armed flag.\<close>

lemma manualMacroTrigger_leaves_armed_at_zero:
  "map_option (\<lambda>d. (currentUses d, maxUses d, isArmed d)) (storedDescriptor busyState ''trap'') = Some (1, 3, True) \<and>
   map_option (\<lambda>d. (currentUses d, maxUses d, isArmed d))
     (storedDescriptor (manualMacroTrigger ''trap'' ''Fire'' busyState) ''trap'') = Some (0, 3, True)"
  by code_simp

text \<open>
  C4 as stated fails on the code: the hero is released before the callback runs, and
  the callback still moves it from the contact point to the resting point.
\<close>

theorem relocation_callback_moves_released_token:
  "lockedTokens walk ''hero'' \<noteq> None \<and>
   lockedTokens (fireTimer (allowMovement ''hero'' walk)) ''hero'' = None \<and>
   placeOf (allowMovement ''hero'' walk) ''hero'' = Some (105, 105) \<and>
   placeOf (fireTimer (allowMovement ''hero'' walk)) ''hero'' = Some (140, 140)"
proof -
  have t: "timers walk = [\<lparr>tm_token = ''hero'', tm_left = 140, tm_top = 140\<rparr>]"
    by (simp add: walk_def triggerAt_def Let_def sampleState_def emptyState_def)
  have p: "placeOf walk ''hero'' = Some (105, 105)"
    by (simp add: walk_def triggerAt_def Let_def placeOf_handleTrapTrigger)
       (simp add: placeOf_def sampleState_def emptyState_def mkToken_def)
  have l: "lockedTokens walk ''hero'' \<noteq> None"
    by (simp add: walk_def triggerAt_def Let_def handleTrapTrigger_def parseToken_def sampleState_def
        emptyState_def mkToken_def fire_parse fireData_def updateTokenLockState_def)
  have ta: "timers (allowMovement ''hero'' walk) = [\<lparr>tm_token = ''hero'', tm_left = 140, tm_top = 140\<rparr>]"
    by (simp add: timers_allowMovement t)
  have pa: "placeOf (allowMovement ''hero'' walk) ''hero'' = Some (105, 105)"
    by (simp add: placeOf_allowMovement p)
  then have g: "graphics (allowMovement ''hero'' walk) ''hero'' \<noteq> None"
    by (auto simp add: placeOf_def)
  have lf: "lockedTokens (fireTimer (allowMovement ''hero'' walk)) ''hero'' = None"
    by (simp add: fireTimer_def ta runTimer_def lockedTokens_allowMovement)
  have pf: "placeOf (fireTimer (allowMovement ''hero'' walk)) ''hero'' = Some (140, 140)"
    using g by (auto simp add: fireTimer_def ta runTimer_def placeOf_def)
  from l lf pa pf show ?thesis by simp
qed

subsection \<open>Skill checks at the door\<close>

lemma doorNotes_head: "doorNotes = descriptorHead 3 3 True @ doorRest"
  by code_simp

lemma door_parse: "parseTrapNotes doorNotes = Some doorData"
  by code_simp

lemma door_token: "graphics (checkState pc) ''door'' = Some (mkToken 105 105 70 70 doorNotes)"
  by (simp add: checkState_def tableState_def)

lemma door_gmnotes: "gmnotes (mkToken 105 105 70 70 doorNotes) = doorNotes"
  by (simp add: mkToken_def)

lemma checkState_lookup:
  "lookupCheck (checkState pc) (pendingChecksByChar (checkState pc)) ''c1'' = Some (0, pc)"
  "lookupCheck (checkState pc) (pendingChecks (checkState pc)) ''gm'' = Some (0, pc)"
  by (simp_all add: checkState_def lookupCheck_def)

lemma aria_fields:
  "pc_token (ariaCheck ck idx adv fr) = Some ''door''"
  "pc_config (ariaCheck ck idx adv fr) = Some (doorData\<lparr>checks := [ck]\<rparr>)"
  "pc_checkIndex (ariaCheck ck idx adv fr) = Some idx"
  "pc_advantage (ariaCheck ck idx adv fr) = Some adv"
  "pc_firstRoll (ariaCheck ck idx adv fr) = fr"
  "pc_playerid (ariaCheck ck idx adv fr) = Some ''gm''"
  "pc_characterId (ariaCheck ck idx adv fr) = Some ''c1''"
  "pc_characterName (ariaCheck ck idx adv fr) = Some ''Aria''"
  by (simp_all add: ariaCheck_def)

lemma table_controllers:
  "controllers \<lparr>controlledby = ''p1'', characterName = ''Aria''\<rparr> = [''p1'']"
  "controllers \<lparr>controlledby = ''gm'', characterName = ''Golem''\<rparr> = [''gm'']"
  by code_simp+

lemma aria_authorized:
  "authorized (checkState pc) (Some ''p1'') ''c1'' pc'"
  "authorized (checkState pc) (Some ''gm'') ''c1'' pc'"
  by (simp_all add: authorized_def checkState_def tableState_def playerIsGM_def table_controllers)

lemma aria_potential: "potentialChecks (checkState (ariaCheck ck idx adv fr)) (Some ''p1'') = [(0, ariaCheck ck idx adv fr)]"
proof -
  note c = table_controllers
  have t: "trim ''p1'' = ''p1''" by code_simp
  show ?thesis
    by (simp add: potentialChecks_def charsControlledByRoller_def checkState_def tableState_def c t
        List.map_filter_def lookupCheck_def ariaCheck_def)
qed

lemma aria_find_flat:
  "findPendingCheck (checkState (ariaCheck ck idx adv fr)) (flatRoll n) (Some ''p1'') =
     (Some (0, ariaCheck ck idx adv fr), (flatRoll n)\<lparr>characterid := Some ''c1''\<rparr>)"
  using find_by_controller[of "flatRoll n" "checkState (ariaCheck ck idx adv fr)" "Some ''p1''" 0 "ariaCheck ck idx adv fr"]
    aria_potential[of ck idx adv fr]
  by (simp add: flatRoll_def truthy_def aria_fields)

lemma aria_find_sheet:
  "roller = Some ''p1'' \<or> roller = Some ''gm'' \<Longrightarrow>
   findPendingCheck (checkState pc) (sheetRoll ''c1'' skill n) roller = (Some (0, pc), sheetRoll ''c1'' skill n)"
  using find_by_character[of "sheetRoll ''c1'' skill n" "checkState pc" 0 pc roller]
    checkState_lookup(1)[of pc] aria_authorized[of pc pc]
  by (auto simp add: sheetRoll_def truthy_def keyOf_def)

lemma mismatch_examples:
  "mismatchOf ''Perception'' None = Some ExpectedSkill"
  "mismatchOf ''Flat Roll'' (Some ''Perception'') = Some ExpectedFlat"
  "mismatchOf ''Perception'' (Some ''Stealth'') = Some DifferentSkill"
  "mismatchOf ''Perception'' (Some ''perception check'') = None"
  "mismatchOf ''Flat Roll'' None = None"
  "mismatchOf ''Flat Roll'' (Some ''Flat Roll'') = Some ExpectedFlat"
  "mismatchOf ''Perception'' (Some ''Perception'') = None"
  "normalizeType (Some ''Perception'') = ''perception''"
  by code_simp+

text \<open>
  C5 as stated fails on the code: the golem is controlled by the GM alone, the
  per-character index holds its pending check, and the GM's flat roll is not adopted;
  the GM holds no pending check of their own, so the roll is dropped.
\<close>

theorem golem_roll_is_not_adopted:
  "lookupCheck golemState (pendingChecksByChar golemState) ''c2'' = Some (0, golemCheck) \<and>
   map_option controllers (map_of (characters golemState) ''c2'') = Some [''gm''] \<and>
   potentialChecks golemState (Some ''gm'') = [] \<and>
   fst (findPendingCheck golemState (flatRoll 15) (Some ''gm'')) = None \<and>
   handleRollResult (flatRoll 15) (Some ''gm'') golemState = golemState"
proof -
  have a: "lookupCheck golemState (pendingChecksByChar golemState) ''c2'' = Some (0, golemCheck)"
    by code_simp
  have b: "map_option controllers (map_of (characters golemState) ''c2'') = Some [''gm'']"
    by code_simp
  have c: "potentialChecks golemState (Some ''gm'') = []"
    by code_simp
  have d: "fst (findPendingCheck golemState (flatRoll 15) (Some ''gm'')) = None"
    by code_simp
  from a b c d unmatched_is_dropped[OF d] show ?thesis
    by simp
qed

text \<open>
  The theorem of C5 where the GM has asked Aria for a check: the roll of her player
  with her character id, the flat roll of her player, the flat roll of the GM, and the
  roll of a stranger for her character, which is dropped.
\<close>

theorem roll_matching_priority_witness:
  "findPendingCheck (checkState (ariaCheck flatCheck (Index 0) ''normal'' Null)) (sheetRoll ''c1'' ''Flat Roll'' 15) (Some ''p1'') =
     (Some (0, ariaCheck flatCheck (Index 0) ''normal'' Null), sheetRoll ''c1'' ''Flat Roll'' 15) \<and>
   findPendingCheck (checkState (ariaCheck flatCheck (Index 0) ''normal'' Null)) (flatRoll 15) (Some ''p1'') =
     (Some (0, ariaCheck flatCheck (Index 0) ''normal'' Null), (flatRoll 15)\<lparr>characterid := Some ''c1''\<rparr>) \<and>
   findPendingCheck (checkState (ariaCheck flatCheck (Index 0) ''normal'' Null)) (flatRoll 15) (Some ''gm'') =
     (Some (0, ariaCheck flatCheck (Index 0) ''normal'' Null), (flatRoll 15)\<lparr>characterid := Some ''c1''\<rparr>) \<and>
   handleRollResult (sheetRoll ''c1'' ''Flat Roll'' 15) (Some ''p9'') (checkState (ariaCheck flatCheck (Index 0) ''normal'' Null)) =
     checkState (ariaCheck flatCheck (Index 0) ''normal'' Null)"
proof -
  define pc0 where "pc0 = ariaCheck flatCheck (Index 0) ''normal'' Null"
  define S where "S = checkState pc0"
  have cid: "pc_characterId pc0 = Some ''c1''"
    by (simp add: pc0_def ariaCheck_def)
  have t1: "truthy (characterid (sheetRoll ''c1'' ''Flat Roll'' 15))"
    "keyOf (characterid (sheetRoll ''c1'' ''Flat Roll'' 15)) = ''c1''"
    "\<not> truthy (characterid (flatRoll 15))"
    by (simp_all add: sheetRoll_def flatRoll_def truthy_def keyOf_def)
  have l1: "lookupCheck S (pendingChecksByChar S) ''c1'' = Some (0, pc0)"
    by (simp add: S_def checkState_def lookupCheck_def)
  have a1: "authorized S (Some ''p1'') ''c1'' pc0"
    unfolding S_def pc0_def by code_simp
  have a9: "\<not> authorized S (Some ''p9'') ''c1'' pc0"
    unfolding S_def pc0_def by code_simp
  have p1: "potentialChecks S (Some ''p1'') = [(0, pc0)]"
    unfolding S_def pc0_def by code_simp
  have pg: "potentialChecks S (Some ''gm'') = []"
    unfolding S_def pc0_def by code_simp
  have l3: "lookupCheck S (pendingChecks S) (keyOf (Some ''gm'')) = Some (0, pc0)"
    "lookupCheck S (pendingChecks S) (keyOf (Some ''p9'')) = None"
    by (simp_all add: S_def checkState_def lookupCheck_def keyOf_def)
  note A = roll_matching_priority[where st = S and roll = "sheetRoll ''c1'' ''Flat Roll'' 15"
      and roller = "Some ''p1''" and ref = 0 and pc = pc0]
  note B = roll_matching_priority[where st = S and roll = "flatRoll 15"
      and roller = "Some ''p1''" and ref = 0 and pc = pc0]
  note C = roll_matching_priority[where st = S and roll = "flatRoll 15" and roller = "Some ''gm''"]
  note D = roll_matching_priority[where st = S and roll = "sheetRoll ''c1'' ''Flat Roll'' 15"
      and roller = "Some ''p9''"]
  have 1: "findPendingCheck S (sheetRoll ''c1'' ''Flat Roll'' 15) (Some ''p1'') =
             (Some (0, pc0), sheetRoll ''c1'' ''Flat Roll'' 15)"
    using A t1 l1 a1 by simp
  have 2: "findPendingCheck S (flatRoll 15) (Some ''p1'') =
             (Some (0, pc0), (flatRoll 15)\<lparr>characterid := Some ''c1''\<rparr>)"
    using B t1 p1 cid by simp
  have 3: "findPendingCheck S (flatRoll 15) (Some ''gm'') =
             (Some (0, pc0), (flatRoll 15)\<lparr>characterid := Some ''c1''\<rparr>)"
    using C t1 pg l3 cid by (simp add: truthy_def)
  have "findPendingCheck S (sheetRoll ''c1'' ''Flat Roll'' 15) (Some ''p9'') =
          (None, sheetRoll ''c1'' ''Flat Roll'' 15)"
    using D t1 l1 a9 l3 by simp
  then have 4: "handleRollResult (sheetRoll ''c1'' ''Flat Roll'' 15) (Some ''p9'') S = S"
    using D by simp
  from 1 2 3 4 show ?thesis
    unfolding S_def pc0_def by simp
qed

text \<open>
  The theorem of C6 where Perception is expected and the player rolls a flat 15.
\<close>

theorem mismatch_waits_for_the_gm_witness:
  "handleRollResult (flatRoll 15) (Some ''p1'') (checkState (ariaCheck perceptionCheck (Index 1) ''normal'' Null)) =
     say (MismatchPrompt ''c1'' ''door'' ''Perception'' ''Flat Roll'' ExpectedSkill (Num 15) ''normal'' False)
       (checkState (ariaCheck perceptionCheck (Index 1) ''normal'' Null)) \<and>
   resolveMismatch ''c1'' ''door'' ''accept'' (Num 15) ''normal'' False
       (checkState (ariaCheck perceptionCheck (Index 1) ''normal'' Null)) =
     handleRollResult \<lparr>total = Num 15, firstRoll = Num 15, secondRoll = Null, isAdvantageRoll = False,
                        rollType = Some ''normal'', characterid = Some ''c1'',
                        rolledSkillName = Some ''Perception''\<rparr>
       (Some ''gm'') (say AcceptNotice (checkState (ariaCheck perceptionCheck (Index 1) ''normal'' Null))) \<and>
   mismatchOf ''Perception'' (Some ''Perception'') = None \<and>
   chatLog (resolveMismatch ''c1'' ''door'' ''reject'' (Num 15) ''normal'' False
       (checkState (ariaCheck perceptionCheck (Index 1) ''normal'' Null))) =
     [RollPrompt ''door'' ''Perception'' ''normal'' None] \<and>
   storedNotes (resolveMismatch ''c1'' ''door'' ''reject'' (Num 15) ''normal'' False
       (checkState (ariaCheck perceptionCheck (Index 1) ''normal'' Null))) ''door'' = Some doorNotes"
proof -
  define pc where "pc = ariaCheck perceptionCheck (Index 1) ''normal'' Null"
  define S where "S = checkState pc"
  have f: "findPendingCheck S (flatRoll 15) (Some ''p1'') = (Some (0, pc), (flatRoll 15)\<lparr>characterid := Some ''c1''\<rparr>)"
    unfolding S_def pc_def by (rule aria_find_flat)
  have pcf: "pc_token pc = Some ''door''" "pc_config pc = Some (doorData\<lparr>checks := [perceptionCheck]\<rparr>)"
    "checks (doorData\<lparr>checks := [perceptionCheck]\<rparr>) = perceptionCheck # []"
    "pc_characterId pc = Some ''c1''" "pc_playerid pc = Some ''gm''" "pc_checkIndex pc = Some (Index 1)"
    "pc_advantage pc = Some ''normal''"
    by (simp_all add: pc_def aria_fields)
  have ty: "ck_type perceptionCheck = ''Perception''"
    by (simp add: perceptionCheck_def)
  have lk: "lookupCheck S (pendingChecksByChar S) ''c1'' = Some (0, pc)"
    unfolding S_def by (rule checkState_lookup)
  have g: "graphics S ''door'' = Some (mkToken 105 105 70 70 doorNotes)"
    unfolding S_def by (rule door_token)
  have st: "chatLog S = []" "displayDCForCheck S (keyOf (Some ''gm'')) = None" "storedNotes S ''door'' = Some doorNotes"
    by (simp_all add: S_def checkState_def tableState_def emptyState_def storedNotes_def mkToken_def)
  have dd: "(1::nat) < length (checks doorData)" "checks doorData ! 1 = perceptionCheck"
    by (simp_all add: doorData_def)
  note T = mismatch_waits_for_the_gm[where st = S and roll = "flatRoll 15" and roller = "Some ''p1''"
      and ref = 0 and pc = pc and ?roll1.0 = "(flatRoll 15)\<lparr>characterid := Some ''c1''\<rparr>"
      and tokenId = "''door''" and config = "doorData\<lparr>checks := [perceptionCheck]\<rparr>"
      and ck = perceptionCheck and cks = "[]" and reason = ExpectedSkill
      and key = "''c1''" and trapId = "''door''" and v = "Num 15" and rt = "''normal''" and adv = False
      and t = "''door''" and i = "Index 1" and a = "''normal''" and p = "Some ''gm''" and j = "''door''"
      and tk = "mkToken 105 105 70 70 doorNotes" and cfg = doorData and n = 1]
  have 1: "handleRollResult (flatRoll 15) (Some ''p1'') S =
             say (MismatchPrompt ''c1'' ''door'' ''Perception'' ''Flat Roll'' ExpectedSkill (Num 15) ''normal'' False) S"
    using T f pcf ty mismatch_examples(1) by (simp add: flatRoll_def truthy_def keyOf_def)
  have 2: "resolveMismatch ''c1'' ''door'' ''accept'' (Num 15) ''normal'' False S =
             handleRollResult \<lparr>total = Num 15, firstRoll = Num 15, secondRoll = Null, isAdvantageRoll = False,
                                rollType = Some ''normal'', characterid = Some ''c1'',
                                rolledSkillName = Some ''Perception''\<rparr>
               (Some ''gm'') (say AcceptNotice S)"
    using T lk g pcf ty by simp
  have r: "resolveMismatch ''c1'' ''door'' ''reject'' (Num 15) ''normal'' False S =
             handleRollCheck ''door'' (Index 1) ''normal'' (Some ''gm'') S"
    using T lk g pcf by (simp add: truthy_def keyOf_def)
  have 3: "chatLog (resolveMismatch ''c1'' ''door'' ''reject'' (Num 15) ''normal'' False S) =
             [RollPrompt ''door'' ''Perception'' ''normal'' None]"
    unfolding r using T g door_gmnotes door_parse dd st ty by simp
  have 4: "storedNotes (resolveMismatch ''c1'' ''door'' ''reject'' (Num 15) ''normal'' False S) ''door'' = Some doorNotes"
    unfolding r using T st by simp
  from 1 2 3 4 mismatch_examples(7) show ?thesis
    unfolding S_def pc_def by simp
qed

text \<open>
  Where the flat roll is expected and the player rolls Perception, the GM's acceptance
  does not resolve the check: the replayed roll carries the label \<^verbatim>\<open>Flat Roll\<close>, so
  it is not the roll without a label the check expects, and the prompt is sent again.
\<close>

theorem accepted_flat_check_prompts_again:
  "handleRollResult (sheetRoll ''c1'' ''Perception'' 15) (Some ''p1'')
       (checkState (ariaCheck flatCheck (Index 0) ''normal'' Null)) =
     say (MismatchPrompt ''c1'' ''door'' ''Flat Roll'' ''Perception'' ExpectedFlat (Num 15) ''normal'' False)
       (checkState (ariaCheck flatCheck (Index 0) ''normal'' Null)) \<and>
   resolveMismatch ''c1'' ''door'' ''accept'' (Num 15) ''normal'' False
       (say (MismatchPrompt ''c1'' ''door'' ''Flat Roll'' ''Perception'' ExpectedFlat (Num 15) ''normal'' False)
          (checkState (ariaCheck flatCheck (Index 0) ''normal'' Null))) =
     say (MismatchPrompt ''c1'' ''door'' ''Flat Roll'' ''Flat Roll'' ExpectedFlat (Num 15) ''normal'' False)
       (say AcceptNotice
          (say (MismatchPrompt ''c1'' ''door'' ''Flat Roll'' ''Perception'' ExpectedFlat (Num 15) ''normal'' False)
             (checkState (ariaCheck flatCheck (Index 0) ''normal'' Null))))"
proof -
  define pc where "pc = ariaCheck flatCheck (Index 0) ''normal'' Null"
  define S where "S = checkState pc"
  define S1 where "S1 = say (MismatchPrompt ''c1'' ''door'' ''Flat Roll'' ''Perception'' ExpectedFlat (Num 15) ''normal'' False) S"
  have pcf: "pc_token pc = Some ''door''" "pc_config pc = Some (doorData\<lparr>checks := [flatCheck]\<rparr>)"
    "checks (doorData\<lparr>checks := [flatCheck]\<rparr>) = flatCheck # []"
    "pc_characterId pc = Some ''c1''" "pc_playerid pc = Some ''gm''"
    by (simp_all add: pc_def aria_fields)
  have ty: "ck_type flatCheck = ''Flat Roll''"
    by (simp add: flatCheck_def)
  have f1: "findPendingCheck S (sheetRoll ''c1'' ''Perception'' 15) (Some ''p1'') =
              (Some (0, pc), sheetRoll ''c1'' ''Perception'' 15)"
    unfolding S_def by (simp add: aria_find_sheet)
  have 1: "handleRollResult (sheetRoll ''c1'' ''Perception'' 15) (Some ''p1'') S = S1"
    using handleRollResult_found[OF f1 pcf(1-3)] pcf ty mismatch_examples(2)
    by (simp add: S1_def sheetRoll_def truthy_def keyOf_def)
  have lk: "lookupCheck S1 (pendingChecksByChar S1) ''c1'' = Some (0, pc)"
    unfolding S1_def S_def by (simp add: checkState_lookup)
  have g: "graphics S1 ''door'' \<noteq> None"
    unfolding S1_def S_def by (simp add: door_token)
  have a: "resolveMismatch ''c1'' ''door'' ''accept'' (Num 15) ''normal'' False S1 =
             handleRollResult (sheetRoll ''c1'' ''Flat Roll'' 15\<lparr>secondRoll := Null\<rparr>) (Some ''gm'') (say AcceptNotice S1)"
    using resolveMismatch_accept[OF disjI1[OF lk] g pcf(2,3), of "Num 15" "''normal''" False] pcf ty
    by (simp add: sheetRoll_def)
  have f2: "findPendingCheck (say AcceptNotice S1) (sheetRoll ''c1'' ''Flat Roll'' 15\<lparr>secondRoll := Null\<rparr>) (Some ''gm'') =
              (Some (0, pc), sheetRoll ''c1'' ''Flat Roll'' 15\<lparr>secondRoll := Null\<rparr>)"
    using find_by_character[of "sheetRoll ''c1'' ''Flat Roll'' 15\<lparr>secondRoll := Null\<rparr>" S 0 pc "Some ''gm''"]
      checkState_lookup(1)[of pc] aria_authorized(2)[of pc pc]
    by (simp add: S1_def S_def sheetRoll_def truthy_def keyOf_def)
  have 2: "handleRollResult (sheetRoll ''c1'' ''Flat Roll'' 15\<lparr>secondRoll := Null\<rparr>) (Some ''gm'') (say AcceptNotice S1) =
             say (MismatchPrompt ''c1'' ''door'' ''Flat Roll'' ''Flat Roll'' ExpectedFlat (Num 15) ''normal'' False)
               (say AcceptNotice S1)"
    using handleRollResult_found[OF f2 pcf(1-3)] pcf ty mismatch_examples(6)
    by (simp add: sheetRoll_def truthy_def keyOf_def)
  from 1 a 2 show ?thesis
    unfolding S1_def S_def pc_def by simp
qed


end
